(* ===== verification/Virp_Prelude.thy ===== *)
theory Virp_Prelude
  imports "HOL-Library.Word"
begin

text \<open>
  Shared vocabulary of the development: octets and octet buffers, the
  big-endian integer encodings every VIRP wire format uses, the two memory
  operations the C code performs on buffers (\<open>memcpy\<close> into a buffer at an
  offset and reading a range), nullable pointers, C strings, and the generic
  lemmas about them that the component theories rely on.

  Conventions. A C buffer together with its length argument is a \<open>byte list\<close>
  whose length is that argument. A pointer that the code compares with NULL is
  an option (\<open>None\<close> is NULL). A fixed-size array member is a \<open>byte list\<close>; the
  well-formedness predicate of its record fixes the length. A function that
  returns an error code and writes its results through out parameters returns
  a sum: \<open>Inl\<close> the error code, or \<open>Inr\<close> the results that a caller reads after
  VIRP_OK.
\<close>

unbundle bit_operations_syntax

named_theorems wire_simps \<open>layout and round-trip equations of the wire formats\<close>
named_theorems len_simps \<open>lengths of encoded values\<close>

type_synonym byte = "8 word"
type_synonym bytes = "byte list"
type_synonym u8 = "8 word"
type_synonym u16 = "16 word"
type_synonym u32 = "32 word"
type_synonym u64 = "64 word"
type_synonym 'a ptr = "'a option"

section \<open>Big-endian integers\<close>

definition be16 :: "u16 \<Rightarrow> bytes" where
  "be16 v = [ucast (drop_bit 8 v), ucast v]"

definition be32 :: "u32 \<Rightarrow> bytes" where
  "be32 v = [ucast (drop_bit 24 v), ucast (drop_bit 16 v),
             ucast (drop_bit 8 v), ucast v]"

definition be64 :: "u64 \<Rightarrow> bytes" where
  "be64 v = be32 (ucast (drop_bit 32 v)) @ be32 (ucast v)"

fun rd16 :: "bytes \<Rightarrow> u16" where
  "rd16 (a # b # _) = push_bit 8 (ucast a) OR ucast b"
| "rd16 _ = 0"

fun rd32 :: "bytes \<Rightarrow> u32" where
  "rd32 (a # b # c # d # _) =
     push_bit 24 (ucast a) OR push_bit 16 (ucast b) OR push_bit 8 (ucast c) OR ucast d"
| "rd32 _ = 0"

definition rd64 :: "bytes \<Rightarrow> u64" where
  "rd64 bs = push_bit 32 (ucast (rd32 bs)) OR ucast (rd32 (drop 4 bs))"

lemma length_be [simp, len_simps]:
  "length (be16 a) = 2" "length (be32 b) = 4" "length (be64 c) = 8"
  by (simp_all add: be16_def be32_def be64_def)

lemma bit_byte_ge: "8 \<le> n \<Longrightarrow> \<not> bit (a :: byte) n"
  using bit_imp_le_length [of a n] by auto

lemma bit_u32_ge: "32 \<le> n \<Longrightarrow> \<not> bit (a :: u32) n"
  using bit_imp_le_length [of a n] by auto

lemma rd16_be16 [simp, wire_simps]: "rd16 (be16 v @ r) = v"
  by (rule bit_word_eqI) (auto simp: be16_def bit_simps)

lemma rd32_be32 [simp, wire_simps]: "rd32 (be32 v @ r) = v"
proof (rule bit_word_eqI)
  fix n
  assume "n < LENGTH(32)"
  then show "bit (rd32 (be32 v @ r)) n = bit v n"
    by (cases "24 \<le> n"; cases "16 \<le> n"; cases "8 \<le> n") (auto simp: be32_def bit_simps)
qed

lemma rd64_be64 [simp, wire_simps]: "rd64 (be64 v @ r) = v"
proof (rule bit_word_eqI)
  fix n
  assume "n < LENGTH(64)"
  then show "bit (rd64 (be64 v @ r)) n = bit v n"
    by (cases "32 \<le> n") (auto simp: be64_def rd64_def bit_simps)
qed

lemma rd_be_exact [simp, wire_simps]:
  "rd16 (be16 a) = a" "rd32 (be32 b) = b" "rd64 (be64 c) = c"
  using rd16_be16 [of a "[]"] rd32_be32 [of b "[]"] rd64_be64 [of c "[]"] by simp_all

lemma be16_rd16:
  assumes "2 \<le> length bs"
  shows "be16 (rd16 bs) = take 2 bs"
proof -
  obtain a b r where "bs = a # b # r"
    using assms by (auto simp: numeral_eq_Suc Suc_le_length_iff)
  then show ?thesis
    by (auto simp: be16_def bit_simps bit_byte_ge intro!: bit_word_eqI)
qed

lemma be32_rd32:
  assumes "4 \<le> length bs"
  shows "be32 (rd32 bs) = take 4 bs"
proof -
  obtain a b c d r where "bs = a # b # c # d # r"
    using assms by (auto simp: numeral_eq_Suc Suc_le_length_iff)
  then show ?thesis
    by (auto simp: be32_def bit_simps bit_byte_ge intro!: bit_word_eqI)
qed

lemma be64_rd64:
  assumes "8 \<le> length bs"
  shows "be64 (rd64 bs) = take 8 bs"
proof -
  have hi: "ucast (drop_bit 32 (rd64 bs)) = rd32 bs"
    by (auto simp: rd64_def bit_simps bit_u32_ge intro!: bit_word_eqI)
  have lo: "ucast (rd64 bs) = rd32 (drop 4 bs)"
    by (auto simp: rd64_def bit_simps bit_u32_ge intro!: bit_word_eqI)
  have "be64 (rd64 bs) = take 4 bs @ take 4 (drop 4 bs)"
    using assms by (simp add: be64_def hi lo be32_rd32)
  also have "\<dots> = take (4 + 4) bs"
    by (rule take_add [symmetric])
  finally show ?thesis by simp
qed

lemma be_inject [simp]:
  "be16 a = be16 a' \<longleftrightarrow> a = a'" "be32 b = be32 b' \<longleftrightarrow> b = b'" "be64 c = be64 c' \<longleftrightarrow> c = c'"
  by (metis rd_be_exact(1), metis rd_be_exact(2), metis rd_be_exact(3))

section \<open>Buffers\<close>

text \<open>\<open>poke off src buf\<close> is \<open>memcpy(buf + off, src, |src|)\<close>; \<open>bslice off n buf\<close>
  is the range \<open>buf[off .. off + n)\<close>.\<close>

definition poke :: "nat \<Rightarrow> 'a list \<Rightarrow> 'a list \<Rightarrow> 'a list" where
  "poke off src buf = take off buf @ src @ drop (off + length src) buf"

definition bslice :: "nat \<Rightarrow> nat \<Rightarrow> 'a list \<Rightarrow> 'a list" where
  "bslice off n buf = take n (drop off buf)"

lemma length_poke [simp]:
  "off + length src \<le> length buf \<Longrightarrow> length (poke off src buf) = length buf"
  by (simp add: poke_def)

text \<open>Writes at consecutive offsets build up a prefix of the buffer: each step
  extends what has been written so far and leaves the rest alone.\<close>

lemma poke_first: "poke 0 src buf = src @ drop (length src) buf"
  by (simp add: poke_def)

lemma poke_next:
  "length pre = off \<Longrightarrow> poke off src (pre @ drop off buf) = (pre @ src) @ drop (off + length src) buf"
  by (simp add: poke_def add.commute)

lemma length_bslice [simp]: "off + n \<le> length buf \<Longrightarrow> length (bslice off n buf) = n"
  by (simp add: bslice_def)

lemma bslice_append_right: "length xs = off \<Longrightarrow> bslice off n (xs @ ys) = take n ys"
  by (simp add: bslice_def)

lemma bslice_split: "bslice off (n + m) buf = bslice off n buf @ bslice (off + n) m buf"
  unfolding bslice_def take_add drop_drop by (simp add: add.commute)

lemma take_bslices: "take (off + n) buf = take off buf @ bslice off n buf"
  by (simp add: bslice_def take_add)

lemma take_two_drop:
  "off + 2 \<le> length buf \<Longrightarrow> take 2 (drop off buf) = [buf ! off, buf ! (off + 1)]"
  by (simp add: take_Suc_conv_app_nth numeral_2_eq_2)

lemma take_four_drop:
  "off + 4 \<le> length buf \<Longrightarrow>
   take 4 (drop off buf) = [buf ! off, buf ! (off + 1), buf ! (off + 2), buf ! (off + 3)]"
  by (simp add: take_Suc_conv_app_nth eval_nat_numeral)

lemma take_two: "2 \<le> length buf \<Longrightarrow> take 2 buf = [buf ! 0, buf ! 1]"
  using take_two_drop [of 0 buf] by simp

lemma take_four: "4 \<le> length buf \<Longrightarrow> take 4 buf = [buf ! 0, buf ! 1, buf ! 2, buf ! 3]"
  using take_four_drop [of 0 buf] by (simp add: numeral_2_eq_2)

text \<open>\<open>writes ws buf\<close> performs the writes of \<open>ws\<close> (offset and octets) in order. The
  C serialisers fill a buffer by such a sequence; when each write starts where
  the one before ended (\<open>contiguous\<close>), the buffer ends up holding exactly the
  concatenation of the written octets, and nothing of the old content below
  the end of the last write.\<close>

definition writes :: "(nat \<times> 'a list) list \<Rightarrow> 'a list \<Rightarrow> 'a list" where
  "writes ws buf = fold (\<lambda>(off, src) b. poke off src b) ws buf"

fun contiguous :: "nat \<Rightarrow> (nat \<times> 'a list) list \<Rightarrow> bool" where
  "contiguous off [] = True"
| "contiguous off ((o1, src) # ws) = (o1 = off \<and> contiguous (off + length src) ws)"

lemma writes_contiguous_aux:
  "contiguous (length pre) ws \<Longrightarrow>
   fold (\<lambda>(off, src) b. poke off src b) ws (pre @ drop (length pre) buf) =
   (pre @ concat (map snd ws)) @ drop (length (pre @ concat (map snd ws))) buf"
proof (induction ws arbitrary: pre)
  case Nil
  then show ?case by simp
next
  case (Cons w ws)
  obtain src where w: "w = (length pre, src)"
    using Cons.prems by (cases w) simp
  have "contiguous (length (pre @ src)) ws"
    using Cons.prems w by simp
  from Cons.IH [OF this] show ?case
    by (simp only: w fold_simps prod.case poke_next [OF refl] length_append list.map snd_conv concat.simps append_assoc)
qed

lemma writes_contiguous:
  "contiguous 0 ws \<Longrightarrow>
   writes ws buf = concat (map snd ws) @ drop (length (concat (map snd ws))) buf"
  using writes_contiguous_aux [of "[]" ws buf] by (simp add: writes_def)

section \<open>Sums as error results\<close>

text \<open>Sequencing of fallible calls: the first error is returned.\<close>

fun sbind :: "'e + 'a \<Rightarrow> ('a \<Rightarrow> 'e + 'b) \<Rightarrow> 'e + 'b" where
  "sbind (Inl e) f = Inl e"
| "sbind (Inr x) f = f x"

lemma sbind_Inr_iff: "sbind m f = Inr y \<longleftrightarrow> (\<exists>x. m = Inr x \<and> f x = Inr y)"
  by (cases m) auto

lemma sbind_Inl_iff: "sbind m f = Inl e \<longleftrightarrow> m = Inl e \<or> (\<exists>x. m = Inr x \<and> f x = Inl e)"
  by (cases m) auto

text \<open>Reading a success off a chain of guards that return an error with the state.\<close>

lemma guard_Inr: "(if b then (Inl e, st) else x) = (Inr r, st') \<longleftrightarrow> \<not> b \<and> x = (Inr r, st')"
  by simp

lemma bind_Inr:
  "(case z of Inl e \<Rightarrow> (Inl e, st) | Inr x \<Rightarrow> f x) = (Inr r, st') \<longleftrightarrow> (\<exists>x. z = Inr x \<and> f x = (Inr r, st'))"
  by (cases z) simp_all

text \<open>On the error side of such a chain the state is the one the call started from.\<close>

lemma guard_keep:
  "(if b then (Inl e, st) else x) = (Inl w, st') \<Longrightarrow> (x = (Inl w, st') \<Longrightarrow> st' = st) \<Longrightarrow> st' = st"
  by (cases b) simp_all

end
