(* ===== verification/Virp_Types.thy ===== *)
theory Virp_Types
  imports Virp_Prelude
begin

text \<open>
  The protocol vocabulary of \<open>include/virp.h\<close>: the protocol constants, the
  message, channel and tier codes, the return codes with their numeric values
  and texts, and the wire structures as records. Codes that travel on the wire
  stay octets (\<open>u8\<close>), as in the C code, so that every value an attacker can send
  has a place in the model.
\<close>

section \<open>Return codes\<close>

datatype (plugins only: code size) virp_error_t =
    VIRP_OK
  | VIRP_ERR_NULL_PTR
  | VIRP_ERR_BUFFER_TOO_SMALL
  | VIRP_ERR_INVALID_VERSION
  | VIRP_ERR_INVALID_TYPE
  | VIRP_ERR_INVALID_CHANNEL
  | VIRP_ERR_INVALID_TIER
  | VIRP_ERR_INVALID_LENGTH
  | VIRP_ERR_HMAC_FAILED
  | VIRP_ERR_CHANNEL_VIOLATION
  | VIRP_ERR_TIER_VIOLATION
  | VIRP_ERR_REPLAY_DETECTED
  | VIRP_ERR_NO_EVIDENCE
  | VIRP_ERR_STALE_OBSERVATION
  | VIRP_ERR_KEY_NOT_LOADED
  | VIRP_ERR_MESSAGE_TOO_LARGE
  | VIRP_ERR_RESERVED_NONZERO
  | VIRP_ERR_CHAIN_DB
  | VIRP_ERR_CHAIN_BROKEN
  | VIRP_ERR_CHAIN_SEQUENCE
  | VIRP_ERR_FED_KEY_VERSION
  | VIRP_ERR_FED_REVOKED
  | VIRP_ERR_FED_UNVERIFIED
  | VIRP_ERR_TENANT_VIOLATION
  | VIRP_ERR_INTENT_NOT_FOUND
  | VIRP_ERR_INTENT_EXPIRED
  | VIRP_ERR_INTENT_EXHAUSTED
  | VIRP_ERR_VERSION_MISMATCH
  | VIRP_ERR_ALGORITHM_MISMATCH
  | VIRP_ERR_CHANNEL_UNSUPPORTED
  | VIRP_ERR_SESSION_INVALID
  | VIRP_ERR_CONTEXT_MISMATCH
  | VIRP_ERR_CRYPTO
  | VIRP_ERR_HOST_KEY_MISMATCH
  | VIRP_ERR_HOST_KEY_UNKNOWN
  | VIRP_ERR_PROTOCOL_VERSION
  | VIRP_ERR_APPROVAL_EXPIRED
  | VIRP_ERR_APPROVAL_REUSED
  | VIRP_ERR_APPROVAL_HASH_MISMATCH
  | VIRP_ERR_APPROVAL_DEVICE_MISMATCH
  | VIRP_ERR_APPROVAL_BAD_SIGNATURE
  | VIRP_ERR_APPROVAL_NOT_FOUND
  | VIRP_ERR_APPROVAL_CONSUMED
  | VIRP_ERR_APPROVAL_KEY_UNENROLLED
  | VIRP_ERR_APPROVAL_KEY_DISABLED
  | VIRP_ERR_NO_PROMPT
  | VIRP_ERR_DUPLICATE_DEVICE
  | VIRP_ERR_CHAIN_READONLY
  | VIRP_ERR_OUTCOME_UNKNOWN
  | VIRP_ERR_OBS_SIG_INVALID
  | VIRP_ERR_ACTION_FORBIDDEN
  | VIRP_ERR_DUPLICATE_MISMATCH
  | VIRP_ERR_APPROVAL_STORE_UNREADABLE
  | VIRP_ERR_EVIDENCE_UNAVAILABLE
  | VIRP_ERR_TRANSPORT_WRITE
  | VIRP_ERR_TRANSPORT_CLOSED
  | VIRP_ERR_APPROVAL_STORE_ABSENT
  | VIRP_APPROVAL_ALREADY_EXISTS

fun virp_error_code :: "virp_error_t \<Rightarrow> int" where
  "virp_error_code VIRP_OK = 0"
| "virp_error_code VIRP_ERR_NULL_PTR = - 1"
| "virp_error_code VIRP_ERR_BUFFER_TOO_SMALL = - 2"
| "virp_error_code VIRP_ERR_INVALID_VERSION = - 3"
| "virp_error_code VIRP_ERR_INVALID_TYPE = - 4"
| "virp_error_code VIRP_ERR_INVALID_CHANNEL = - 5"
| "virp_error_code VIRP_ERR_INVALID_TIER = - 6"
| "virp_error_code VIRP_ERR_INVALID_LENGTH = - 7"
| "virp_error_code VIRP_ERR_HMAC_FAILED = - 8"
| "virp_error_code VIRP_ERR_CHANNEL_VIOLATION = - 9"
| "virp_error_code VIRP_ERR_TIER_VIOLATION = - 10"
| "virp_error_code VIRP_ERR_REPLAY_DETECTED = - 11"
| "virp_error_code VIRP_ERR_NO_EVIDENCE = - 12"
| "virp_error_code VIRP_ERR_STALE_OBSERVATION = - 13"
| "virp_error_code VIRP_ERR_KEY_NOT_LOADED = - 14"
| "virp_error_code VIRP_ERR_MESSAGE_TOO_LARGE = - 15"
| "virp_error_code VIRP_ERR_RESERVED_NONZERO = - 16"
| "virp_error_code VIRP_ERR_CHAIN_DB = - 17"
| "virp_error_code VIRP_ERR_CHAIN_BROKEN = - 18"
| "virp_error_code VIRP_ERR_CHAIN_SEQUENCE = - 19"
| "virp_error_code VIRP_ERR_FED_KEY_VERSION = - 20"
| "virp_error_code VIRP_ERR_FED_REVOKED = - 21"
| "virp_error_code VIRP_ERR_FED_UNVERIFIED = - 22"
| "virp_error_code VIRP_ERR_TENANT_VIOLATION = - 23"
| "virp_error_code VIRP_ERR_INTENT_NOT_FOUND = - 24"
| "virp_error_code VIRP_ERR_INTENT_EXPIRED = - 25"
| "virp_error_code VIRP_ERR_INTENT_EXHAUSTED = - 26"
| "virp_error_code VIRP_ERR_VERSION_MISMATCH = - 27"
| "virp_error_code VIRP_ERR_ALGORITHM_MISMATCH = - 28"
| "virp_error_code VIRP_ERR_CHANNEL_UNSUPPORTED = - 29"
| "virp_error_code VIRP_ERR_SESSION_INVALID = - 30"
| "virp_error_code VIRP_ERR_CONTEXT_MISMATCH = - 31"
| "virp_error_code VIRP_ERR_CRYPTO = - 32"
| "virp_error_code VIRP_ERR_HOST_KEY_MISMATCH = - 33"
| "virp_error_code VIRP_ERR_HOST_KEY_UNKNOWN = - 34"
| "virp_error_code VIRP_ERR_PROTOCOL_VERSION = - 35"
| "virp_error_code VIRP_ERR_APPROVAL_EXPIRED = - 36"
| "virp_error_code VIRP_ERR_APPROVAL_REUSED = - 37"
| "virp_error_code VIRP_ERR_APPROVAL_HASH_MISMATCH = - 38"
| "virp_error_code VIRP_ERR_APPROVAL_DEVICE_MISMATCH = - 39"
| "virp_error_code VIRP_ERR_APPROVAL_BAD_SIGNATURE = - 40"
| "virp_error_code VIRP_ERR_APPROVAL_NOT_FOUND = - 41"
| "virp_error_code VIRP_ERR_APPROVAL_CONSUMED = - 42"
| "virp_error_code VIRP_ERR_APPROVAL_KEY_UNENROLLED = - 43"
| "virp_error_code VIRP_ERR_APPROVAL_KEY_DISABLED = - 44"
| "virp_error_code VIRP_ERR_NO_PROMPT = - 45"
| "virp_error_code VIRP_ERR_DUPLICATE_DEVICE = - 46"
| "virp_error_code VIRP_ERR_CHAIN_READONLY = - 47"
| "virp_error_code VIRP_ERR_OUTCOME_UNKNOWN = - 48"
| "virp_error_code VIRP_ERR_OBS_SIG_INVALID = - 49"
| "virp_error_code VIRP_ERR_ACTION_FORBIDDEN = - 50"
| "virp_error_code VIRP_ERR_DUPLICATE_MISMATCH = - 51"
| "virp_error_code VIRP_ERR_APPROVAL_STORE_UNREADABLE = - 52"
| "virp_error_code VIRP_ERR_EVIDENCE_UNAVAILABLE = - 53"
| "virp_error_code VIRP_ERR_TRANSPORT_WRITE = - 54"
| "virp_error_code VIRP_ERR_TRANSPORT_CLOSED = - 55"
| "virp_error_code VIRP_ERR_APPROVAL_STORE_ABSENT = - 56"
| "virp_error_code VIRP_APPROVAL_ALREADY_EXISTS = 1"

fun virp_error_str :: "virp_error_t \<Rightarrow> string" where
  "virp_error_str VIRP_OK = ''OK''"
| "virp_error_str VIRP_ERR_NULL_PTR = ''NULL pointer''"
| "virp_error_str VIRP_ERR_NO_PROMPT = ''Read ended without device prompt (output incomplete)''"
| "virp_error_str VIRP_ERR_BUFFER_TOO_SMALL = ''Buffer too small''"
| "virp_error_str VIRP_ERR_INVALID_VERSION = ''Invalid version''"
| "virp_error_str VIRP_ERR_INVALID_TYPE = ''Invalid message type''"
| "virp_error_str VIRP_ERR_INVALID_CHANNEL = ''Invalid channel''"
| "virp_error_str VIRP_ERR_INVALID_TIER = ''Invalid tier''"
| "virp_error_str VIRP_ERR_INVALID_LENGTH = ''Invalid length''"
| "virp_error_str VIRP_ERR_HMAC_FAILED = ''HMAC verification failed''"
| "virp_error_str VIRP_ERR_CHANNEL_VIOLATION = ''Channel-key binding violation''"
| "virp_error_str VIRP_ERR_TIER_VIOLATION = ''BLACK tier transmitted''"
| "virp_error_str VIRP_ERR_REPLAY_DETECTED = ''Replay detected''"
| "virp_error_str VIRP_ERR_NO_EVIDENCE = ''Proposal has no supporting evidence''"
| "virp_error_str VIRP_ERR_STALE_OBSERVATION = ''Referenced observation expired''"
| "virp_error_str VIRP_ERR_KEY_NOT_LOADED = ''Signing key not loaded''"
| "virp_error_str VIRP_ERR_MESSAGE_TOO_LARGE = ''Message exceeds maximum size''"
| "virp_error_str VIRP_ERR_RESERVED_NONZERO = ''Reserved field is non-zero''"
| "virp_error_str VIRP_ERR_CHAIN_DB = ''Chain database error''"
| "virp_error_str VIRP_ERR_CHAIN_BROKEN = ''Chain integrity violated''"
| "virp_error_str VIRP_ERR_CHAIN_SEQUENCE = ''Chain sequence error''"
| "virp_error_str VIRP_ERR_FED_KEY_VERSION = ''Federation key version too low''"
| "virp_error_str VIRP_ERR_FED_REVOKED = ''Federation key revoked''"
| "virp_error_str VIRP_ERR_FED_UNVERIFIED = ''Unverified foreign peer''"
| "virp_error_str VIRP_ERR_TENANT_VIOLATION = ''Tenant isolation violation''"
| "virp_error_str VIRP_ERR_INTENT_NOT_FOUND = ''Intent not found in durable store''"
| "virp_error_str VIRP_ERR_INTENT_EXPIRED = ''Intent TTL exceeded''"
| "virp_error_str VIRP_ERR_INTENT_EXHAUSTED = ''Intent max_commands reached''"
| "virp_error_str VIRP_ERR_VERSION_MISMATCH = ''Protocol version mismatch''"
| "virp_error_str VIRP_ERR_ALGORITHM_MISMATCH = ''HMAC algorithm mismatch''"
| "virp_error_str VIRP_ERR_CHANNEL_UNSUPPORTED = ''Unsupported channel type''"
| "virp_error_str VIRP_ERR_SESSION_INVALID = ''Invalid session ID''"
| "virp_error_str VIRP_ERR_CONTEXT_MISMATCH = ''Context mismatch in verification''"
| "virp_error_str VIRP_ERR_CRYPTO = ''Cryptographic operation failed''"
| "virp_error_str VIRP_ERR_HOST_KEY_MISMATCH = ''SSH host key mismatch (possible MITM)''"
| "virp_error_str VIRP_ERR_HOST_KEY_UNKNOWN = ''SSH host key not in known_hosts''"
| "virp_error_str VIRP_ERR_PROTOCOL_VERSION = ''Unframed v1 request (upgrade client)''"
| "virp_error_str VIRP_ERR_APPROVAL_EXPIRED = ''Approval expired (TTL elapsed)''"
| "virp_error_str VIRP_ERR_APPROVAL_REUSED = ''Approval already consumed (single-use)''"
| "virp_error_str VIRP_ERR_APPROVAL_HASH_MISMATCH = ''Approval bound to a different command''"
| "virp_error_str VIRP_ERR_APPROVAL_DEVICE_MISMATCH = ''Approval bound to a different device''"
| "virp_error_str VIRP_ERR_APPROVAL_BAD_SIGNATURE = ''Approval signature invalid''"
| "virp_error_str VIRP_ERR_APPROVAL_NOT_FOUND = ''Proposal or approval not found''"
| "virp_error_str VIRP_ERR_APPROVAL_STORE_UNREADABLE = ''Approval store is not readable by this user''"
| "virp_error_str VIRP_ERR_APPROVAL_CONSUMED = ''Proposal already has an outcome''"
| "virp_error_str VIRP_ERR_APPROVAL_KEY_UNENROLLED = ''Approver key_id not enrolled''"
| "virp_error_str VIRP_ERR_APPROVAL_KEY_DISABLED = ''Approver key disabled''"
| "virp_error_str VIRP_ERR_DUPLICATE_DEVICE = ''Duplicate device identity (hostname/node_id/device_id)''"
| "virp_error_str VIRP_ERR_CHAIN_READONLY = ''Write refused on read-only verifier chain handle''"
| "virp_error_str VIRP_ERR_OUTCOME_UNKNOWN = ''Outcome unknown: response absent after possible dispatch; not retried''"
| "virp_error_str VIRP_ERR_OBS_SIG_INVALID = ''Ed25519 observation signature invalid''"
| "virp_error_str VIRP_ERR_ACTION_FORBIDDEN = ''Action not in the caller uid's allowed set''"
| "virp_error_str VIRP_ERR_DUPLICATE_MISMATCH = ''Federation artifact_id reused with different body bytes''"
| "virp_error_str VIRP_ERR_EVIDENCE_UNAVAILABLE = ''Evidence unavailable: pre-execution record could not be made durable; operation refused''"
| "virp_error_str VIRP_ERR_TRANSPORT_WRITE = ''Transport write failed: the device channel would not accept bytes (peer closed, reset, or session idled out) - nothing was dispatched''"
| "virp_error_str VIRP_ERR_TRANSPORT_CLOSED = ''Transport closed: the device closed the session (idle timeout or reset) - nothing was dispatched; one reconnect is warranted''"
| "virp_error_str VIRP_ERR_APPROVAL_STORE_ABSENT = ''Approval store directory not present on this host (wrong host, or the store is not configured here)''"
| "virp_error_str VIRP_APPROVAL_ALREADY_EXISTS = ''Unknown error''"

text \<open>The numeric values are pairwise different, so a caller that compares codes
  (as every C caller does) tells the constructors apart.\<close>

lemma virp_error_code_eq_0 [simp]: "virp_error_code e = 0 \<longleftrightarrow> e = VIRP_OK"
  by (cases e) simp_all

section \<open>Protocol constants\<close>

definition VIRP_VERSION :: u8 where [simp]: "VIRP_VERSION = 1"
definition VIRP_VERSION_2 :: u8 where [simp]: "VIRP_VERSION_2 = 2"
definition VIRP_VERSION_3 :: u8 where [simp]: "VIRP_VERSION_3 = 3"
definition VIRP_HEADER_SIZE :: nat where [simp]: "VIRP_HEADER_SIZE = 56"
definition VIRP_HMAC_SIZE :: nat where [simp]: "VIRP_HMAC_SIZE = 32"
definition VIRP_KEY_SIZE :: nat where [simp]: "VIRP_KEY_SIZE = 32"
definition VIRP_MAX_MESSAGE_SIZE :: nat where [simp]: "VIRP_MAX_MESSAGE_SIZE = 65536"
definition VIRP_MAX_PAYLOAD_SIZE :: nat where [simp]: "VIRP_MAX_PAYLOAD_SIZE = 65480"
definition VIRP_OBS_V1_MAX_DATA :: nat where [simp]: "VIRP_OBS_V1_MAX_DATA = 65475"
definition VIRP_MAX_OBS_REFS :: nat where [simp]: "VIRP_MAX_OBS_REFS = 64"
definition VIRP_MAGIC :: u32 where [simp]: "VIRP_MAGIC = 0x56495250"
definition VIRP_TLV_MAX_VALUE_SIZE :: nat where [simp]: "VIRP_TLV_MAX_VALUE_SIZE = 4096"

definition VIRP_CHANNEL_OC :: u8 where [simp]: "VIRP_CHANNEL_OC = 1"
definition VIRP_CHANNEL_IC :: u8 where [simp]: "VIRP_CHANNEL_IC = 2"

definition VIRP_TIER_UNCLASSIFIED :: u8 where [simp]: "VIRP_TIER_UNCLASSIFIED = 0"
definition VIRP_TIER_GREEN :: u8 where [simp]: "VIRP_TIER_GREEN = 1"
definition VIRP_TIER_YELLOW :: u8 where [simp]: "VIRP_TIER_YELLOW = 2"
definition VIRP_TIER_RED :: u8 where [simp]: "VIRP_TIER_RED = 3"
definition VIRP_TIER_BLACK :: u8 where [simp]: "VIRP_TIER_BLACK = 0xFF"

definition VIRP_MSG_OBSERVATION :: u8 where [simp]: "VIRP_MSG_OBSERVATION = 1"
definition VIRP_MSG_HELLO :: u8 where [simp]: "VIRP_MSG_HELLO = 2"
definition VIRP_MSG_PROPOSAL :: u8 where [simp]: "VIRP_MSG_PROPOSAL = 0x10"
definition VIRP_MSG_APPROVAL :: u8 where [simp]: "VIRP_MSG_APPROVAL = 0x11"
definition VIRP_MSG_INTENT_ADV :: u8 where [simp]: "VIRP_MSG_INTENT_ADV = 0x20"
definition VIRP_MSG_INTENT_WD :: u8 where [simp]: "VIRP_MSG_INTENT_WD = 0x21"
definition VIRP_MSG_HEARTBEAT :: u8 where [simp]: "VIRP_MSG_HEARTBEAT = 0x30"
definition VIRP_MSG_TEARDOWN :: u8 where [simp]: "VIRP_MSG_TEARDOWN = 0xF0"
definition VIRP_MSG_SESSION_HELLO_ACK :: u8 where [simp]: "VIRP_MSG_SESSION_HELLO_ACK = 0x41"
definition VIRP_ALG_HMAC_SHA256 :: u8 where [simp]: "VIRP_ALG_HMAC_SHA256 = 1"
definition VIRP_PSTATE_PROPOSED :: u8 where [simp]: "VIRP_PSTATE_PROPOSED = 1"

definition VIRP_OBS_V2_HEADER_SIZE :: nat where [simp]: "VIRP_OBS_V2_HEADER_SIZE = 88"
definition VIRP_OBS_V2_SIG_SIZE :: nat where [simp]: "VIRP_OBS_V2_SIG_SIZE = 32"
definition VIRP_OBS_V2_MIN_SIZE :: nat where [simp]: "VIRP_OBS_V2_MIN_SIZE = 120"
definition VIRP_OBS_ED25519_SIG_SIZE :: nat where [simp]: "VIRP_OBS_ED25519_SIG_SIZE = 64"
definition VIRP_OBS_V3_MIN_SIZE :: nat where [simp]: "VIRP_OBS_V3_MIN_SIZE = 184"
definition VIRP_OBS_V2_FRESHNESS_WINDOW_NS :: u64 where
  [simp]: "VIRP_OBS_V2_FRESHNESS_WINDOW_NS = 300000000000"

section \<open>Wire structures\<close>

text \<open>\<open>virp_header_t\<close>: the 56-octet v1 header.\<close>

record virp_header_t =
  hdr_version :: u8
  hdr_type :: u8
  hdr_length :: u16
  hdr_node_id :: u32
  hdr_channel :: u8
  hdr_tier :: u8
  hdr_reserved :: u16
  hdr_seq_num :: u32
  hdr_timestamp_ns :: u64
  hdr_hmac :: bytes

text \<open>\<open>virp_obs_header_v2_t\<close>: the in-memory header of v2 and v3 observations.\<close>

record virp_obs_header_v2_t =
  oh_version :: u8
  oh_channel :: u8
  oh_tier :: u8
  oh_reserved :: u8
  oh_node_id :: u64
  oh_timestamp_ns :: u64
  oh_seq_num :: u64
  oh_session_id :: bytes
  oh_device_id :: u64
  oh_command_hash :: bytes
  oh_payload_len :: u32

record virp_observation_t =
  obs_type :: u8
  obs_scope :: u8
  obs_length :: u16

record virp_obs_ref_t =
  ref_node_id :: u32
  ref_seq_num :: u32

record virp_proposal_t =
  prop_id :: u32
  prop_type :: u8
  prop_state :: u8
  prop_blast_radius :: u16
  prop_obs_ref_count :: u32

record virp_approval_t =
  ap_proposal_id :: u32
  ap_approver_node_id :: u32
  ap_approval_type :: u8
  ap_approver_class :: u8
  ap_reserved :: u16

record virp_heartbeat_t =
  hb_uptime_seconds :: u32
  hb_onode_ok :: u8
  hb_rnode_ok :: u8
  hb_active_observations :: u16
  hb_active_proposals :: u32

record virp_hello_t =
  hello_magic :: u32
  hello_version :: u8
  hello_node_type :: u8
  hello_max_tier :: u8
  hello_reserved :: u8
  hello_node_id :: u32
  hello_okey_fingerprint :: bytes
  hello_rkey_fingerprint :: bytes

section \<open>Names for logs\<close>

definition virp_msg_type_str :: "u8 \<Rightarrow> string" where
  "virp_msg_type_str t =
     (if t = VIRP_MSG_OBSERVATION then ''OBSERVATION''
      else if t = VIRP_MSG_HELLO then ''HELLO''
      else if t = VIRP_MSG_PROPOSAL then ''PROPOSAL''
      else if t = VIRP_MSG_APPROVAL then ''APPROVAL''
      else if t = VIRP_MSG_INTENT_ADV then ''INTENT-ADVERTISE''
      else if t = VIRP_MSG_INTENT_WD then ''INTENT-WITHDRAW''
      else if t = VIRP_MSG_HEARTBEAT then ''HEARTBEAT''
      else if t = VIRP_MSG_TEARDOWN then ''TEARDOWN''
      else ''UNKNOWN'')"

definition virp_channel_str :: "u8 \<Rightarrow> string" where
  "virp_channel_str c =
     (if c = VIRP_CHANNEL_OC then ''OBSERVATION''
      else if c = VIRP_CHANNEL_IC then ''INTENT''
      else ''UNKNOWN'')"

definition virp_tier_str :: "u8 \<Rightarrow> string" where
  "virp_tier_str t =
     (if t = VIRP_TIER_UNCLASSIFIED then ''UNCLASSIFIED''
      else if t = VIRP_TIER_BLACK then ''BLACK (forbidden)''
      else if t = VIRP_TIER_GREEN then ''GREEN (passive)''
      else if t = VIRP_TIER_YELLOW then ''YELLOW (active)''
      else if t = VIRP_TIER_RED then ''RED (critical)''
      else ''UNKNOWN'')"

end
