(* ===== verification/Virp_Wire.thy ===== *)
theory Virp_Wire
  imports Virp_Types
begin

text \<open>
  The wire formats of \<open>src/virp_message.c\<close>: the v1 header, the v2/v3
  observation header, the payloads of the v1 messages and the TLV extension
  field. Each format has its byte layout (\<open>header_bytes\<close>, \<open>obs_header_bytes\<close>,
  ...), the C serialiser as a sequence of writes at the source's offsets, and
  the C parser. The interface \<open>wire_codec\<close> states what a format promises
  (fixed size, decoding inverts encoding, short input is refused) and
  \<open>canonical_codec\<close> adds that the decoder accepts one spelling only; both are
  interpreted for the formats below.
\<close>

section \<open>What a fixed-size wire format promises\<close>

locale wire_codec =
  fixes wf :: "'a \<Rightarrow> bool"
    and enc :: "'a \<Rightarrow> bytes"
    and dec :: "bytes ptr \<Rightarrow> virp_error_t + 'a"
    and sz :: nat
  assumes enc_length: "wf x \<Longrightarrow> length (enc x) = sz"
    and dec_enc: "wf x \<Longrightarrow> dec (Some (enc x @ rest)) = Inr x"
    and dec_null: "dec None = Inl VIRP_ERR_NULL_PTR"
    and dec_short: "length bs < sz \<Longrightarrow> dec (Some bs) = Inl VIRP_ERR_BUFFER_TOO_SMALL"
    and dec_total: "sz \<le> length bs \<Longrightarrow> \<exists>x. dec (Some bs) = Inr x"
begin

lemma dec_enc_exact: "wf x \<Longrightarrow> dec (Some (enc x)) = Inr x"
  using dec_enc [of x "[]"] by simp

lemma dec_ok_iff: "(\<exists>x. dec (Some bs) = Inr x) \<longleftrightarrow> sz \<le> length bs"
  using dec_short [of bs] dec_total [of bs] by (cases "length bs < sz") auto

lemma enc_prefix_inject:
  assumes "wf x" and "wf y" and "enc x @ r = enc y @ s"
  shows "x = y \<and> r = s"
proof -
  have "Inr x = dec (Some (enc y @ s))"
    using dec_enc [OF assms(1), of r] assms(3) by simp
  then have "x = y"
    using dec_enc [OF assms(2), of s] by simp
  with assms(3) show ?thesis by simp
qed

lemma enc_inject: "wf x \<Longrightarrow> wf y \<Longrightarrow> enc x = enc y \<Longrightarrow> x = y"
  using enc_prefix_inject [of x y "[]" "[]"] by simp

end

locale canonical_codec = wire_codec +
  assumes enc_dec: "dec (Some bs) = Inr x \<Longrightarrow> wf x \<Longrightarrow> enc x = take sz bs"
begin

lemma dec_unique:
  assumes "dec (Some bs) = Inr x" and "dec (Some bs') = Inr x" and "wf x"
  shows "take sz bs = take sz bs'"
  using enc_dec [OF assms(1,3)] enc_dec [OF assms(2,3)] by simp

end

section \<open>The v1 header\<close>

definition wf_header :: "virp_header_t \<Rightarrow> bool" where
  "wf_header h \<longleftrightarrow> length (hdr_hmac h) = VIRP_HMAC_SIZE \<and> hdr_reserved h = 0"

definition header_bytes :: "virp_header_t \<Rightarrow> bytes" where
  "header_bytes h =
     [hdr_version h, hdr_type h] @ be16 (hdr_length h) @ be32 (hdr_node_id h) @
     [hdr_channel h, hdr_tier h, 0, 0] @ be32 (hdr_seq_num h) @
     be64 (hdr_timestamp_ns h) @ hdr_hmac h"

definition virp_header_init ::
    "u64 \<Rightarrow> u8 \<Rightarrow> u8 \<Rightarrow> u8 \<Rightarrow> u32 \<Rightarrow> u32 \<Rightarrow> virp_error_t + virp_header_t" where
  "virp_header_init now type channel tier node_id seq_num =
     (if tier = VIRP_TIER_BLACK then Inl VIRP_ERR_TIER_VIOLATION
      else Inr \<lparr>hdr_version = VIRP_VERSION, hdr_type = type, hdr_length = 0,
                hdr_node_id = node_id, hdr_channel = channel, hdr_tier = tier,
                hdr_reserved = 0, hdr_seq_num = seq_num, hdr_timestamp_ns = now,
                hdr_hmac = replicate VIRP_HMAC_SIZE 0\<rparr>)"

definition virp_header_serialize ::
    "virp_header_t ptr \<Rightarrow> bytes ptr \<Rightarrow> virp_error_t + bytes" where
  "virp_header_serialize hdr buf =
     (case (hdr, buf) of
        (Some h, Some b) \<Rightarrow>
          if length b < VIRP_HEADER_SIZE then Inl VIRP_ERR_BUFFER_TOO_SMALL
          else Inr (writes
            [(0, [hdr_version h]),
             (1, [hdr_type h]),
             (2, be16 (hdr_length h)),
             (4, be32 (hdr_node_id h)),
             (8, [hdr_channel h]),
             (9, [hdr_tier h]),
             (10, [0]),
             (11, [0]),
             (12, be32 (hdr_seq_num h)),
             (16, be64 (hdr_timestamp_ns h)),
             (24, hdr_hmac h)] b)
      | _ \<Rightarrow> Inl VIRP_ERR_NULL_PTR)"

definition virp_header_deserialize :: "bytes ptr \<Rightarrow> virp_error_t + virp_header_t" where
  "virp_header_deserialize buf =
     (case buf of
        None \<Rightarrow> Inl VIRP_ERR_NULL_PTR
      | Some b \<Rightarrow>
          if length b < VIRP_HEADER_SIZE then Inl VIRP_ERR_BUFFER_TOO_SMALL
          else Inr \<lparr>hdr_version = b ! 0,
                    hdr_type = b ! 1,
                    hdr_length = rd16 (drop 2 b),
                    hdr_node_id = rd32 (drop 4 b),
                    hdr_channel = b ! 8,
                    hdr_tier = b ! 9,
                    hdr_reserved = push_bit 8 (ucast (b ! 10)) OR ucast (b ! 11),
                    hdr_seq_num = rd32 (drop 12 b),
                    hdr_timestamp_ns = rd64 (drop 16 b),
                    hdr_hmac = bslice 24 VIRP_HMAC_SIZE b\<rparr>)"

definition virp_header_validate :: "virp_header_t ptr \<Rightarrow> virp_error_t" where
  "virp_header_validate hdr =
     (case hdr of
        None \<Rightarrow> VIRP_ERR_NULL_PTR
      | Some h \<Rightarrow>
          if hdr_version h \<noteq> VIRP_VERSION then VIRP_ERR_INVALID_VERSION
          else if hdr_type h \<notin> {VIRP_MSG_OBSERVATION, VIRP_MSG_HELLO, VIRP_MSG_PROPOSAL,
                                  VIRP_MSG_APPROVAL, VIRP_MSG_INTENT_ADV, VIRP_MSG_INTENT_WD,
                                  VIRP_MSG_HEARTBEAT, VIRP_MSG_TEARDOWN}
            then VIRP_ERR_INVALID_TYPE
          else if hdr_channel h \<noteq> VIRP_CHANNEL_OC \<and> hdr_channel h \<noteq> VIRP_CHANNEL_IC
            then VIRP_ERR_INVALID_CHANNEL
          else if hdr_tier h = VIRP_TIER_BLACK then VIRP_ERR_TIER_VIOLATION
          else if hdr_tier h > VIRP_TIER_RED then VIRP_ERR_INVALID_TIER
          else if hdr_reserved h \<noteq> 0 then VIRP_ERR_RESERVED_NONZERO
          else if unat (hdr_length h) < VIRP_HEADER_SIZE then VIRP_ERR_INVALID_LENGTH
          else VIRP_OK)"

definition virp_check_channel_type :: "u8 \<Rightarrow> u8 \<Rightarrow> virp_error_t" where
  "virp_check_channel_type channel type =
     (if type \<in> {VIRP_MSG_OBSERVATION, VIRP_MSG_HELLO, VIRP_MSG_HEARTBEAT}
        then (if channel \<noteq> VIRP_CHANNEL_OC then VIRP_ERR_CHANNEL_VIOLATION else VIRP_OK)
      else if type \<in> {VIRP_MSG_PROPOSAL, VIRP_MSG_APPROVAL, VIRP_MSG_INTENT_ADV,
                       VIRP_MSG_INTENT_WD}
        then (if channel \<noteq> VIRP_CHANNEL_IC then VIRP_ERR_CHANNEL_VIOLATION else VIRP_OK)
      else if type = VIRP_MSG_TEARDOWN then VIRP_OK
      else VIRP_ERR_INVALID_TYPE)"

section \<open>The v2 and v3 observation header\<close>

definition wf_obs_header :: "virp_obs_header_v2_t \<Rightarrow> bool" where
  "wf_obs_header h \<longleftrightarrow>
     length (oh_session_id h) = 16 \<and> length (oh_command_hash h) = 32 \<and> oh_reserved h = 0"

definition obs_header_bytes :: "virp_obs_header_v2_t \<Rightarrow> bytes" where
  "obs_header_bytes h =
     [oh_version h, oh_channel h, oh_tier h, 0] @ be64 (oh_node_id h) @
     be64 (oh_timestamp_ns h) @ be64 (oh_seq_num h) @ oh_session_id h @
     be64 (oh_device_id h) @ oh_command_hash h @ be32 (oh_payload_len h)"

definition virp_obs_header_v2_serialize ::
    "virp_obs_header_v2_t ptr \<Rightarrow> bytes ptr \<Rightarrow> virp_error_t + bytes" where
  "virp_obs_header_v2_serialize hdr buf =
     (case (hdr, buf) of
        (Some h, Some b) \<Rightarrow>
          if length b < VIRP_OBS_V2_HEADER_SIZE then Inl VIRP_ERR_BUFFER_TOO_SMALL
          else if oh_reserved h \<noteq> 0 then Inl VIRP_ERR_RESERVED_NONZERO
          else Inr (writes
            [(0, [oh_version h]),
             (1, [oh_channel h]),
             (2, [oh_tier h]),
             (3, [0]),
             (4, be64 (oh_node_id h)),
             (12, be64 (oh_timestamp_ns h)),
             (20, be64 (oh_seq_num h)),
             (28, oh_session_id h),
             (44, be64 (oh_device_id h)),
             (52, oh_command_hash h),
             (84, be32 (oh_payload_len h))] b)
      | _ \<Rightarrow> Inl VIRP_ERR_NULL_PTR)"

definition virp_obs_header_v2_deserialize ::
    "bytes ptr \<Rightarrow> virp_error_t + virp_obs_header_v2_t" where
  "virp_obs_header_v2_deserialize buf =
     (case buf of
        None \<Rightarrow> Inl VIRP_ERR_NULL_PTR
      | Some b \<Rightarrow>
          if length b < VIRP_OBS_V2_HEADER_SIZE then Inl VIRP_ERR_BUFFER_TOO_SMALL
          else Inr \<lparr>oh_version = b ! 0,
                    oh_channel = b ! 1,
                    oh_tier = b ! 2,
                    oh_reserved = b ! 3,
                    oh_node_id = rd64 (drop 4 b),
                    oh_timestamp_ns = rd64 (drop 12 b),
                    oh_seq_num = rd64 (drop 20 b),
                    oh_session_id = bslice 28 16 b,
                    oh_device_id = rd64 (drop 44 b),
                    oh_command_hash = bslice 52 32 b,
                    oh_payload_len = rd32 (drop 84 b)\<rparr>)"

section \<open>Layout and round trip of the two headers\<close>

lemma length_header_bytes [len_simps]: "wf_header h \<Longrightarrow> length (header_bytes h) = 56"
  by (simp add: header_bytes_def wf_header_def)

lemma length_obs_header_bytes [len_simps]:
  "wf_obs_header h \<Longrightarrow> length (obs_header_bytes h) = 88"
  by (simp add: obs_header_bytes_def wf_obs_header_def)

lemma virp_header_serialize_layout [wire_simps]:
  "wf_header h \<Longrightarrow> 56 \<le> length b \<Longrightarrow>
   virp_header_serialize (Some h) (Some b) = Inr (header_bytes h @ drop 56 b)"
  by (simp add: virp_header_serialize_def writes_contiguous header_bytes_def wf_header_def)

lemma virp_obs_header_v2_serialize_layout [wire_simps]:
  "wf_obs_header h \<Longrightarrow> 88 \<le> length b \<Longrightarrow>
   virp_obs_header_v2_serialize (Some h) (Some b) = Inr (obs_header_bytes h @ drop 88 b)"
  by (simp add: virp_obs_header_v2_serialize_def writes_contiguous obs_header_bytes_def
      wf_obs_header_def)

lemma header_roundtrip:
  "wf_header h \<Longrightarrow> virp_header_deserialize (Some (header_bytes h @ r)) = Inr h"
  by (simp add: virp_header_deserialize_def length_header_bytes wf_header_def)
     (simp add: header_bytes_def bslice_def nth_append)

lemma obs_header_roundtrip:
  "wf_obs_header h \<Longrightarrow> virp_obs_header_v2_deserialize (Some (obs_header_bytes h @ r)) = Inr h"
  by (simp add: virp_obs_header_v2_deserialize_def length_obs_header_bytes wf_obs_header_def)
     (simp add: obs_header_bytes_def bslice_def nth_append)

lemma rd16_zero:
  assumes "rd16 [a, b] = 0"
  shows "a = 0 \<and> b = 0"
  using be16_rd16 [of "[a, b]"] assms by (simp add: be16_def del: rd16.simps)

lemma header_bytes_deserialize:
  assumes "virp_header_deserialize (Some bs) = Inr h" and "hdr_reserved h = 0"
  shows "header_bytes h = take 56 bs"
proof -
  have len: "56 \<le> length bs"
    using assms(1) by (auto simp: virp_header_deserialize_def split: if_splits)
  have h: "h = \<lparr>hdr_version = bs ! 0, hdr_type = bs ! 1, hdr_length = rd16 (drop 2 bs),
      hdr_node_id = rd32 (drop 4 bs), hdr_channel = bs ! 8, hdr_tier = bs ! 9,
      hdr_reserved = rd16 [bs ! 10, bs ! 11],
      hdr_seq_num = rd32 (drop 12 bs), hdr_timestamp_ns = rd64 (drop 16 bs),
      hdr_hmac = bslice 24 32 bs\<rparr>"
    using assms(1) len by (auto simp: virp_header_deserialize_def)
  have r: "bs ! 10 = 0" "bs ! 11 = 0"
    using rd16_zero [of "bs ! 10" "bs ! 11"] assms(2) h by simp_all
  have "take 56 bs = take (2+2+4+4+4+8+32) bs" by simp
  also have "\<dots> = header_bytes h"
    unfolding take_add
    using len r by (simp add: h header_bytes_def be16_rd16 be32_rd32 be64_rd64 bslice_def
        take_two take_four take_four_drop)
  finally show ?thesis by simp
qed

lemma obs_header_bytes_deserialize:
  assumes "virp_obs_header_v2_deserialize (Some bs) = Inr h" and "oh_reserved h = 0"
  shows "obs_header_bytes h = take 88 bs"
proof -
  have len: "88 \<le> length bs"
    using assms(1) by (auto simp: virp_obs_header_v2_deserialize_def split: if_splits)
  have h: "h = \<lparr>oh_version = bs ! 0, oh_channel = bs ! 1, oh_tier = bs ! 2,
      oh_reserved = bs ! 3, oh_node_id = rd64 (drop 4 bs), oh_timestamp_ns = rd64 (drop 12 bs),
      oh_seq_num = rd64 (drop 20 bs), oh_session_id = bslice 28 16 bs,
      oh_device_id = rd64 (drop 44 bs), oh_command_hash = bslice 52 32 bs,
      oh_payload_len = rd32 (drop 84 bs)\<rparr>"
    using assms(1) len by (auto simp: virp_obs_header_v2_deserialize_def)
  have "take 88 bs = take (4+8+8+8+16+8+32+4) bs" by simp
  also have "\<dots> = obs_header_bytes h"
    unfolding take_add
    using len assms(2) by (simp add: h obs_header_bytes_def be32_rd32 be64_rd64 bslice_def
        take_two take_four take_four_drop)
  finally show ?thesis by simp
qed

lemma virp_header_deserialize_short:
  "length bs < 56 \<Longrightarrow> virp_header_deserialize (Some bs) = Inl VIRP_ERR_BUFFER_TOO_SMALL"
  by (simp add: virp_header_deserialize_def)

lemma virp_obs_header_v2_deserialize_short:
  "length bs < 88 \<Longrightarrow>
   virp_obs_header_v2_deserialize (Some bs) = Inl VIRP_ERR_BUFFER_TOO_SMALL"
  by (simp add: virp_obs_header_v2_deserialize_def)

interpretation hdr1: canonical_codec wf_header header_bytes virp_header_deserialize 56
proof unfold_locales
  show "virp_header_deserialize None = Inl VIRP_ERR_NULL_PTR"
    by (simp add: virp_header_deserialize_def)
  show "56 \<le> length bs \<Longrightarrow> \<exists>x. virp_header_deserialize (Some bs) = Inr x" for bs
    by (simp add: virp_header_deserialize_def)
qed (simp_all add: length_header_bytes header_roundtrip header_bytes_deserialize
      virp_header_deserialize_short wf_header_def)

interpretation hdr2: canonical_codec wf_obs_header obs_header_bytes virp_obs_header_v2_deserialize 88
proof unfold_locales
  show "virp_obs_header_v2_deserialize None = Inl VIRP_ERR_NULL_PTR"
    by (simp add: virp_obs_header_v2_deserialize_def)
  show "88 \<le> length bs \<Longrightarrow> \<exists>x. virp_obs_header_v2_deserialize (Some bs) = Inr x" for bs
    by (simp add: virp_obs_header_v2_deserialize_def)
qed (simp_all add: length_obs_header_bytes obs_header_roundtrip obs_header_bytes_deserialize
      virp_obs_header_v2_deserialize_short wf_obs_header_def)

end
