(* ===== verification/Virp_Payload.thy ===== *)
theory Virp_Payload
  imports Virp_Wire
begin

text \<open>
  The payloads of the v1 messages and the TLV extension field
  (\<open>src/virp_message.c\<close>). A builder's payload is the octet string it hands to
  \<open>build_and_sign\<close>; a parser gets the octets after the header. Parsers that hand
  out pointers into the payload return the octets those pointers span.
\<close>

section \<open>Observations\<close>

definition observation_payload :: "u8 \<Rightarrow> u8 \<Rightarrow> bytes \<Rightarrow> bytes" where
  "observation_payload otype oscope data =
     [otype, oscope] @ be16 (of_nat (length data)) @ data"

text \<open>\<open>virp_parse_observation\<close>: the octets of \<open>*data\<close> are the \<open>obs_length\<close> octets after
  the four-octet observation header.\<close>

definition virp_parse_observation ::
    "bytes ptr \<Rightarrow> virp_error_t + (virp_observation_t \<times> bytes)" where
  "virp_parse_observation payload =
     (case payload of
        None \<Rightarrow> Inl VIRP_ERR_NULL_PTR
      | Some p \<Rightarrow>
          if length p < 4 then Inl VIRP_ERR_BUFFER_TOO_SMALL
          else
            let obs = \<lparr>obs_type = p ! 0, obs_scope = p ! 1, obs_length = rd16 (drop 2 p)\<rparr>;
                n = unat (obs_length obs)
            in if n > length p - 4 then Inl VIRP_ERR_INVALID_LENGTH
               else Inr (obs, bslice 4 n p))"

section \<open>Observation references\<close>

definition obs_ref_bytes :: "virp_obs_ref_t \<Rightarrow> bytes" where
  "obs_ref_bytes r = be32 (ref_node_id r) @ be32 (ref_seq_num r)"

definition obs_refs_bytes :: "virp_obs_ref_t list \<Rightarrow> bytes" where
  "obs_refs_bytes rs = concat (map obs_ref_bytes rs)"

text \<open>Reading \<open>n\<close> references at a pointer into the payload, in network order.\<close>

fun read_obs_refs :: "nat \<Rightarrow> bytes \<Rightarrow> virp_obs_ref_t list" where
  "read_obs_refs 0 bs = []"
| "read_obs_refs (Suc n) bs =
     \<lparr>ref_node_id = rd32 bs, ref_seq_num = rd32 (drop 4 bs)\<rparr> # read_obs_refs n (drop 8 bs)"

lemma length_obs_ref_bytes [simp, len_simps]: "length (obs_ref_bytes r) = 8"
  by (simp add: obs_ref_bytes_def)

lemma length_obs_refs_bytes [simp, len_simps]: "length (obs_refs_bytes rs) = 8 * length rs"
  by (induction rs) (simp_all add: obs_refs_bytes_def)

lemma read_obs_refs_bytes [simp, wire_simps]:
  "read_obs_refs (length rs) (obs_refs_bytes rs @ rest) = rs"
  by (induction rs) (simp_all add: obs_refs_bytes_def obs_ref_bytes_def)

section \<open>Proposals\<close>

definition proposal_payload ::
    "u32 \<Rightarrow> u8 \<Rightarrow> u16 \<Rightarrow> virp_obs_ref_t list \<Rightarrow> bytes \<Rightarrow> bytes" where
  "proposal_payload proposal_id ptype blast refs data =
     be32 proposal_id @ [ptype, VIRP_PSTATE_PROPOSED] @ be16 blast @
     be32 (of_nat (length refs)) @ obs_refs_bytes refs @ data"

text \<open>\<open>virp_parse_proposal\<close> hands out a pointer to the references (the octets from
  offset 12) and, when anything follows them, a pointer to the proposal data with
  its length truncated to 16 bits.\<close>

definition virp_parse_proposal ::
    "bytes ptr \<Rightarrow> virp_error_t + (virp_proposal_t \<times> virp_obs_ref_t list \<times> bytes ptr \<times> u16)" where
  "virp_parse_proposal payload =
     (case payload of
        None \<Rightarrow> Inl VIRP_ERR_NULL_PTR
      | Some p \<Rightarrow>
          if length p < 12 then Inl VIRP_ERR_BUFFER_TOO_SMALL
          else
            let prop = \<lparr>prop_id = rd32 p, prop_type = p ! 4, prop_state = p ! 5,
                        prop_blast_radius = rd16 (drop 6 p),
                        prop_obs_ref_count = rd32 (drop 8 p)\<rparr>;
                n = unat (prop_obs_ref_count prop)
            in if n = 0 then Inl VIRP_ERR_NO_EVIDENCE
               else if n > VIRP_MAX_OBS_REFS then Inl VIRP_ERR_MESSAGE_TOO_LARGE
               else if n * 8 > length p - 12 then Inl VIRP_ERR_INVALID_LENGTH
               else
                 let data_offset = 12 + n * 8
                 in Inr (prop, read_obs_refs n (drop 12 p),
                         if data_offset < length p then Some (drop data_offset p) else None,
                         if data_offset < length p then of_nat (length p - data_offset) else 0))"

lemma unat_of_nat_u16: "n < 65536 \<Longrightarrow> unat (of_nat n :: u16) = n"
  by (simp add: unat_of_nat)

lemma unat_of_nat_u32: "n < 4294967296 \<Longrightarrow> unat (of_nat n :: u32) = n"
  by (simp add: unat_of_nat)

lemma parse_observation_payload:
  "length d < 65536 \<Longrightarrow>
   virp_parse_observation (Some (observation_payload t s d @ trailer)) =
     Inr (\<lparr>obs_type = t, obs_scope = s, obs_length = of_nat (length d)\<rparr>, d)"
  by (simp add: virp_parse_observation_def observation_payload_def Let_def unat_of_nat_u16 bslice_def)

lemma proposal_payload_data:
  "drop (12 + length refs * 8) (proposal_payload pid t blast refs d) = d"
proof -
  let ?pre = "be32 pid @ [t, VIRP_PSTATE_PROPOSED] @ be16 blast @
              be32 (of_nat (length refs)) @ obs_refs_bytes refs"
  have "proposal_payload pid t blast refs d = ?pre @ d"
    by (simp add: proposal_payload_def)
  moreover have "length ?pre = 12 + length refs * 8"
    by simp
  ultimately show ?thesis
    by (metis append_eq_conv_conj)
qed

lemma parse_proposal_payload:
  assumes "0 < length refs" and "length refs \<le> 64"
  shows "virp_parse_proposal (Some (proposal_payload pid t blast refs d)) =
     Inr (\<lparr>prop_id = pid, prop_type = t, prop_state = VIRP_PSTATE_PROPOSED,
           prop_blast_radius = blast, prop_obs_ref_count = of_nat (length refs)\<rparr>,
          refs, if d = [] then None else Some d, of_nat (length d))"
proof -
  let ?p = "proposal_payload pid t blast refs d"
  have len: "length ?p = 12 + length refs * 8 + length d"
    by (simp add: proposal_payload_def)
  have d12: "drop 12 ?p = obs_refs_bytes refs @ d"
    by (simp add: proposal_payload_def)
  have fields: "rd32 ?p = pid" "?p ! 4 = t" "?p ! 5 = 1" "rd16 (drop 6 ?p) = blast"
      "rd32 (drop 8 ?p) = of_nat (length refs)"
    by (simp_all add: proposal_payload_def nth_append)
  show ?thesis
    using assms
    by (simp add: virp_parse_proposal_def len d12 fields Let_def unat_of_nat_u32
        proposal_payload_data)
qed

section \<open>Approvals, heartbeats, hellos\<close>

definition approval_payload :: "virp_approval_t \<Rightarrow> bytes" where
  "approval_payload a =
     writes [(0, be32 (ap_proposal_id a)),
             (4, be32 (ap_approver_node_id a)),
             (8, [ap_approval_type a]),
             (9, [ap_approver_class a]),
             (10, [0]),
             (11, [0])] (replicate 12 0)"

definition wf_approval :: "virp_approval_t \<Rightarrow> bool" where
  "wf_approval a \<longleftrightarrow> ap_reserved a = 0"

definition virp_parse_approval :: "bytes ptr \<Rightarrow> virp_error_t + virp_approval_t" where
  "virp_parse_approval payload =
     (case payload of
        None \<Rightarrow> Inl VIRP_ERR_NULL_PTR
      | Some p \<Rightarrow>
          if length p < 12 then Inl VIRP_ERR_BUFFER_TOO_SMALL
          else Inr \<lparr>ap_proposal_id = rd32 p,
                    ap_approver_node_id = rd32 (drop 4 p),
                    ap_approval_type = p ! 8,
                    ap_approver_class = p ! 9,
                    ap_reserved = 0\<rparr>)"

definition heartbeat_payload :: "virp_heartbeat_t \<Rightarrow> bytes" where
  "heartbeat_payload h =
     writes [(0, be32 (hb_uptime_seconds h)),
             (4, [hb_onode_ok h]),
             (5, [hb_rnode_ok h]),
             (6, be16 (hb_active_observations h)),
             (8, be32 (hb_active_proposals h))] (replicate 12 0)"

definition virp_parse_heartbeat :: "bytes ptr \<Rightarrow> virp_error_t + virp_heartbeat_t" where
  "virp_parse_heartbeat payload =
     (case payload of
        None \<Rightarrow> Inl VIRP_ERR_NULL_PTR
      | Some p \<Rightarrow>
          if length p < 12 then Inl VIRP_ERR_BUFFER_TOO_SMALL
          else Inr \<lparr>hb_uptime_seconds = rd32 p,
                    hb_onode_ok = p ! 4,
                    hb_rnode_ok = p ! 5,
                    hb_active_observations = rd16 (drop 6 p),
                    hb_active_proposals = rd32 (drop 8 p)\<rparr>)"

definition wf_hello :: "virp_hello_t \<Rightarrow> bool" where
  "wf_hello h \<longleftrightarrow> length (hello_okey_fingerprint h) = 32 \<and> length (hello_rkey_fingerprint h) = 32"

definition hello_payload :: "virp_hello_t \<Rightarrow> bytes" where
  "hello_payload h =
     be32 (hello_magic h) @ [hello_version h, hello_node_type h, hello_max_tier h, hello_reserved h] @
     be32 (hello_node_id h) @ hello_okey_fingerprint h @ hello_rkey_fingerprint h"

definition virp_parse_hello :: "bytes ptr \<Rightarrow> virp_error_t + virp_hello_t" where
  "virp_parse_hello payload =
     (case payload of
        None \<Rightarrow> Inl VIRP_ERR_NULL_PTR
      | Some p \<Rightarrow>
          if length p < 76 then Inl VIRP_ERR_BUFFER_TOO_SMALL
          else Inr \<lparr>hello_magic = rd32 p,
                    hello_version = p ! 4,
                    hello_node_type = p ! 5,
                    hello_max_tier = p ! 6,
                    hello_reserved = p ! 7,
                    hello_node_id = rd32 (drop 8 p),
                    hello_okey_fingerprint = bslice 12 VIRP_HMAC_SIZE p,
                    hello_rkey_fingerprint = bslice 44 VIRP_HMAC_SIZE p\<rparr>)"

lemma approval_payload_layout:
  "approval_payload a =
     be32 (ap_proposal_id a) @ be32 (ap_approver_node_id a) @
     [ap_approval_type a, ap_approver_class a, 0, 0]"
  by (simp add: approval_payload_def writes_contiguous)

lemma heartbeat_payload_layout:
  "heartbeat_payload h =
     be32 (hb_uptime_seconds h) @ [hb_onode_ok h, hb_rnode_ok h] @
     be16 (hb_active_observations h) @ be32 (hb_active_proposals h)"
  by (simp add: heartbeat_payload_def writes_contiguous)

interpretation approval: wire_codec wf_approval approval_payload virp_parse_approval 12
proof unfold_locales
  show "12 \<le> length bs \<Longrightarrow> \<exists>x. virp_parse_approval (Some bs) = Inr x" for bs
    by (simp add: virp_parse_approval_def)
qed (simp_all add: approval_payload_layout virp_parse_approval_def wf_approval_def nth_append)

lemma heartbeat_payload_parse:
  assumes "virp_parse_heartbeat (Some bs) = Inr h"
  shows "heartbeat_payload h = take 12 bs"
proof -
  have len: "12 \<le> length bs"
    using assms by (auto simp: virp_parse_heartbeat_def split: if_splits)
  have h: "h = \<lparr>hb_uptime_seconds = rd32 bs, hb_onode_ok = bs ! 4, hb_rnode_ok = bs ! 5,
                hb_active_observations = rd16 (drop 6 bs), hb_active_proposals = rd32 (drop 8 bs)\<rparr>"
    using assms len by (simp add: virp_parse_heartbeat_def)
  have "take 12 bs = take (4 + 2 + 2 + 4) bs" by simp
  also have "\<dots> = heartbeat_payload h"
    unfolding take_add
    using len by (simp add: h heartbeat_payload_layout be16_rd16 be32_rd32 take_two_drop)
  finally show ?thesis by simp
qed

interpretation heartbeat: canonical_codec "\<lambda>_. True" heartbeat_payload virp_parse_heartbeat 12
proof unfold_locales
  show "12 \<le> length bs \<Longrightarrow> \<exists>x. virp_parse_heartbeat (Some bs) = Inr x" for bs
    by (simp add: virp_parse_heartbeat_def)
  show "virp_parse_heartbeat (Some (heartbeat_payload x @ rest)) = Inr x" for x rest
    by (simp add: virp_parse_heartbeat_def heartbeat_payload_layout nth_append)
qed (simp_all add: heartbeat_payload_parse, simp_all add: heartbeat_payload_layout virp_parse_heartbeat_def)

lemma hello_payload_parse:
  assumes "virp_parse_hello (Some bs) = Inr h"
  shows "hello_payload h = take 76 bs"
proof -
  have len: "76 \<le> length bs"
    using assms by (auto simp: virp_parse_hello_def split: if_splits)
  have h: "h = \<lparr>hello_magic = rd32 bs, hello_version = bs ! 4, hello_node_type = bs ! 5,
                hello_max_tier = bs ! 6, hello_reserved = bs ! 7, hello_node_id = rd32 (drop 8 bs),
                hello_okey_fingerprint = bslice 12 32 bs, hello_rkey_fingerprint = bslice 44 32 bs\<rparr>"
    using assms len by (simp add: virp_parse_hello_def)
  have "take 76 bs = take (4 + 4 + 4 + 32 + 32) bs" by simp
  also have "\<dots> = hello_payload h"
    unfolding take_add
    using len by (simp add: h hello_payload_def be32_rd32 take_four_drop bslice_def)
  finally show ?thesis by simp
qed

interpretation hello: canonical_codec wf_hello hello_payload virp_parse_hello 76
proof unfold_locales
  show "76 \<le> length bs \<Longrightarrow> \<exists>x. virp_parse_hello (Some bs) = Inr x" for bs
    by (simp add: virp_parse_hello_def)
  show "wf_hello x \<Longrightarrow> virp_parse_hello (Some (hello_payload x @ rest)) = Inr x" for x rest
    by (simp add: virp_parse_hello_def hello_payload_def wf_hello_def nth_append bslice_def)
qed (simp_all add: hello_payload_parse, simp_all add: hello_payload_def wf_hello_def virp_parse_hello_def)

section \<open>TLV extension fields\<close>

text \<open>
  Offsets are \<open>size_t\<close>: the sums wrap at \<open>2 ^ 64\<close>. The result of a call is \<open>None\<close> when
  it writes or reads outside the buffer (undefined behaviour), which the bound
  check rules out only while the sum does not wrap. The C functions return the
  next offset as an int; the model returns it as computed in \<open>size_t\<close>.
\<close>

definition szt :: "nat \<Rightarrow> nat" where
  "szt n = n mod 2 ^ 64"

definition virp_tlv_append ::
    "bytes \<Rightarrow> nat \<Rightarrow> u16 \<Rightarrow> bytes \<Rightarrow> (virp_error_t + (bytes \<times> nat)) option" where
  "virp_tlv_append buf offset type val =
     (let vl = length val; needed = szt (offset + 4 + vl)
      in if needed > length buf then Some (Inl VIRP_ERR_BUFFER_TOO_SMALL)
         else if vl > VIRP_TLV_MAX_VALUE_SIZE then Some (Inl VIRP_ERR_MESSAGE_TOO_LARGE)
         else if offset + 4 + vl > length buf then None
         else Some (Inr (writes [(offset, be16 type), (offset + 2, be16 (of_nat vl)),
                                 (offset + 4, val)] buf,
                         needed)))"

definition virp_tlv_parse ::
    "bytes \<Rightarrow> nat \<Rightarrow> (virp_error_t + (u16 \<times> bytes \<times> nat)) option" where
  "virp_tlv_parse buf offset =
     (if szt (offset + 4) > length buf then Some (Inl VIRP_ERR_BUFFER_TOO_SMALL)
      else if offset + 4 > length buf then None
      else
        let type = rd16 (drop offset buf); len = unat (rd16 (drop (offset + 2) buf));
            fin = szt (offset + 4 + len)
        in if fin > length buf then Some (Inl VIRP_ERR_BUFFER_TOO_SMALL)
           else if offset + 4 + len > length buf then None
           else Some (Inr (type, bslice (offset + 4) len buf, fin)))"

lemma writes_middle:
  assumes "offset + length a + length b + length c \<le> length buf"
  shows "writes [(offset, a), (offset + length a, b), (offset + length a + length b, c)] buf =
         take offset buf @ a @ b @ c @ drop (offset + length a + length b + length c) buf"
  using assms by (simp add: writes_def poke_def ac_simps)

lemma virp_tlv_append_Some:
  assumes "virp_tlv_append buf offset type val = Some (Inr (buf', nxt))"
  shows "offset + 4 + length val \<le> length buf" and "length val \<le> 4096"
    and "nxt = szt (offset + 4 + length val)"
    and "buf' = take offset buf @ be16 type @ be16 (of_nat (length val)) @ val @
                drop (offset + 4 + length val) buf"
proof -
  show len: "offset + 4 + length val \<le> length buf" and "length val \<le> 4096"
    and "nxt = szt (offset + 4 + length val)"
    using assms by (auto simp: virp_tlv_append_def Let_def split: if_splits)
  have "buf' = writes [(offset, be16 type), (offset + 2, be16 (of_nat (length val))),
                       (offset + 4, val)] buf"
    using assms by (auto simp: virp_tlv_append_def Let_def split: if_splits)
  then show "buf' = take offset buf @ be16 type @ be16 (of_nat (length val)) @ val @
                drop (offset + 4 + length val) buf"
    using writes_middle [of offset "be16 type" "be16 (of_nat (length val))" val buf] len
    by (simp add: eval_nat_numeral)
qed

lemma virp_tlv_roundtrip_lemma:
  assumes "virp_tlv_append buf offset type val = Some (Inr (buf', nxt))"
    and "length buf < 2 ^ 64"
  shows "virp_tlv_parse buf' offset = Some (Inr (type, val, nxt))"
    and "nxt = offset + 4 + length val" and "length buf' = length buf"
    and "take offset buf' = take offset buf" and "drop nxt buf' = drop nxt buf"
proof -
  note a = virp_tlv_append_Some [OF assms(1)]
  have v: "unat (of_nat (length val) :: u16) = length val"
    using a(2) by (simp add: unat_of_nat)
  show nxt: "nxt = offset + 4 + length val"
    using a(1,3) assms(2) by (simp add: szt_def)
  show len: "length buf' = length buf"
    using a(1,4) by simp
  show "take offset buf' = take offset buf" "drop nxt buf' = drop nxt buf"
    using a(1,4) nxt by simp_all
  have s: "szt (offset + 4) = offset + 4" "szt (offset + 4 + length val) = offset + 4 + length val"
    using a(1) assms(2) by (simp_all add: szt_def)
  have d: "drop offset buf' = be16 type @ be16 (of_nat (length val)) @ val @
             drop (offset + 4 + length val) buf"
    using a(1,4) by simp
  have d2: "drop (offset + 2) buf' = drop 2 (drop offset buf')"
           "drop (offset + 4) buf' = drop 4 (drop offset buf')"
    by (simp_all add: add.commute)
  show "virp_tlv_parse buf' offset = Some (Inr (type, val, nxt))"
    using a(1) len by (simp add: virp_tlv_parse_def s Let_def bslice_def d2 d v nxt
        del: add_2_eq_Suc add_2_eq_Suc')
qed

end
