(* ===== verification/Virp_Crypto.thy ===== *)
theory Virp_Crypto
  imports Virp_Payload
begin

text \<open>
  Keys and the v1 signature (\<open>src/virp_crypto.c\<close>). The primitives of OpenSSL and
  libsodium are not part of the source; they are the fields of \<open>crypto_lib\<close>, an
  argument of every definition that calls them, and \<open>None\<close> is the library's
  failure return. What the code relies on is stated where it is used:
  \<open>hmac_len\<close> (a MAC has 32 octets), \<open>sha_len\<close>, \<open>ed_len\<close>, \<open>ed_correct\<close>.
\<close>

record crypto_lib =
  HMAC :: "bytes \<Rightarrow> bytes \<Rightarrow> bytes option"
  SHA256 :: "bytes \<Rightarrow> bytes"
  EVP_SHA256 :: "bytes \<Rightarrow> bytes option"
  crypto_sign_detached :: "bytes \<Rightarrow> bytes \<Rightarrow> bytes option"
  crypto_sign_verify_detached :: "bytes \<Rightarrow> bytes \<Rightarrow> bytes \<Rightarrow> bool"
  crypto_sign_seed_keypair :: "bytes \<Rightarrow> (bytes \<times> bytes) option"

definition hmac_len :: "crypto_lib \<Rightarrow> bool" where
  "hmac_len C \<longleftrightarrow> (\<forall>k d t. HMAC C k d = Some t \<longrightarrow> length t = 32)"

definition sha_len :: "crypto_lib \<Rightarrow> bool" where
  "sha_len C \<longleftrightarrow> (\<forall>d. length (SHA256 C d) = 32)"

definition ed_len :: "crypto_lib \<Rightarrow> bool" where
  "ed_len C \<longleftrightarrow> (\<forall>sk d s. crypto_sign_detached C sk d = Some s \<longrightarrow> length s = 64)"

text \<open>A detached signature verifies under the public half of its own key pair.\<close>

definition ed_correct :: "crypto_lib \<Rightarrow> bytes \<Rightarrow> bytes \<Rightarrow> bool" where
  "ed_correct C pk sk \<longleftrightarrow>
     (\<forall>d s. crypto_sign_detached C sk d = Some s \<longrightarrow> crypto_sign_verify_detached C pk d s)"

section \<open>Constant-time comparison\<close>

definition virp_consttime_eq :: "bytes \<Rightarrow> bytes \<Rightarrow> nat \<Rightarrow> bool" where
  "virp_consttime_eq a b n \<longleftrightarrow> fold (\<lambda>i diff. diff OR (a ! i XOR b ! i)) [0..<n] (0 :: byte) = 0"

lemma word_or_zero: "(x OR y = (0 :: 'a::len word)) \<longleftrightarrow> x = 0 \<and> y = 0"
  by (auto simp: bit_eq_iff bit_simps)

lemma word_xor_zero: "(x XOR y = (0 :: 'a::len word)) \<longleftrightarrow> x = y"
  by (auto simp: bit_eq_iff bit_simps)

lemma consttime_fold:
  "fold (\<lambda>i diff. diff OR (a ! i XOR b ! i)) is (d :: byte) = 0 \<longleftrightarrow>
   d = 0 \<and> (\<forall>i \<in> set is. a ! i = b ! i)"
  by (induction "is" arbitrary: d) (auto simp: word_or_zero word_xor_zero)

text \<open>The branch-free loop decides equality of the two ranges.\<close>

lemma virp_consttime_eq_iff [simp]:
  assumes "n \<le> length a" and "n \<le> length b"
  shows "virp_consttime_eq a b n \<longleftrightarrow> take n a = take n b"
  using assms by (auto simp: virp_consttime_eq_def consttime_fold list_eq_iff_nth_eq)

section \<open>Keys\<close>

type_synonym virp_key_type_t = nat

definition VIRP_KEY_TYPE_OKEY :: virp_key_type_t where [simp]: "VIRP_KEY_TYPE_OKEY = 1"
definition VIRP_KEY_TYPE_RKEY :: virp_key_type_t where [simp]: "VIRP_KEY_TYPE_RKEY = 2"
definition VIRP_KEY_TYPE_CHAIN :: virp_key_type_t where [simp]: "VIRP_KEY_TYPE_CHAIN = 3"

record virp_signing_key_t =
  sk_key :: bytes
  sk_loaded :: bool
  sk_type :: virp_key_type_t
  sk_fingerprint :: bytes
  sk_locked :: bool

definition compute_fingerprint :: "crypto_lib \<Rightarrow> bytes \<Rightarrow> bytes" where
  "compute_fingerprint C key = SHA256 C key"

text \<open>\<open>mlock_ok\<close> is the result of \<open>sodium_mlock\<close>, which is not fatal.\<close>

definition virp_key_init ::
    "crypto_lib \<Rightarrow> bool \<Rightarrow> virp_key_type_t \<Rightarrow> bytes ptr \<Rightarrow> virp_error_t + virp_signing_key_t" where
  "virp_key_init C mlock_ok type key_bytes =
     (case key_bytes of
        None \<Rightarrow> Inl VIRP_ERR_NULL_PTR
      | Some k \<Rightarrow> Inr \<lparr>sk_key = k, sk_loaded = True, sk_type = type,
                       sk_fingerprint = compute_fingerprint C k, sk_locked = mlock_ok\<rparr>)"

definition virp_key_owner_ok :: "nat \<Rightarrow> nat \<Rightarrow> bool" where
  "virp_key_owner_ok file_owner euid \<longleftrightarrow> file_owner = euid \<or> euid = 0"

text \<open>What \<open>open(O_NOFOLLOW)\<close>, \<open>fstat\<close> and the read loop see of a key file. \<open>kf_stat_ok\<close>
  is the result of \<open>fstat\<close>, \<open>kf_data\<close> the octets the descriptor delivers before end of
  file or \<open>None\<close> when \<open>read\<close> fails.\<close>

record key_file =
  kf_symlink :: bool
  kf_stat_ok :: bool
  kf_regular :: bool
  kf_mode :: u32
  kf_uid :: nat
  kf_size :: nat
  kf_data :: "bytes option"

definition read_exact :: "key_file \<Rightarrow> nat \<Rightarrow> bytes option" where
  "read_exact f want = map_option (take want) (kf_data f)"

definition virp_keyfile_read ::
    "(string \<Rightarrow> key_file option) \<Rightarrow> nat \<Rightarrow> string \<Rightarrow> bool \<Rightarrow> nat \<Rightarrow> virp_error_t + bytes" where
  "virp_keyfile_read fs euid path secret want =
     (if want = 0 then Inl VIRP_ERR_NULL_PTR
      else case fs path of
        None \<Rightarrow> Inl VIRP_ERR_KEY_NOT_LOADED
      | Some f \<Rightarrow>
          if kf_symlink f then Inl VIRP_ERR_KEY_NOT_LOADED
          else if \<not> kf_stat_ok f then Inl VIRP_ERR_KEY_NOT_LOADED
          else if \<not> kf_regular f then Inl VIRP_ERR_KEY_NOT_LOADED
          else if secret \<and> kf_mode f AND 0x3F \<noteq> 0 then Inl VIRP_ERR_KEY_NOT_LOADED
          else if secret \<and> \<not> virp_key_owner_ok (kf_uid f) euid then Inl VIRP_ERR_KEY_NOT_LOADED
          else if kf_size f \<noteq> want then Inl VIRP_ERR_INVALID_LENGTH
          else (case read_exact f want of
                  None \<Rightarrow> Inl VIRP_ERR_KEY_NOT_LOADED
                | Some bs \<Rightarrow> if length bs \<noteq> want then Inl VIRP_ERR_INVALID_LENGTH else Inr bs))"

definition virp_key_load_file ::
    "crypto_lib \<Rightarrow> (string \<Rightarrow> key_file option) \<Rightarrow> nat \<Rightarrow> bool \<Rightarrow> virp_key_type_t \<Rightarrow> string ptr
     \<Rightarrow> virp_error_t + virp_signing_key_t" where
  "virp_key_load_file C fs euid mlock_ok type path =
     (case path of
        None \<Rightarrow> Inl VIRP_ERR_NULL_PTR
      | Some p \<Rightarrow>
          (case virp_keyfile_read fs euid p True VIRP_KEY_SIZE of
             Inl _ \<Rightarrow> Inl VIRP_ERR_KEY_NOT_LOADED
           | Inr buf \<Rightarrow> virp_key_init C mlock_ok type (Some buf)))"

text \<open>\<open>rnd\<close> is what \<open>randombytes_buf\<close> delivers, \<open>None\<close> a failing \<open>sodium_init\<close>.\<close>

definition virp_key_generate ::
    "crypto_lib \<Rightarrow> bytes option \<Rightarrow> bool \<Rightarrow> virp_key_type_t \<Rightarrow> virp_error_t + virp_signing_key_t" where
  "virp_key_generate C rnd mlock_ok type =
     (case rnd of
        None \<Rightarrow> Inl VIRP_ERR_KEY_NOT_LOADED
      | Some buf \<Rightarrow> virp_key_init C mlock_ok type (Some buf))"

definition virp_key_destroy :: "virp_signing_key_t \<Rightarrow> virp_signing_key_t" where
  "virp_key_destroy sk =
     \<lparr>sk_key = replicate VIRP_KEY_SIZE 0, sk_loaded = False, sk_type = 0,
      sk_fingerprint = replicate VIRP_HMAC_SIZE 0, sk_locked = False\<rparr>"

section \<open>HMAC and the channel-key binding\<close>

definition virp_hmac_sha256 :: "crypto_lib \<Rightarrow> bytes \<Rightarrow> bytes \<Rightarrow> virp_error_t + bytes" where
  "virp_hmac_sha256 C key data =
     (case HMAC C key data of
        None \<Rightarrow> Inl VIRP_ERR_CRYPTO
      | Some t \<Rightarrow> if length t \<noteq> VIRP_HMAC_SIZE then Inl VIRP_ERR_CRYPTO else Inr t)"

definition check_channel_key_binding :: "u8 \<Rightarrow> virp_key_type_t \<Rightarrow> virp_error_t" where
  "check_channel_key_binding channel key_type =
     (if channel = VIRP_CHANNEL_OC \<and> key_type \<noteq> VIRP_KEY_TYPE_OKEY then VIRP_ERR_CHANNEL_VIOLATION
      else if channel = VIRP_CHANNEL_IC \<and> key_type \<noteq> VIRP_KEY_TYPE_RKEY
        then VIRP_ERR_CHANNEL_VIOLATION
      else VIRP_OK)"

section \<open>v1 signatures\<close>

text \<open>The octets the v1 MAC covers: the header up to the HMAC field and everything
  after it.\<close>

definition sign_input :: "bytes \<Rightarrow> bytes" where
  "sign_input msg = take 24 msg @ drop 56 msg"

definition virp_sign ::
    "crypto_lib \<Rightarrow> bytes ptr \<Rightarrow> virp_signing_key_t ptr \<Rightarrow> virp_error_t + bytes" where
  "virp_sign C msg sk =
     (case (msg, sk) of
        (Some m, Some k) \<Rightarrow>
          if \<not> sk_loaded k then Inl VIRP_ERR_KEY_NOT_LOADED
          else if length m < VIRP_HEADER_SIZE then Inl VIRP_ERR_BUFFER_TOO_SMALL
          else
            let err = check_channel_key_binding (m ! 8) (sk_type k)
            in if err \<noteq> VIRP_OK then Inl err
               else if length (sign_input m) > VIRP_MAX_MESSAGE_SIZE
                 then Inl VIRP_ERR_MESSAGE_TOO_LARGE
               else (case virp_hmac_sha256 C (sk_key k) (sign_input m) of
                       Inl e \<Rightarrow> Inl e
                     | Inr t \<Rightarrow> Inr (poke 24 t m))
      | _ \<Rightarrow> Inl VIRP_ERR_NULL_PTR)"

definition virp_verify ::
    "crypto_lib \<Rightarrow> bytes ptr \<Rightarrow> virp_signing_key_t ptr \<Rightarrow> virp_error_t" where
  "virp_verify C msg sk =
     (case (msg, sk) of
        (Some m, Some k) \<Rightarrow>
          if \<not> sk_loaded k then VIRP_ERR_KEY_NOT_LOADED
          else if length m < VIRP_HEADER_SIZE then VIRP_ERR_BUFFER_TOO_SMALL
          else
            let err = check_channel_key_binding (m ! 8) (sk_type k)
            in if err \<noteq> VIRP_OK then err
               else if length (sign_input m) > VIRP_MAX_MESSAGE_SIZE
                 then VIRP_ERR_MESSAGE_TOO_LARGE
               else (case virp_hmac_sha256 C (sk_key k) (sign_input m) of
                       Inl e \<Rightarrow> e
                     | Inr expected \<Rightarrow>
                         if virp_consttime_eq (drop 24 m) expected VIRP_HMAC_SIZE
                         then VIRP_OK else VIRP_ERR_HMAC_FAILED)
      | _ \<Rightarrow> VIRP_ERR_NULL_PTR)"

lemma check_channel_key_binding_ok_iff:
  "check_channel_key_binding ch kt = VIRP_OK \<longleftrightarrow>
   (ch = VIRP_CHANNEL_OC \<longrightarrow> kt = VIRP_KEY_TYPE_OKEY) \<and>
   (ch = VIRP_CHANNEL_IC \<longrightarrow> kt = VIRP_KEY_TYPE_RKEY)"
  by (auto simp: check_channel_key_binding_def)

lemma virp_hmac_sha256_Inr_iff:
  "virp_hmac_sha256 C key d = Inr t \<longleftrightarrow> HMAC C key d = Some t \<and> length t = 32"
  by (auto simp: virp_hmac_sha256_def split: option.splits if_splits)

lemma sign_input_poke [simp]:
  assumes "56 \<le> length m" and "length t = 32"
  shows "sign_input (poke 24 t m) = sign_input m"
  using assms by (simp add: sign_input_def poke_def)

text \<open>When v1 verification accepts: the whole acceptance condition.\<close>

lemma virp_verify_ok_iff:
  "virp_verify C (Some m) (Some k) = VIRP_OK \<longleftrightarrow>
     sk_loaded k \<and> 56 \<le> length m \<and> length (sign_input m) \<le> 65536 \<and>
     check_channel_key_binding (m ! 8) (sk_type k) = VIRP_OK \<and>
     HMAC C (sk_key k) (sign_input m) = Some (bslice 24 32 m)"
proof (cases "56 \<le> length m")
  case True
  then show ?thesis
    by (auto simp: virp_verify_def Let_def virp_hmac_sha256_def bslice_def
        split: sum.splits option.splits if_splits)
next
  case False
  then show ?thesis by (simp add: virp_verify_def)
qed

lemma virp_sign_Inr_iff:
  "virp_sign C (Some m) (Some k) = Inr m' \<longleftrightarrow>
     sk_loaded k \<and> 56 \<le> length m \<and> length (sign_input m) \<le> 65536 \<and>
     check_channel_key_binding (m ! 8) (sk_type k) = VIRP_OK \<and>
     (\<exists>t. HMAC C (sk_key k) (sign_input m) = Some t \<and> length t = 32 \<and> m' = poke 24 t m)"
  by (auto simp: virp_sign_def Let_def virp_hmac_sha256_def
      split: sum.splits option.splits if_splits)

text \<open>Signing then verifying with the same key accepts.\<close>

lemma virp_sign_verify:
  assumes "virp_sign C (Some m) (Some k) = Inr m'"
  shows "virp_verify C (Some m') (Some k) = VIRP_OK"
proof -
  obtain t where m: "56 \<le> length m" "length t = 32" "m' = poke 24 t m"
      "HMAC C (sk_key k) (sign_input m) = Some t" "length (sign_input m) \<le> 65536"
      "sk_loaded k" "check_channel_key_binding (m ! 8) (sk_type k) = VIRP_OK"
    using assms by (auto simp: virp_sign_Inr_iff)
  have "bslice 24 32 m' = t" "m' ! 8 = m ! 8" "56 \<le> length m'"
    using m by (simp_all add: bslice_def poke_def nth_append)
  then show ?thesis
    using m by (simp add: virp_verify_ok_iff)
qed

end
