(* ===== verification/Virp_Message.thy ===== *)
theory Virp_Message
  imports Virp_Crypto
begin

text \<open>
  Construction and validation of complete v1 messages (\<open>src/virp_message.c\<close>).
  \<open>build_and_sign\<close> and every builder write into the caller's buffer: the result
  is the buffer after the call and the message length. \<open>now\<close> is the reading of
  the real-time clock. A builder that fills a fixed local array before it
  checks the total size can write past that array; this undefined behaviour is
  the result \<open>None\<close>.
\<close>

section \<open>Validation\<close>

definition virp_validate_message ::
    "crypto_lib \<Rightarrow> bytes ptr \<Rightarrow> virp_signing_key_t ptr \<Rightarrow> virp_error_t + virp_header_t" where
  "virp_validate_message C msg sk =
     (case (msg, sk) of
        (Some m, Some k) \<Rightarrow>
          if length m < VIRP_HEADER_SIZE then Inl VIRP_ERR_BUFFER_TOO_SMALL
          else (case virp_header_deserialize (Some m) of
                  Inl e \<Rightarrow> Inl e
                | Inr h \<Rightarrow>
                    let e1 = virp_header_validate (Some h);
                        e2 = virp_check_channel_type (hdr_channel h) (hdr_type h);
                        e3 = virp_verify C (Some (take (unat (hdr_length h)) m)) (Some k)
                    in if e1 \<noteq> VIRP_OK then Inl e1
                       else if e2 \<noteq> VIRP_OK then Inl e2
                       else if unat (hdr_length h) \<noteq> length m then Inl VIRP_ERR_INVALID_LENGTH
                       else if e3 \<noteq> VIRP_OK then Inl e3
                       else Inr h)
      | _ \<Rightarrow> Inl VIRP_ERR_NULL_PTR)"

section \<open>Construction\<close>

definition build_and_sign ::
    "crypto_lib \<Rightarrow> u64 \<Rightarrow> bytes \<Rightarrow> u8 \<Rightarrow> u8 \<Rightarrow> u8 \<Rightarrow> u32 \<Rightarrow> u32 \<Rightarrow> bytes \<Rightarrow> virp_signing_key_t
     \<Rightarrow> virp_error_t + (bytes \<times> nat)" where
  "build_and_sign C now buf type channel tier node_id seq_num payload sk =
     (let total = VIRP_HEADER_SIZE + length payload
      in if total > VIRP_MAX_MESSAGE_SIZE \<or> total > 65535 then Inl VIRP_ERR_MESSAGE_TOO_LARGE
         else if length buf < total then Inl VIRP_ERR_BUFFER_TOO_SMALL
         else
           sbind (virp_header_init now type channel tier node_id seq_num) (\<lambda>h.
           sbind (virp_header_serialize (Some (h\<lparr>hdr_length := of_nat total\<rparr>)) (Some buf)) (\<lambda>b1.
             let b2 = (if length payload > 0 then poke VIRP_HEADER_SIZE payload b1 else b1)
             in sbind (virp_sign C (Some (take total b2)) (Some sk)) (\<lambda>m.
                  Inr (m @ drop total b2, total)))))"

definition virp_build_observation_tiered ::
    "crypto_lib \<Rightarrow> u64 \<Rightarrow> bytes ptr \<Rightarrow> u32 \<Rightarrow> u32 \<Rightarrow> u8 \<Rightarrow> u8 \<Rightarrow> u8 \<Rightarrow> bytes ptr \<Rightarrow> u16
     \<Rightarrow> virp_signing_key_t ptr \<Rightarrow> virp_error_t + (bytes \<times> nat)" where
  "virp_build_observation_tiered C now buf node_id seq_num otype oscope tier data data_len sk =
     (case (buf, sk) of
        (Some b, Some k) \<Rightarrow>
          if unat data_len > VIRP_OBS_V1_MAX_DATA then Inl VIRP_ERR_MESSAGE_TOO_LARGE
          else if data_len \<noteq> 0 \<and> data = None then Inl VIRP_ERR_NULL_PTR
          else
            let d = (case data of Some d \<Rightarrow> take (unat data_len) d | None \<Rightarrow> [])
            in build_and_sign C now b VIRP_MSG_OBSERVATION VIRP_CHANNEL_OC tier node_id seq_num
                 ([otype, oscope] @ be16 data_len @ d) k
      | _ \<Rightarrow> Inl VIRP_ERR_NULL_PTR)"

definition virp_build_observation ::
    "crypto_lib \<Rightarrow> u64 \<Rightarrow> bytes ptr \<Rightarrow> u32 \<Rightarrow> u32 \<Rightarrow> u8 \<Rightarrow> u8 \<Rightarrow> bytes ptr \<Rightarrow> u16
     \<Rightarrow> virp_signing_key_t ptr \<Rightarrow> virp_error_t + (bytes \<times> nat)" where
  "virp_build_observation C now buf node_id seq_num otype oscope data data_len sk =
     virp_build_observation_tiered C now buf node_id seq_num otype oscope VIRP_TIER_GREEN
       data data_len sk"

text \<open>The proposal is assembled in \<open>payload[VIRP_MAX_PAYLOAD_SIZE]\<close> before
  \<open>build_and_sign\<close> checks the total; \<open>None\<close> is a write past that array.\<close>

definition virp_build_proposal ::
    "crypto_lib \<Rightarrow> u64 \<Rightarrow> bytes ptr \<Rightarrow> u32 \<Rightarrow> u32 \<Rightarrow> u32 \<Rightarrow> u8 \<Rightarrow> u16 \<Rightarrow> virp_obs_ref_t list \<Rightarrow> bytes
     \<Rightarrow> virp_signing_key_t ptr \<Rightarrow> (virp_error_t + (bytes \<times> nat)) option" where
  "virp_build_proposal C now buf node_id seq_num proposal_id ptype blast refs data sk =
     (case (buf, sk) of
        (Some b, Some k) \<Rightarrow>
          if length refs = 0 then Some (Inl VIRP_ERR_NO_EVIDENCE)
          else if length refs > VIRP_MAX_OBS_REFS then Some (Inl VIRP_ERR_MESSAGE_TOO_LARGE)
          else
            let payload = proposal_payload proposal_id ptype blast refs data
            in if length payload > VIRP_MAX_PAYLOAD_SIZE then None
               else Some (build_and_sign C now b VIRP_MSG_PROPOSAL VIRP_CHANNEL_IC
                            VIRP_TIER_YELLOW node_id seq_num payload k)
      | _ \<Rightarrow> Some (Inl VIRP_ERR_NULL_PTR))"

definition virp_build_approval ::
    "crypto_lib \<Rightarrow> u64 \<Rightarrow> bytes ptr \<Rightarrow> u32 \<Rightarrow> u32 \<Rightarrow> u32 \<Rightarrow> u32 \<Rightarrow> u8 \<Rightarrow> u8 \<Rightarrow> virp_signing_key_t ptr
     \<Rightarrow> virp_error_t + (bytes \<times> nat)" where
  "virp_build_approval C now buf node_id seq_num proposal_id approver_node_id atype aclass sk =
     (case (buf, sk) of
        (Some b, Some k) \<Rightarrow>
          build_and_sign C now b VIRP_MSG_APPROVAL VIRP_CHANNEL_IC VIRP_TIER_YELLOW node_id seq_num
            (approval_payload \<lparr>ap_proposal_id = proposal_id, ap_approver_node_id = approver_node_id,
               ap_approval_type = atype, ap_approver_class = aclass, ap_reserved = 0\<rparr>) k
      | _ \<Rightarrow> Inl VIRP_ERR_NULL_PTR)"

definition intent_payload ::
    "u32 \<Rightarrow> u8 \<Rightarrow> u8 \<Rightarrow> u16 \<Rightarrow> virp_obs_ref_t list \<Rightarrow> bytes \<Rightarrow> bytes" where
  "intent_payload intent_id itype priority ttl proofs data =
     be32 intent_id @ [itype, priority] @ be16 ttl @ be32 (of_nat (length proofs)) @
     obs_refs_bytes proofs @ data"

definition virp_build_intent_advertise ::
    "crypto_lib \<Rightarrow> u64 \<Rightarrow> bytes ptr \<Rightarrow> u32 \<Rightarrow> u32 \<Rightarrow> u32 \<Rightarrow> u8 \<Rightarrow> u8 \<Rightarrow> u16 \<Rightarrow> virp_obs_ref_t list
     \<Rightarrow> bytes \<Rightarrow> virp_signing_key_t ptr \<Rightarrow> (virp_error_t + (bytes \<times> nat)) option" where
  "virp_build_intent_advertise C now buf node_id seq_num intent_id itype priority ttl proofs data sk =
     (case (buf, sk) of
        (Some b, Some k) \<Rightarrow>
          let payload = intent_payload intent_id itype priority ttl proofs data
          in if length payload > VIRP_MAX_PAYLOAD_SIZE then None
             else Some (build_and_sign C now b VIRP_MSG_INTENT_ADV VIRP_CHANNEL_IC
                          VIRP_TIER_YELLOW node_id seq_num payload k)
      | _ \<Rightarrow> Some (Inl VIRP_ERR_NULL_PTR))"

definition virp_build_intent_withdraw ::
    "crypto_lib \<Rightarrow> u64 \<Rightarrow> bytes ptr \<Rightarrow> u32 \<Rightarrow> u32 \<Rightarrow> u32 \<Rightarrow> virp_signing_key_t ptr
     \<Rightarrow> virp_error_t + (bytes \<times> nat)" where
  "virp_build_intent_withdraw C now buf node_id seq_num intent_id sk =
     (case (buf, sk) of
        (Some b, Some k) \<Rightarrow>
          build_and_sign C now b VIRP_MSG_INTENT_WD VIRP_CHANNEL_IC VIRP_TIER_YELLOW node_id seq_num
            (be32 intent_id) k
      | _ \<Rightarrow> Inl VIRP_ERR_NULL_PTR)"

definition virp_build_heartbeat ::
    "crypto_lib \<Rightarrow> u64 \<Rightarrow> bytes ptr \<Rightarrow> u32 \<Rightarrow> u32 \<Rightarrow> u32 \<Rightarrow> bool \<Rightarrow> bool \<Rightarrow> u16 \<Rightarrow> u32
     \<Rightarrow> virp_signing_key_t ptr \<Rightarrow> virp_error_t + (bytes \<times> nat)" where
  "virp_build_heartbeat C now buf node_id seq_num uptime onode_ok rnode_ok n_obs n_prop sk =
     (case (buf, sk) of
        (Some b, Some k) \<Rightarrow>
          build_and_sign C now b VIRP_MSG_HEARTBEAT VIRP_CHANNEL_OC VIRP_TIER_GREEN node_id seq_num
            (heartbeat_payload
               \<lparr>hb_uptime_seconds = uptime, hb_onode_ok = (if onode_ok then 1 else 0),
                hb_rnode_ok = (if rnode_ok then 1 else 0), hb_active_observations = n_obs,
                hb_active_proposals = n_prop\<rparr>) k
      | _ \<Rightarrow> Inl VIRP_ERR_NULL_PTR)"

definition virp_build_hello ::
    "crypto_lib \<Rightarrow> u64 \<Rightarrow> bytes ptr \<Rightarrow> u32 \<Rightarrow> u32 \<Rightarrow> u8 \<Rightarrow> u8 \<Rightarrow> virp_signing_key_t ptr
     \<Rightarrow> virp_signing_key_t ptr \<Rightarrow> virp_error_t + (bytes \<times> nat)" where
  "virp_build_hello C now buf node_id seq_num node_type max_tier okey rkey =
     (case (buf, okey) of
        (Some b, Some k) \<Rightarrow>
          let rfp = (case rkey of
                       Some r \<Rightarrow> if sk_loaded r then sk_fingerprint r else replicate VIRP_HMAC_SIZE 0
                     | None \<Rightarrow> replicate VIRP_HMAC_SIZE 0)
          in build_and_sign C now b VIRP_MSG_HELLO VIRP_CHANNEL_OC VIRP_TIER_GREEN node_id seq_num
               (hello_payload
                  \<lparr>hello_magic = VIRP_MAGIC, hello_version = VIRP_VERSION,
                   hello_node_type = node_type, hello_max_tier = max_tier, hello_reserved = 0,
                   hello_node_id = node_id, hello_okey_fingerprint = sk_fingerprint k,
                   hello_rkey_fingerprint = rfp\<rparr>) k
      | _ \<Rightarrow> Inl VIRP_ERR_NULL_PTR)"

definition virp_build_teardown ::
    "crypto_lib \<Rightarrow> u64 \<Rightarrow> bytes ptr \<Rightarrow> u32 \<Rightarrow> u32 \<Rightarrow> u8 \<Rightarrow> bytes ptr \<Rightarrow> virp_signing_key_t ptr
     \<Rightarrow> virp_error_t + (bytes \<times> nat)" where
  "virp_build_teardown C now buf node_id seq_num channel reason sk =
     (case (buf, sk) of
        (Some b, Some k) \<Rightarrow>
          let r = (case reason of Some r \<Rightarrow> take 252 r | None \<Rightarrow> [])
          in build_and_sign C now b VIRP_MSG_TEARDOWN channel VIRP_TIER_GREEN node_id seq_num
               (be16 (of_nat (length r)) @ r) k
      | _ \<Rightarrow> Inl VIRP_ERR_NULL_PTR)"

section \<open>What a built message is\<close>

text \<open>The header a built message carries, given its authentication tag.\<close>

definition built_header ::
    "u64 \<Rightarrow> u8 \<Rightarrow> u8 \<Rightarrow> u8 \<Rightarrow> u32 \<Rightarrow> u32 \<Rightarrow> nat \<Rightarrow> bytes \<Rightarrow> virp_header_t" where
  "built_header now type channel tier node_id seq_num msg_len tag =
     \<lparr>hdr_version = VIRP_VERSION, hdr_type = type, hdr_length = of_nat msg_len,
      hdr_node_id = node_id, hdr_channel = channel, hdr_tier = tier, hdr_reserved = 0,
      hdr_seq_num = seq_num, hdr_timestamp_ns = now, hdr_hmac = tag\<rparr>"

lemma wf_built_header [simp]:
  "wf_header (built_header now ty ch tier nid sq n t) \<longleftrightarrow> length t = 32"
  by (simp add: built_header_def wf_header_def)

lemma poke_header_bytes:
  assumes "length t = 32"
  shows "poke 24 t (header_bytes (built_header now ty ch tier nid sq n (replicate 32 0)) @ payload) =
         header_bytes (built_header now ty ch tier nid sq n t) @ payload"
  using assms by (simp add: poke_def header_bytes_def built_header_def)

text \<open>Past its guards the builder signs the serialised header followed by the payload.\<close>

lemma build_and_sign_eq:
  assumes "56 + length payload \<le> 65535" and "56 + length payload \<le> length buf"
    and "tier \<noteq> VIRP_TIER_BLACK"
  shows "build_and_sign C now buf ty ch tier nid sq payload k =
     sbind (virp_sign C (Some (header_bytes (built_header now ty ch tier nid sq
                                 (56 + length payload) (replicate 32 0)) @ payload)) (Some k))
       (\<lambda>m. Inr (m @ drop (56 + length payload) buf, 56 + length payload))"
proof -
  define n where "n = 56 + length payload"
  let ?h = "built_header now ty ch tier nid sq n (replicate 32 0)"
  have n: "56 + length payload = n" "56 \<le> n" "n \<le> 65535" "n \<le> length buf" "n - 56 = length payload"
    using assms n_def by simp_all
  have init: "virp_header_init now ty ch tier nid sq =
                Inr (built_header now ty ch tier nid sq 0 (replicate 32 0))"
    using assms(3) by (simp add: virp_header_init_def built_header_def)
  have upd: "built_header now ty ch tier nid sq 0 (replicate 32 0)\<lparr>hdr_length := of_nat n\<rparr> = ?h"
    by (simp add: built_header_def)
  have ser: "virp_header_serialize (Some ?h) (Some buf) = Inr (header_bytes ?h @ drop 56 buf)"
    using n by (simp add: virp_header_serialize_layout)
  have b2: "(if length payload > 0 then poke 56 payload (header_bytes ?h @ drop 56 buf)
             else header_bytes ?h @ drop 56 buf) = header_bytes ?h @ payload @ drop n buf"
    using n(1) by (auto simp: poke_def length_header_bytes add.commute)
  have "length (header_bytes ?h) = 56"
    by (simp add: length_header_bytes)
  then show ?thesis
    unfolding build_and_sign_def Let_def n(1) VIRP_HEADER_SIZE_def init sbind.simps upd ser b2
    using n by (simp add: n_def [symmetric])
qed

lemma build_and_sign_Inr:
  assumes "build_and_sign C now buf ty ch tier nid sq payload k = Inr (buf', n)"
  obtains t where "n = 56 + length payload" and "n \<le> 65535" and "n \<le> length buf"
    and "tier \<noteq> VIRP_TIER_BLACK" and "length t = 32"
    and "buf' = header_bytes (built_header now ty ch tier nid sq n t) @ payload @ drop n buf"
    and "virp_verify C (Some (take n buf')) (Some k) = VIRP_OK"
proof -
  let ?n = "56 + length payload"
  let ?h = "built_header now ty ch tier nid sq ?n (replicate 32 0)"
  have g: "?n \<le> 65535" "?n \<le> length buf" "tier \<noteq> VIRP_TIER_BLACK"
    using assms by (auto simp: build_and_sign_def virp_header_init_def Let_def split: if_splits)
  then obtain m where m: "virp_sign C (Some (header_bytes ?h @ payload)) (Some k) = Inr m"
      and buf': "buf' = m @ drop ?n buf" and n: "n = ?n"
    using assms build_and_sign_eq [OF g] by (auto simp: sbind_Inr_iff)
  from m obtain t where t: "length t = 32" "m = poke 24 t (header_bytes ?h @ payload)"
    by (auto simp: virp_sign_Inr_iff)
  have mm: "m = header_bytes (built_header now ty ch tier nid sq ?n t) @ payload"
    using t poke_header_bytes by simp
  have "take n buf' = m"
    using t(1) by (simp add: buf' n mm length_header_bytes)
  then have "virp_verify C (Some (take n buf')) (Some k) = VIRP_OK"
    using virp_sign_verify [OF m] by simp
  then show ?thesis
    using that [of t] g n t(1) mm buf' by simp
qed

lemma virp_validate_message_Inr_iff:
  "virp_validate_message C (Some m) (Some k) = Inr h \<longleftrightarrow>
     virp_header_deserialize (Some m) = Inr h \<and> virp_header_validate (Some h) = VIRP_OK \<and>
     virp_check_channel_type (hdr_channel h) (hdr_type h) = VIRP_OK \<and>
     unat (hdr_length h) = length m \<and> virp_verify C (Some m) (Some k) = VIRP_OK"
  by (auto simp: virp_validate_message_def Let_def virp_header_deserialize_short
      split: sum.splits if_splits)

text \<open>Which headers pass \<open>virp_header_validate\<close> when the channel fits the type.\<close>

lemma built_header_valid:
  assumes "virp_check_channel_type ch ty = VIRP_OK" and "ch = VIRP_CHANNEL_OC \<or> ch = VIRP_CHANNEL_IC"
    and "tier \<le> VIRP_TIER_RED" and "56 \<le> n" and "n \<le> 65535"
  shows "virp_header_validate (Some (built_header now ty ch tier nid sq n t)) = VIRP_OK"
proof -
  have "tier \<noteq> 255"
    using assms(3) by auto
  moreover have "unat (of_nat n :: u16) = n"
    using assms(5) by (simp add: unat_of_nat_u16)
  ultimately show ?thesis
    using assms by (auto simp: virp_header_validate_def built_header_def virp_check_channel_type_def
        split: if_splits)
qed

lemma build_and_sign_validates:
  assumes b: "build_and_sign C now buf ty ch tier nid sq payload k = Inr (buf', n)"
    and ch: "virp_check_channel_type ch ty = VIRP_OK" "ch = VIRP_CHANNEL_OC \<or> ch = VIRP_CHANNEL_IC"
    and tier: "tier \<le> VIRP_TIER_RED"
  shows "\<exists>t. virp_validate_message C (Some (take n buf')) (Some k) =
               Inr (built_header now ty ch tier nid sq n t)"
    and "drop 56 (take n buf') = payload" and "n = 56 + length payload"
    and "drop n buf' = drop n buf"
proof -
  from b obtain t where t: "n = 56 + length payload" "n \<le> 65535" "length t = 32" "n \<le> length buf"
      "buf' = header_bytes (built_header now ty ch tier nid sq n t) @ payload @ drop n buf"
      "virp_verify C (Some (take n buf')) (Some k) = VIRP_OK"
    by (rule build_and_sign_Inr)
  let ?h = "built_header now ty ch tier nid sq n t"
  have m: "take n buf' = header_bytes ?h @ payload"
    using t(1,3,5) by (simp add: length_header_bytes)
  have "virp_header_deserialize (Some (take n buf')) = Inr ?h"
    using m t(3) header_roundtrip by simp
  moreover have "virp_header_validate (Some ?h) = VIRP_OK"
    using built_header_valid [OF ch tier] t(1,2) by simp
  moreover have "hdr_channel ?h = ch" "hdr_type ?h = ty" "unat (hdr_length ?h) = n"
    using t(2) by (simp_all add: built_header_def unat_of_nat_u16)
  moreover have "length (take n buf') = n"
    using t(1,3,4,5) by (simp add: length_header_bytes)
  ultimately show "\<exists>t. virp_validate_message C (Some (take n buf')) (Some k) =
               Inr (built_header now ty ch tier nid sq n t)"
    using t(6) ch by (auto simp: virp_validate_message_Inr_iff)
  show "drop 56 (take n buf') = payload" "drop n buf' = drop n buf" "n = 56 + length payload"
    using t(1,3,5) m by (simp_all add: length_header_bytes)
qed

text \<open>When the builder succeeds.\<close>

lemma build_and_sign_succeeds:
  assumes "56 + length payload \<le> 65535" and "56 + length payload \<le> length buf"
    and "tier \<noteq> VIRP_TIER_BLACK" and "sk_loaded k"
    and "check_channel_key_binding ch (sk_type k) = VIRP_OK"
    and "\<And>d. \<exists>t. HMAC C (sk_key k) d = Some t \<and> length t = 32"
  shows "\<exists>buf' n. build_and_sign C now buf ty ch tier nid sq payload k = Inr (buf', n)"
proof -
  let ?h = "built_header now ty ch tier nid sq (56 + length payload) (replicate 32 0)"
  have "(header_bytes ?h @ payload) ! 8 = ch"
    by (simp add: header_bytes_def built_header_def nth_append)
  then have "\<exists>m. virp_sign C (Some (header_bytes ?h @ payload)) (Some k) = Inr m"
    using assms by (auto simp: virp_sign_Inr_iff length_header_bytes sign_input_def)
  then show ?thesis
    using build_and_sign_eq [OF assms(1-3)] by (auto simp: sbind_Inr_iff)
qed

end
