(* ===== verification/Virp_Session.thy ===== *)
theory Virp_Session
  imports Virp_Crypto
begin

text \<open>
  The session of a context (\<open>include/virp_session.h\<close>, \<open>src/virp_session.c\<close>). A
  \<open>virp_context_t\<close> holds one session; the operations take and return it. The
  context pointer is the one the daemon allocates at start, so the NULL checks on
  it have no counterpart. Character arrays are octet lists of the array's size;
  \<open>cstr n a\<close> is the C string in the first \<open>n\<close> octets of \<open>a\<close>. The clock is the
  argument \<open>now\<close>.
\<close>

section \<open>C strings in fixed arrays\<close>

definition cstr :: "nat \<Rightarrow> bytes \<Rightarrow> bytes" where
  "cstr n a = takeWhile (\<lambda>x. x \<noteq> 0) (take n a)"

definition strnlen :: "bytes \<Rightarrow> nat \<Rightarrow> nat" where
  "strnlen a n = length (cstr n a)"

definition strncmp_eq :: "bytes \<Rightarrow> bytes \<Rightarrow> nat \<Rightarrow> bool" where
  "strncmp_eq a b n \<longleftrightarrow> cstr n a = cstr n b"

definition zpad :: "nat \<Rightarrow> bytes \<Rightarrow> bytes" where
  "zpad n a = a @ replicate (n - length a) 0"

section \<open>State\<close>

datatype virp_session_state_t =
    VIRP_SESSION_DISCONNECTED
  | VIRP_SESSION_HELLO_SENT
  | VIRP_SESSION_NEGOTIATED
  | VIRP_SESSION_BOUND
  | VIRP_SESSION_ACTIVE
  | VIRP_SESSION_CLOSED

record virp_session_t =
  s_state :: virp_session_state_t
  s_session_id :: bytes
  s_client_nonce :: bytes
  s_server_nonce :: bytes
  s_selected_version :: u8
  s_selected_algorithm :: u8
  s_client_id :: bytes
  s_server_id :: bytes
  s_established_at_ns :: u64
  s_last_seq :: u64
  s_hello_ack_sent_at_ns :: u64
  s_last_activity_ns :: u64
  s_generation :: u64
  s_session_key :: bytes
  s_transcript_hash :: bytes
  s_session_key_valid :: bool
  s_transcript_buf :: bytes
  s_transcript_len :: nat

definition VIRP_SERVER_ID_MAX :: nat where [simp]: "VIRP_SERVER_ID_MAX = 64"
definition VIRP_TRANSCRIPT_BUF :: nat where "VIRP_TRANSCRIPT_BUF = 2048"
definition VIRP_SESSION_BIND_TIMEOUT_NS :: u64 where [simp]: "VIRP_SESSION_BIND_TIMEOUT_NS = 30000000000"
definition VIRP_SESSION_IDLE_TIMEOUT_NS :: u64 where [simp]: "VIRP_SESSION_IDLE_TIMEOUT_NS = 300000000000"

text \<open>The session after \<open>memset(&ctx->session, 0, sizeof(ctx->session))\<close>.\<close>

definition zero_session :: virp_session_t where
  "zero_session = \<lparr>
     s_state = VIRP_SESSION_DISCONNECTED,
     s_session_id = replicate 16 0,
     s_client_nonce = replicate 8 0,
     s_server_nonce = replicate 8 0,
     s_selected_version = 0,
     s_selected_algorithm = 0,
     s_client_id = replicate 64 0,
     s_server_id = replicate 64 0,
     s_established_at_ns = 0,
     s_last_seq = 0,
     s_hello_ack_sent_at_ns = 0,
     s_last_activity_ns = 0,
     s_generation = 0,
     s_session_key = replicate 32 0,
     s_transcript_hash = replicate 32 0,
     s_session_key_valid = False,
     s_transcript_buf = replicate VIRP_TRANSCRIPT_BUF 0,
     s_transcript_len = 0\<rparr>"

section \<open>Operations\<close>

definition virp_context_new :: virp_session_t where
  "virp_context_new = zero_session\<lparr>s_state := VIRP_SESSION_DISCONNECTED\<rparr>"

definition virp_session_init :: "bytes ptr \<Rightarrow> virp_error_t \<times> virp_session_t" where
  "virp_session_init server_id =
     (let s = zero_session\<lparr>s_state := VIRP_SESSION_DISCONNECTED\<rparr>
      in case server_id of
           None \<Rightarrow> (VIRP_OK, s)
         | Some sid \<Rightarrow>
             let len = strnlen sid VIRP_SERVER_ID_MAX
             in if len \<ge> VIRP_SERVER_ID_MAX
                then (VIRP_ERR_INVALID_LENGTH,
                      s\<lparr>s_server_id :=
                          poke (VIRP_SERVER_ID_MAX - 1) [0]
                            (poke 0 (take (VIRP_SERVER_ID_MAX - 1) sid) (s_server_id s))\<rparr>)
                else (VIRP_OK, s\<lparr>s_server_id := poke 0 (take len sid) (s_server_id s)\<rparr>))"

definition virp_session_reset :: "virp_session_t \<Rightarrow> virp_session_t" where
  "virp_session_reset s =
     (let n = strnlen (s_server_id s) VIRP_SERVER_ID_MAX;
          sid_len = (if n \<ge> VIRP_SERVER_ID_MAX then VIRP_SERVER_ID_MAX - 1 else n);
          server_id = poke 0 (take sid_len (s_server_id s)) (replicate VIRP_SERVER_ID_MAX 0);
          gen = s_generation s + 1
      in zero_session
           \<lparr>s_generation := gen,
            s_state := VIRP_SESSION_DISCONNECTED,
            s_server_id := server_id\<rparr>)"

definition virp_session_require_active :: "virp_session_t \<Rightarrow> virp_error_t" where
  "virp_session_require_active s =
     (if s_state s \<noteq> VIRP_SESSION_ACTIVE then VIRP_ERR_SESSION_INVALID else VIRP_OK)"

definition virp_session_check_timeouts ::
    "u64 \<Rightarrow> virp_session_t \<Rightarrow> virp_error_t \<times> virp_session_t" where
  "virp_session_check_timeouts now s =
     (if s_state s = VIRP_SESSION_NEGOTIATED \<and>
         now - s_hello_ack_sent_at_ns s > VIRP_SESSION_BIND_TIMEOUT_NS
      then (VIRP_ERR_SESSION_INVALID, virp_session_reset s)
      else if s_state s = VIRP_SESSION_ACTIVE \<and> s_last_activity_ns s > 0 \<and>
              now - s_last_activity_ns s > VIRP_SESSION_IDLE_TIMEOUT_NS
      then (VIRP_ERR_SESSION_INVALID, virp_session_reset s)
      else (VIRP_OK, s))"

definition virp_session_on_disconnect :: "virp_session_t \<Rightarrow> virp_session_t" where
  "virp_session_on_disconnect s = virp_session_reset s"

section \<open>Shape of the session\<close>

text \<open>Array sizes, and the \<open>server_id\<close> invariant of \<open>virp_session.c\<close>: a NUL within the
  array and zeros after the first NUL.\<close>

definition padded_id :: "nat \<Rightarrow> bytes \<Rightarrow> bool" where
  "padded_id n a \<longleftrightarrow> length (cstr n a) < n \<and> a = zpad n (cstr n a)"

definition session_shape :: "virp_session_t \<Rightarrow> bool" where
  "session_shape s \<longleftrightarrow>
     length (s_session_id s) = 16 \<and> length (s_client_nonce s) = 8 \<and>
     length (s_server_nonce s) = 8 \<and> length (s_client_id s) = 64 \<and>
     padded_id 64 (s_server_id s) \<and> length (s_session_key s) = 32 \<and>
     length (s_transcript_hash s) = 32 \<and>
     length (s_transcript_buf s) = VIRP_TRANSCRIPT_BUF \<and>
     s_transcript_len s \<le> VIRP_TRANSCRIPT_BUF"

lemma cstr_nonzero: "0 \<notin> set (cstr n a)"
  by (auto simp: cstr_def dest: set_takeWhileD)

lemma cstr_zpad: "0 \<notin> set a \<Longrightarrow> length a < n \<Longrightarrow> cstr n (zpad n a) = a"
proof -
  assume a: "0 \<notin> set a" "length a < n"
  have "cstr n (zpad n a) = takeWhile (\<lambda>x. x \<noteq> 0) (a @ replicate (n - length a) 0)"
    using a(2) by (simp add: cstr_def zpad_def)
  also have "\<dots> = a @ takeWhile (\<lambda>x. x \<noteq> 0) (replicate (n - length a) 0)"
    using a(1) by (intro takeWhile_append2) auto
  also have "takeWhile (\<lambda>x. x \<noteq> (0 :: byte)) (replicate (n - length a) 0) = []"
    by (cases "n - length a") auto
  finally show ?thesis by simp
qed

lemma length_cstr: "length (cstr n a) \<le> n"
  unfolding cstr_def using length_takeWhile_le [of "\<lambda>x. x \<noteq> 0" "take n a"] by simp

lemma length_zpad [simp]: "length a \<le> n \<Longrightarrow> length (zpad n a) = n"
  by (simp add: zpad_def)

lemma poke_zeros: "length a \<le> n \<Longrightarrow> poke 0 a (replicate n 0) = zpad n a"
  by (simp add: poke_def zpad_def)

lemma padded_zpad: "0 \<notin> set a \<Longrightarrow> length a < n \<Longrightarrow> padded_id n (zpad n a)"
  by (simp add: padded_id_def cstr_zpad)

lemma take_cstr:
  assumes "k \<le> length (cstr n a)"
  shows "take k a = take k (cstr n a)"
proof -
  have "take n a = cstr n a @ dropWhile (\<lambda>x. x \<noteq> 0) (take n a)"
    by (simp add: cstr_def)
  then have "take k (take n a) = take k (cstr n a)"
    using assms by (metis append_Nil2 diff_is_0_eq' take0 take_append)
  moreover have "k \<le> n"
    using assms length_cstr le_trans by blast
  ultimately show ?thesis
    by (simp add: min_absorb1)
qed

lemma padded_zpad_take: "k \<le> length (cstr n a) \<Longrightarrow> k < n \<Longrightarrow> padded_id n (zpad n (take k a))"
  using cstr_nonzero [of n a] set_take_subset [of k "cstr n a"]
  by (intro padded_zpad) (auto simp: take_cstr)

lemma padded_length: "padded_id n a \<Longrightarrow> length a = n"
  unfolding padded_id_def by (metis length_zpad less_imp_le_nat)

text \<open>A reset keeps a padded identity, clears everything else, and counts the generation.\<close>

lemma virp_session_reset_eq:
  assumes "padded_id 64 (s_server_id s)"
  shows "virp_session_reset s =
     zero_session\<lparr>s_generation := s_generation s + 1, s_server_id := s_server_id s\<rparr>"
proof -
  let ?c = "cstr 64 (s_server_id s)"
  have l: "length ?c < 64" and z: "s_server_id s = zpad 64 ?c"
    using assms by (auto simp: padded_id_def)
  have "poke 0 (take (length ?c) (s_server_id s)) (replicate 64 0) = zpad 64 ?c"
    using l take_cstr [of "length ?c" 64 "s_server_id s"] by (simp add: poke_zeros)
  then show ?thesis
    using l z by (simp add: virp_session_reset_def strnlen_def Let_def zero_session_def)
qed

lemma shape_zero: "padded_id 64 sid \<Longrightarrow> session_shape (zero_session\<lparr>s_server_id := sid\<rparr>)"
  by (simp add: session_shape_def zero_session_def)

lemma shape_reset: "padded_id 64 (s_server_id s) \<Longrightarrow> session_shape (virp_session_reset s)"
  by (simp add: virp_session_reset_eq session_shape_def zero_session_def)

lemma padded_zeros: "0 < n \<Longrightarrow> padded_id n (replicate n 0)"
  using padded_zpad [of "[]" n] by (simp add: zpad_def)

lemma shape_new: "session_shape virp_context_new"
  using padded_zeros [of 64] by (simp add: virp_context_new_def session_shape_def zero_session_def)

lemma init_server_id:
  "\<exists>k \<le> length (cstr 64 sid). k < 64 \<and>
     s_server_id (snd (virp_session_init (Some sid))) = zpad 64 (take k sid)"
proof (cases "strnlen sid 64 \<ge> 64")
  case True
  then have "length (cstr 64 sid) = 64"
    using length_cstr [of 64 sid] by (simp add: strnlen_def)
  then have "64 \<le> length sid"
    using length_takeWhile_le [of "\<lambda>x. x \<noteq> 0" "take 64 sid"] by (simp add: cstr_def)
  then have "s_server_id (snd (virp_session_init (Some sid))) = zpad 64 (take 63 sid)"
    using True by (simp add: virp_session_init_def Let_def zero_session_def poke_def zpad_def)
  then show ?thesis
    using \<open>length (cstr 64 sid) = 64\<close> by (intro exI [of _ 63]) simp
next
  case False
  have "length (take (length (cstr 64 sid)) sid) \<le> 64"
    using length_cstr [of 64 sid] by simp
  then have "s_server_id (snd (virp_session_init (Some sid))) = zpad 64 (take (strnlen sid 64) sid)"
    using False by (simp add: virp_session_init_def Let_def zero_session_def poke_zeros strnlen_def)
  then show ?thesis
    using False by (intro exI [of _ "strnlen sid 64"]) (simp add: strnlen_def)
qed

lemma init_session:
  "\<exists>sid'. padded_id 64 sid' \<and> snd (virp_session_init sid) = zero_session\<lparr>s_server_id := sid'\<rparr>"
proof (cases sid)
  case None
  then show ?thesis
    using padded_zeros [of 64]
    by (intro exI [of _ "replicate 64 0"]) (simp add: virp_session_init_def Let_def zero_session_def)
next
  case (Some x)
  then obtain k where "k \<le> length (cstr 64 x)" "k < 64"
      "s_server_id (snd (virp_session_init sid)) = zpad 64 (take k x)"
    using init_server_id [of x] by auto
  moreover have "snd (virp_session_init sid) =
      zero_session\<lparr>s_server_id := s_server_id (snd (virp_session_init sid))\<rparr>"
    by (simp add: Some virp_session_init_def Let_def zero_session_def)
  ultimately show ?thesis
    using padded_zpad_take by metis
qed

end
