(* ===== verification/Virp_Transcript.thy ===== *)
theory Virp_Transcript
  imports Virp_Session
begin

text \<open>
  The handshake transcript and the session key (\<open>src/virp_transcript.c\<close>, message
  structs of \<open>include/virp_handshake.h\<close>). Each handshake message is serialised with
  a length prefix into a fixed-size frame; the frames are accumulated in the
  session, hashed, and the hash salts the derivation of the session key. The
  interface \<open>transcript_frame\<close> says what the accumulation relies on: a fixed size
  and a self-delimiting encoding.
\<close>

section \<open>Handshake messages\<close>

definition VIRP_MAX_VERSIONS :: nat where [simp]: "VIRP_MAX_VERSIONS = 8"
definition VIRP_MAX_ALGORITHMS :: nat where [simp]: "VIRP_MAX_ALGORITHMS = 8"

record virp_session_hello_t =
  sh_msg_type :: u8
  sh_client_id :: bytes
  sh_versions :: bytes
  sh_version_count :: u8
  sh_algorithms :: bytes
  sh_algorithm_count :: u8
  sh_supported_channels :: u32
  sh_client_nonce :: bytes
  sh_timestamp_ns :: u64

record virp_session_hello_ack_t =
  sa_msg_type :: u8
  sa_server_id :: bytes
  sa_selected_version :: u8
  sa_selected_algorithm :: u8
  sa_accepted_channels :: u32
  sa_session_id :: bytes
  sa_client_nonce :: bytes
  sa_server_nonce :: bytes
  sa_timestamp_ns :: u64

record virp_session_bind_t =
  sb_msg_type :: u8
  sb_session_id :: bytes
  sb_client_id :: bytes
  sb_server_id :: bytes
  sb_client_nonce :: bytes
  sb_server_nonce :: bytes
  sb_timestamp_ns :: u64

definition wf_session_hello :: "virp_session_hello_t \<Rightarrow> bool" where
  "wf_session_hello h \<longleftrightarrow> length (sh_client_id h) = 64 \<and> length (sh_versions h) = 8 \<and>
     length (sh_algorithms h) = 8 \<and> length (sh_client_nonce h) = 8"

definition wf_session_hello_ack :: "virp_session_hello_ack_t \<Rightarrow> bool" where
  "wf_session_hello_ack a \<longleftrightarrow> length (sa_server_id a) = 64 \<and> length (sa_session_id a) = 16 \<and>
     length (sa_client_nonce a) = 8 \<and> length (sa_server_nonce a) = 8"

definition wf_session_bind :: "virp_session_bind_t \<Rightarrow> bool" where
  "wf_session_bind b \<longleftrightarrow> length (sb_session_id b) = 16 \<and> length (sb_client_id b) = 64 \<and>
     length (sb_server_id b) = 64 \<and> length (sb_client_nonce b) = 8 \<and>
     length (sb_server_nonce b) = 8"

section \<open>Serialisation\<close>

text \<open>\<open>None\<close> is the return of -1; otherwise the buffer and the number of octets written.\<close>

definition virp_serialize_hello ::
    "virp_session_hello_t \<Rightarrow> bytes \<Rightarrow> (bytes \<times> nat) option" where
  "virp_serialize_hello h out =
     (if length out < 107 then None
      else Some (writes
        [(0, be32 103),
         (4, [sh_msg_type h]),
         (5, sh_client_id h),
         (69, sh_versions h),
         (77, [sh_version_count h]),
         (78, sh_algorithms h),
         (86, [sh_algorithm_count h]),
         (87, be32 (sh_supported_channels h)),
         (91, sh_client_nonce h),
         (99, be64 (sh_timestamp_ns h))] out, 107))"

definition virp_serialize_hello_ack ::
    "virp_session_hello_ack_t \<Rightarrow> bytes \<Rightarrow> (bytes \<times> nat) option" where
  "virp_serialize_hello_ack a out =
     (if length out < 115 then None
      else Some (writes
        [(0, be32 111),
         (4, [sa_msg_type a]),
         (5, sa_server_id a),
         (69, [sa_selected_version a]),
         (70, [sa_selected_algorithm a]),
         (71, be32 (sa_accepted_channels a)),
         (75, sa_session_id a),
         (91, sa_client_nonce a),
         (99, sa_server_nonce a),
         (107, be64 (sa_timestamp_ns a))] out, 115))"

definition virp_serialize_session_bind ::
    "virp_session_bind_t \<Rightarrow> bytes \<Rightarrow> (bytes \<times> nat) option" where
  "virp_serialize_session_bind b out =
     (if length out < 173 then None
      else Some (writes
        [(0, be32 169),
         (4, [sb_msg_type b]),
         (5, sb_session_id b),
         (21, sb_client_id b),
         (85, sb_server_id b),
         (149, sb_client_nonce b),
         (157, sb_server_nonce b),
         (165, be64 (sb_timestamp_ns b))] out, 173))"

section \<open>Accumulation and key derivation\<close>

definition virp_transcript_append ::
    "virp_session_t \<Rightarrow> bytes \<Rightarrow> virp_error_t \<times> virp_session_t" where
  "virp_transcript_append s data =
     (if s_transcript_len s + length data > VIRP_TRANSCRIPT_BUF
      then (VIRP_ERR_BUFFER_TOO_SMALL, s)
      else (VIRP_OK, s\<lparr>s_transcript_buf := poke (s_transcript_len s) data (s_transcript_buf s),
                       s_transcript_len := s_transcript_len s + length data\<rparr>))"

definition virp_transcript_finalize :: "crypto_lib \<Rightarrow> virp_session_t \<Rightarrow> virp_session_t" where
  "virp_transcript_finalize C s =
     s\<lparr>s_transcript_hash := SHA256 C (take (s_transcript_len s) (s_transcript_buf s))\<rparr>"

text \<open>A salt or info argument of \<open>None\<close> is a NULL pointer. The extract step's output is the
  32-octet array \<open>prk\<close>.\<close>

definition virp_hkdf_sha256 ::
    "crypto_lib \<Rightarrow> bytes ptr \<Rightarrow> bytes ptr \<Rightarrow> bytes ptr \<Rightarrow> virp_error_t + bytes" where
  "virp_hkdf_sha256 C ikm salt info =
     (case ikm of
        None \<Rightarrow> Inl VIRP_ERR_NULL_PTR
      | Some ikm_v \<Rightarrow>
          let salt_v = (case salt of
                          None \<Rightarrow> replicate 32 0
                        | Some sv \<Rightarrow> if length sv = 0 then replicate 32 0 else sv)
          in (case HMAC C salt_v ikm_v of
                None \<Rightarrow> Inl VIRP_ERR_CRYPTO
              | Some prk \<Rightarrow>
                  let info_v = (case info of None \<Rightarrow> [] | Some iv \<Rightarrow> iv)
                  in if length info_v > 256 then Inl VIRP_ERR_BUFFER_TOO_SMALL
                     else (case HMAC C prk (info_v @ [1]) of
                             None \<Rightarrow> Inl VIRP_ERR_CRYPTO
                           | Some okm \<Rightarrow> Inr okm)))"

definition virp_session_derive_key ::
    "crypto_lib \<Rightarrow> u64 \<Rightarrow> virp_session_t \<Rightarrow> bytes ptr \<Rightarrow> virp_error_t \<times> virp_session_t" where
  "virp_session_derive_key C now s master_key =
     (case master_key of
        None \<Rightarrow> (VIRP_ERR_NULL_PTR, s)
      | Some mk \<Rightarrow>
          if s_state s \<noteq> VIRP_SESSION_BOUND then (VIRP_ERR_SESSION_INVALID, s)
          else (case virp_hkdf_sha256 C (Some mk) (Some (s_transcript_hash s))
                       (Some (be64 (s_generation s))) of
                  Inl err \<Rightarrow> (err, s)
                | Inr key \<Rightarrow>
                    (VIRP_OK, s\<lparr>s_session_key := key,
                                s_session_key_valid := True,
                                s_state := VIRP_SESSION_ACTIVE,
                                s_established_at_ns := now\<rparr>)))"

section \<open>Frames are self-delimiting\<close>

locale transcript_frame =
  fixes wf :: "'a \<Rightarrow> bool"
    and frame :: "'a \<Rightarrow> bytes"
    and ser :: "'a \<Rightarrow> bytes \<Rightarrow> (bytes \<times> nat) option"
    and body :: nat
  assumes frame_length: "wf x \<Longrightarrow> length (frame x) = 4 + body"
    and frame_prefix: "wf x \<Longrightarrow> take 4 (frame x) = be32 (of_nat body)"
    and frame_inject: "wf x \<Longrightarrow> wf y \<Longrightarrow> frame x = frame y \<Longrightarrow> x = y"
    and ser_frame: "wf x \<Longrightarrow> 4 + body \<le> length out \<Longrightarrow>
      ser x out = Some (frame x @ drop (4 + body) out, 4 + body)"
    and ser_short: "length out < 4 + body \<Longrightarrow> ser x out = None"
begin

lemma frame_split:
  assumes "wf x" and "wf y" and "frame x @ r = frame y @ t"
  shows "x = y \<and> r = t"
proof -
  have "frame x = frame y \<and> r = t"
    using assms frame_length [of x] frame_length [of y] by simp
  then show ?thesis
    using frame_inject [of x y] assms by blast
qed

text \<open>The octets the handlers append: the first \<open>n\<close> of the scratch buffer.\<close>

lemma ser_take: "wf x \<Longrightarrow> 4 + body \<le> length out \<Longrightarrow>
    map_option (\<lambda>(b, n). take n b) (ser x out) = Some (frame x)"
  using frame_length [of x] by (simp add: ser_frame)

end

definition hello_frame :: "virp_session_hello_t \<Rightarrow> bytes" where
  "hello_frame h = be32 103 @ [sh_msg_type h] @ sh_client_id h @ sh_versions h @
     [sh_version_count h] @ sh_algorithms h @ [sh_algorithm_count h] @
     be32 (sh_supported_channels h) @ sh_client_nonce h @ be64 (sh_timestamp_ns h)"

definition hello_ack_frame :: "virp_session_hello_ack_t \<Rightarrow> bytes" where
  "hello_ack_frame a = be32 111 @ [sa_msg_type a] @ sa_server_id a @ [sa_selected_version a] @
     [sa_selected_algorithm a] @ be32 (sa_accepted_channels a) @ sa_session_id a @
     sa_client_nonce a @ sa_server_nonce a @ be64 (sa_timestamp_ns a)"

definition session_bind_frame :: "virp_session_bind_t \<Rightarrow> bytes" where
  "session_bind_frame b = be32 169 @ [sb_msg_type b] @ sb_session_id b @ sb_client_id b @
     sb_server_id b @ sb_client_nonce b @ sb_server_nonce b @ be64 (sb_timestamp_ns b)"

interpretation fr_hello: transcript_frame wf_session_hello hello_frame virp_serialize_hello 103
proof unfold_locales
  show "x = y" if "wf_session_hello x" "wf_session_hello y" "hello_frame x = hello_frame y" for x y
    using that by (simp add: wf_session_hello_def hello_frame_def)
qed (simp_all add: wf_session_hello_def hello_frame_def virp_serialize_hello_def writes_contiguous)

interpretation fr_ack:
  transcript_frame wf_session_hello_ack hello_ack_frame virp_serialize_hello_ack 111
proof unfold_locales
  show "x = y" if "wf_session_hello_ack x" "wf_session_hello_ack y"
    "hello_ack_frame x = hello_ack_frame y" for x y
    using that by (simp add: wf_session_hello_ack_def hello_ack_frame_def)
qed (simp_all add: wf_session_hello_ack_def hello_ack_frame_def virp_serialize_hello_ack_def
       writes_contiguous)

interpretation fr_bind:
  transcript_frame wf_session_bind session_bind_frame virp_serialize_session_bind 169
proof unfold_locales
  show "x = y" if "wf_session_bind x" "wf_session_bind y"
    "session_bind_frame x = session_bind_frame y" for x y
    using that by (simp add: wf_session_bind_def session_bind_frame_def)
qed (simp_all add: wf_session_bind_def session_bind_frame_def virp_serialize_session_bind_def
       writes_contiguous)

text \<open>Three frames in a row determine the three messages.\<close>

lemma transcript_inject:
  assumes "wf_session_hello h" "wf_session_hello h'" "wf_session_hello_ack a"
    "wf_session_hello_ack a'" "wf_session_bind b" "wf_session_bind b'"
    and "hello_frame h @ hello_ack_frame a @ session_bind_frame b =
      hello_frame h' @ hello_ack_frame a' @ session_bind_frame b'"
  shows "h = h' \<and> a = a' \<and> b = b'"
  using fr_hello.frame_split [OF assms(1,2,7)] fr_ack.frame_split [OF assms(3,4)]
    fr_bind.frame_inject [OF assms(5,6)] by blast

lemma append_transcript:
  assumes "session_shape s" and "s_transcript_len s + length data \<le> VIRP_TRANSCRIPT_BUF"
  shows "virp_transcript_append s data =
     (VIRP_OK, s\<lparr>s_transcript_buf := poke (s_transcript_len s) data (s_transcript_buf s),
                 s_transcript_len := s_transcript_len s + length data\<rparr>)"
    and "take (s_transcript_len s + length data)
       (poke (s_transcript_len s) data (s_transcript_buf s)) =
     take (s_transcript_len s) (s_transcript_buf s) @ data"
    and "length (poke (s_transcript_len s) data (s_transcript_buf s)) = VIRP_TRANSCRIPT_BUF"
  using assms by (simp_all add: virp_transcript_append_def session_shape_def poke_def min_absorb2)

end
