(* ===== verification/Virp_Handshake.thy ===== *)
theory Virp_Handshake
  imports Virp_Transcript
begin

text \<open>
  The O-Node side of the session handshake (\<open>src/virp_handshake.c\<close>) and the session
  as a state machine: \<open>session_step\<close> is one call into the session from the daemon,
  \<open>session_reach\<close> the states such calls lead to from \<open>virp_context_new\<close>. The two
  draws of \<open>RAND_bytes\<close> and the clock readings are arguments; a failed draw is
  \<open>None\<close>. Log output is left out.
\<close>

section \<open>Handlers\<close>

fun select_version :: "u8 \<Rightarrow> bytes \<Rightarrow> u8" where
  "select_version sel [] = sel"
| "select_version sel (v # vs) =
     (if v = 2 then 2 else if v = 1 then select_version 1 vs else select_version sel vs)"

fun has_algorithm :: "bytes \<Rightarrow> bool" where
  "has_algorithm [] = False"
| "has_algorithm (a # as) = (if a = VIRP_ALG_HMAC_SHA256 then True else has_algorithm as)"

text \<open>\<open>if (n > 0) virp_transcript_append(ctx, ser, n)\<close> after a serialiser.\<close>

definition append_serialized :: "virp_session_t \<Rightarrow> (bytes \<times> nat) option \<Rightarrow> virp_session_t" where
  "append_serialized s r =
     (case r of None \<Rightarrow> s | Some (ser, n) \<Rightarrow> snd (virp_transcript_append s (take n ser)))"

definition virp_handle_hello ::
    "bytes option \<Rightarrow> bytes option \<Rightarrow> u64 \<Rightarrow> u64 \<Rightarrow> virp_session_t \<Rightarrow> virp_session_hello_t ptr \<Rightarrow>
     (virp_error_t + virp_session_hello_ack_t) \<times> virp_session_t" where
  "virp_handle_hello rand_id rand_nonce now_neg now_ack s hello_in =
     (case hello_in of
        None \<Rightarrow> (Inl VIRP_ERR_NULL_PTR, s)
      | Some h \<Rightarrow>
          if s_state s = VIRP_SESSION_ACTIVE \<or> s_state s = VIRP_SESSION_BOUND
          then (Inl VIRP_ERR_SESSION_INVALID, s)
          else
            let s0 = virp_session_reset s;
                n_versions = min (unat (sh_version_count h)) VIRP_MAX_VERSIONS;
                n_algorithms = min (unat (sh_algorithm_count h)) VIRP_MAX_ALGORITHMS;
                sel = select_version 0 (take n_versions (sh_versions h))
            in if sel = 0 then (Inl VIRP_ERR_VERSION_MISMATCH, s0)
               else if \<not> has_algorithm (take n_algorithms (sh_algorithms h))
               then (Inl VIRP_ERR_ALGORITHM_MISMATCH, s0)
               else (case rand_id of
                 None \<Rightarrow> (Inl VIRP_ERR_CRYPTO, s0)
               | Some sid \<Rightarrow>
                   let s1 = s0\<lparr>s_session_id := sid\<rparr>
                   in (case rand_nonce of
                     None \<Rightarrow> (Inl VIRP_ERR_CRYPTO, s1)
                   | Some sn \<Rightarrow>
                       let s2 = s1\<lparr>s_server_nonce := sn,
                                   s_client_nonce := sh_client_nonce h,
                                   s_selected_version := sel,
                                   s_selected_algorithm := VIRP_ALG_HMAC_SHA256,
                                   s_client_id := poke 63 [0]
                                     (poke 0 (take 63 (sh_client_id h)) (s_client_id s1)),
                                   s_state := VIRP_SESSION_NEGOTIATED,
                                   s_hello_ack_sent_at_ns := now_neg\<rparr>;
                           ack = \<lparr>sa_msg_type = VIRP_MSG_SESSION_HELLO_ACK,
                                  sa_server_id = s_server_id s2,
                                  sa_selected_version = sel,
                                  sa_selected_algorithm = VIRP_ALG_HMAC_SHA256,
                                  sa_accepted_channels =
                                    (if sel \<ge> 2 then ucast VIRP_CHANNEL_OC OR ucast VIRP_CHANNEL_IC
                                     else ucast VIRP_CHANNEL_OC),
                                  sa_session_id = s_session_id s2,
                                  sa_client_nonce = s_client_nonce s2,
                                  sa_server_nonce = s_server_nonce s2,
                                  sa_timestamp_ns = now_ack\<rparr>;
                           s3 = append_serialized s2 (virp_serialize_hello h (replicate 256 0));
                           s4 = append_serialized s3 (virp_serialize_hello_ack ack (replicate 256 0))
                       in (Inr ack, s4))))"

definition virp_handle_session_bind ::
    "crypto_lib \<Rightarrow> virp_session_t \<Rightarrow> virp_session_bind_t ptr \<Rightarrow> virp_error_t \<times> virp_session_t" where
  "virp_handle_session_bind C s bind_in =
     (case bind_in of
        None \<Rightarrow> (VIRP_ERR_NULL_PTR, s)
      | Some b \<Rightarrow>
          if s_state s \<noteq> VIRP_SESSION_NEGOTIATED then (VIRP_ERR_SESSION_INVALID, s)
          else if \<not> (virp_consttime_eq (sb_session_id b) (s_session_id s) 16 \<and>
                     virp_consttime_eq (sb_client_nonce b) (s_client_nonce s) 8 \<and>
                     virp_consttime_eq (sb_server_nonce b) (s_server_nonce s) 8)
          then (VIRP_ERR_CONTEXT_MISMATCH, s)
          else if \<not> strncmp_eq (sb_client_id b) (s_client_id s) 64 \<or>
                  \<not> strncmp_eq (sb_server_id b) (s_server_id s) 64
          then (VIRP_ERR_CONTEXT_MISMATCH, s)
          else
            let s1 = append_serialized s (virp_serialize_session_bind b (replicate 256 0));
                s2 = virp_transcript_finalize C s1
            in (VIRP_OK, s2\<lparr>s_state := VIRP_SESSION_BOUND\<rparr>))"

definition virp_handle_session_close :: "virp_session_t \<Rightarrow> virp_session_t" where
  "virp_handle_session_close s = virp_session_reset s"

section \<open>The session as a state machine\<close>

datatype session_event =
    EvInit "bytes ptr"
  | EvHello "virp_session_hello_t" "bytes option" "bytes option" u64 u64
  | EvBind "virp_session_bind_t"
  | EvDerive bytes u64
  | EvTimeouts u64
  | EvClose
  | EvDisconnect

text \<open>What the C types and \<open>RAND_bytes\<close> guarantee of an event: arrays have their sizes.\<close>

fun wf_event :: "session_event \<Rightarrow> bool" where
  "wf_event (EvHello h rid rn _ _) \<longleftrightarrow> wf_session_hello h \<and>
     (\<forall>x. rid = Some x \<longrightarrow> length x = 16) \<and> (\<forall>x. rn = Some x \<longrightarrow> length x = 8)"
| "wf_event (EvBind b) \<longleftrightarrow> wf_session_bind b"
| "wf_event (EvDerive mk _) \<longleftrightarrow> length mk = 32"
| "wf_event _ \<longleftrightarrow> True"

fun session_step :: "crypto_lib \<Rightarrow> virp_session_t \<Rightarrow> session_event \<Rightarrow> virp_session_t" where
  "session_step C s (EvInit sid) = snd (virp_session_init sid)"
| "session_step C s (EvHello h rid rn t1 t2) = snd (virp_handle_hello rid rn t1 t2 s (Some h))"
| "session_step C s (EvBind b) = snd (virp_handle_session_bind C s (Some b))"
| "session_step C s (EvDerive mk now) = snd (virp_session_derive_key C now s (Some mk))"
| "session_step C s (EvTimeouts now) = snd (virp_session_check_timeouts now s)"
| "session_step C s EvClose = virp_handle_session_close s"
| "session_step C s EvDisconnect = virp_session_on_disconnect s"

inductive session_reach :: "crypto_lib \<Rightarrow> virp_session_t \<Rightarrow> bool" for C where
  start: "session_reach C virp_context_new"
| step: "session_reach C s \<Longrightarrow> wf_event e \<Longrightarrow> session_reach C (session_step C s e)"

section \<open>What the handlers do\<close>

lemma select_version_cases:
  "select_version sel vs = (if 2 \<in> set vs then 2 else if 1 \<in> set vs then 1 else sel)"
  by (induction sel vs rule: select_version.induct) auto

lemma has_algorithm_iff: "has_algorithm as \<longleftrightarrow> VIRP_ALG_HMAC_SHA256 \<in> set as"
  by (induction as) auto

definition neg_client_id :: "virp_session_hello_t \<Rightarrow> bytes" where
  "neg_client_id h = take 63 (sh_client_id h) @ [0]"

text \<open>The transcript after a negotiated hello, and what the session then remembers of it.\<close>

definition negotiated :: "virp_session_t \<Rightarrow> virp_session_hello_t \<Rightarrow> virp_session_hello_ack_t \<Rightarrow> bool" where
  "negotiated s h a \<longleftrightarrow>
     wf_session_hello h \<and> wf_session_hello_ack a \<and>
     s_client_id s = neg_client_id h \<and> s_client_nonce s = sh_client_nonce h \<and>
     s_server_id s = sa_server_id a \<and> s_session_id s = sa_session_id a \<and>
     s_client_nonce s = sa_client_nonce a \<and> s_server_nonce s = sa_server_nonce a \<and>
     s_selected_version s = sa_selected_version a \<and>
     sa_selected_version a \<in> {1, 2} \<and> sa_selected_version a \<in> set (sh_versions h) \<and>
     (2 \<in> set (take (unat (sh_version_count h)) (sh_versions h)) \<longrightarrow> sa_selected_version a = 2)"

lemma append_serialized_frame:
  assumes "session_shape s" and "s_transcript_len s + length f \<le> VIRP_TRANSCRIPT_BUF"
    and "map_option (\<lambda>(b, n). take n b) r = Some f"
  shows "append_serialized s r =
    s\<lparr>s_transcript_buf := poke (s_transcript_len s) f (s_transcript_buf s),
      s_transcript_len := s_transcript_len s + length f\<rparr>"
  using assms append_transcript(1) [OF assms(1,2)] by (auto simp: append_serialized_def)

definition transcript :: "virp_session_t \<Rightarrow> bytes" where
  "transcript s = take (s_transcript_len s) (s_transcript_buf s)"

lemma append_frame_effect:
  assumes "session_shape s" and "s_transcript_len s + length f \<le> VIRP_TRANSCRIPT_BUF"
    and "map_option (\<lambda>(b, n). take n b) r = Some f"
  defines "s' \<equiv> append_serialized s r"
  shows "session_shape s'" "transcript s' = transcript s @ f"
    "s_transcript_len s' = s_transcript_len s + length f"
    "\<exists>buf n. s' = s\<lparr>s_transcript_buf := buf, s_transcript_len := n\<rparr>"
proof -
  note e = append_serialized_frame [OF assms(1-3), folded s'_def]
  note t = append_transcript(2,3) [OF assms(1,2)]
  show "session_shape s'"
    using assms(1,2) t(2) by (simp add: e session_shape_def)
  show "transcript s' = transcript s @ f"
    using t(1) by (simp add: e transcript_def)
  show "s_transcript_len s' = s_transcript_len s + length f"
    by (simp add: e)
  show "\<exists>buf n. s' = s\<lparr>s_transcript_buf := buf, s_transcript_len := n\<rparr>"
    using e by blast
qed

text \<open>A hello ends in one of three ways: refused with the session untouched, refused after
  the reset, or answered.\<close>

definition hello_session ::
    "virp_session_t \<Rightarrow> virp_session_hello_t \<Rightarrow> u8 \<Rightarrow> bytes \<Rightarrow> bytes \<Rightarrow> u64 \<Rightarrow> virp_session_t" where
  "hello_session s h sel sid sn now =
     (virp_session_reset s)
       \<lparr>s_session_id := sid, s_server_nonce := sn, s_client_nonce := sh_client_nonce h,
        s_selected_version := sel, s_selected_algorithm := VIRP_ALG_HMAC_SHA256,
        s_client_id := neg_client_id h, s_state := VIRP_SESSION_NEGOTIATED,
        s_hello_ack_sent_at_ns := now\<rparr>"

lemma reset_client_id: "s_client_id (virp_session_reset s) = replicate 64 0"
  by (simp add: virp_session_reset_def Let_def zero_session_def)

lemma poke_client_id:
  "length c = 64 \<Longrightarrow> poke 63 [0] (poke 0 (take 63 c) (replicate 64 (0::byte))) = take 63 c @ [0]"
  by (simp add: poke_def)

lemma handle_hello_Inr:
  assumes r: "virp_handle_hello rid rn t1 t2 s (Some h) = (Inr a, s')"
    and wf: "wf_session_hello h"
  obtains sid sn sel where
    "rid = Some sid" "rn = Some sn"
    "s_state s \<noteq> VIRP_SESSION_ACTIVE" "s_state s \<noteq> VIRP_SESSION_BOUND"
    "sel = select_version 0 (take (unat (sh_version_count h)) (sh_versions h))" "sel \<noteq> 0"
    "has_algorithm (take (unat (sh_algorithm_count h)) (sh_algorithms h))"
    "a = \<lparr>sa_msg_type = VIRP_MSG_SESSION_HELLO_ACK, sa_server_id = s_server_id (virp_session_reset s),
          sa_selected_version = sel, sa_selected_algorithm = VIRP_ALG_HMAC_SHA256,
          sa_accepted_channels = (if sel \<ge> 2 then ucast VIRP_CHANNEL_OC OR ucast VIRP_CHANNEL_IC
                                  else ucast VIRP_CHANNEL_OC),
          sa_session_id = sid, sa_client_nonce = sh_client_nonce h, sa_server_nonce = sn,
          sa_timestamp_ns = t2\<rparr>"
    "s' = append_serialized
            (append_serialized (hello_session s h sel sid sn t1)
              (virp_serialize_hello h (replicate 256 0)))
            (virp_serialize_hello_ack a (replicate 256 0))"
proof -
  have m: "take (min n 8) (sh_versions h) = take n (sh_versions h)"
    "take (min n 8) (sh_algorithms h) = take n (sh_algorithms h)" for n
    using wf by (simp_all add: wf_session_hello_def min_def)
  have c: "poke 63 [0] (poke 0 (take 63 (sh_client_id h)) (replicate 64 0)) = neg_client_id h"
    using wf by (simp add: poke_client_id wf_session_hello_def neg_client_id_def)
  show thesis
    using r
    by (auto simp: virp_handle_hello_def Let_def m reset_client_id c hello_session_def
        simp del: VIRP_CHANNEL_OC_def VIRP_CHANNEL_IC_def
        split: if_splits option.splits intro!: that)
qed

lemma reset_fields [simp]:
  "s_state (virp_session_reset s) = VIRP_SESSION_DISCONNECTED"
  "s_session_key_valid (virp_session_reset s) = False"
  "s_transcript_len (virp_session_reset s) = 0"
  "s_generation (virp_session_reset s) = s_generation s + 1"
  by (simp_all add: virp_session_reset_def Let_def zero_session_def)

lemma set_take_in: "x \<in> set (take n xs) \<Longrightarrow> x \<in> set xs"
  by (meson in_set_takeD)

lemma handle_hello_effect:
  assumes r: "virp_handle_hello rid rn t1 t2 s (Some h) = (Inr a, s')"
    and e: "wf_event (EvHello h rid rn t1 t2)" and sh: "session_shape s"
  shows "session_shape s'" "s_state s' = VIRP_SESSION_NEGOTIATED" "negotiated s' h a"
    "transcript s' = hello_frame h @ hello_ack_frame a" "s_transcript_len s' = 222"
    "\<not> s_session_key_valid s'" "s_generation s' = s_generation s + 1"
proof -
  have wf: "wf_session_hello h"
    using e by simp
  obtain sid sn sel where o: "rid = Some sid" "rn = Some sn"
    "sel = select_version 0 (take (unat (sh_version_count h)) (sh_versions h))" "sel \<noteq> 0"
    and a: "a = \<lparr>sa_msg_type = VIRP_MSG_SESSION_HELLO_ACK,
          sa_server_id = s_server_id (virp_session_reset s),
          sa_selected_version = sel, sa_selected_algorithm = VIRP_ALG_HMAC_SHA256,
          sa_accepted_channels = (if sel \<ge> 2 then ucast VIRP_CHANNEL_OC OR ucast VIRP_CHANNEL_IC
                                  else ucast VIRP_CHANNEL_OC),
          sa_session_id = sid, sa_client_nonce = sh_client_nonce h, sa_server_nonce = sn,
          sa_timestamp_ns = t2\<rparr>"
    and s': "s' = append_serialized
            (append_serialized (hello_session s h sel sid sn t1)
              (virp_serialize_hello h (replicate 256 0)))
            (virp_serialize_hello_ack a (replicate 256 0))"
    using handle_hello_Inr [OF r wf] by metis
  let ?s1 = "hello_session s h sel sid sn t1"
  have p: "padded_id 64 (s_server_id s)"
    using sh by (simp add: session_shape_def)
  have sr: "session_shape (virp_session_reset s)"
    using p by (rule shape_reset)
  have s1: "session_shape ?s1" "s_transcript_len ?s1 = 0"
    using sr e wf o(1,2)
    by (simp_all add: session_shape_def hello_session_def neg_client_id_def wf_session_hello_def)
  have wa: "wf_session_hello_ack a"
    using sr e wf o(1,2) padded_length
    by (simp add: a wf_session_hello_ack_def session_shape_def wf_session_hello_def)
  have lf: "length (hello_frame h) = 107" "length (hello_ack_frame a) = 115"
    using fr_hello.frame_length [OF wf] fr_ack.frame_length [OF wa] by simp_all
  have f1: "map_option (\<lambda>(b, n). take n b) (virp_serialize_hello h (replicate 256 0)) = Some (hello_frame h)"
    and f2: "map_option (\<lambda>(b, n). take n b) (virp_serialize_hello_ack a (replicate 256 0)) = Some (hello_ack_frame a)"
    by (simp_all add: fr_hello.ser_take [OF wf] fr_ack.ser_take [OF wa])
  define s2 where "s2 = append_serialized ?s1 (virp_serialize_hello h (replicate 256 0))"
  note e1 = append_frame_effect [OF s1(1) _ f1, folded s2_def]
  have l1: "s_transcript_len ?s1 + length (hello_frame h) \<le> VIRP_TRANSCRIPT_BUF"
    by (simp add: s1 lf VIRP_TRANSCRIPT_BUF_def)
  have l2: "s_transcript_len s2 + length (hello_ack_frame a) \<le> VIRP_TRANSCRIPT_BUF"
    by (simp add: e1(3) [OF l1] s1 lf VIRP_TRANSCRIPT_BUF_def)
  note e2 = append_frame_effect [OF e1(1) [OF l1] l2 f2, folded s2_def, folded s' [folded s2_def]]
  obtain buf n buf' n' where
    u: "s' = ?s1\<lparr>s_transcript_buf := buf, s_transcript_len := n, s_transcript_buf := buf', s_transcript_len := n'\<rparr>"
    using e1(4) [OF l1] e2(4) by metis
  show "session_shape s'"
    by (rule e2(1))
  show "s_transcript_len s' = 222"
    using e2(3) e1(3) [OF l1] lf s1 by simp
  show "transcript s' = hello_frame h @ hello_ack_frame a"
    using e2(2) e1(2) [OF l1] s1(2) by (simp add: transcript_def)
  show "s_state s' = VIRP_SESSION_NEGOTIATED" "\<not> s_session_key_valid s'"
    "s_generation s' = s_generation s + 1"
    by (simp_all add: u hello_session_def)
  show "negotiated s' h a"
    using wf wa o(3,4) unfolding negotiated_def
    by (auto simp: u hello_session_def a select_version_cases dest: set_take_in split: if_splits)
qed

lemma handle_hello_error:
  assumes "virp_handle_hello rid rn t1 t2 s (Some h) = (Inl err, s')"
  shows "s' = s \<or> (\<exists>sid. s' = (virp_session_reset s)\<lparr>s_session_id := sid\<rparr> \<and>
           (sid = replicate 16 0 \<or> rid = Some sid))"
proof -
  have z: "virp_session_reset s = (virp_session_reset s)\<lparr>s_session_id := replicate 16 0\<rparr>"
    by (simp add: virp_session_reset_def Let_def zero_session_def)
  show ?thesis
    using assms z
    by (auto simp: virp_handle_hello_def Let_def split: if_splits option.splits)
qed

text \<open>A bind names the negotiated session: identifiers and nonces octet for octet, the
  identities as C strings.\<close>

definition binds :: "virp_session_t \<Rightarrow> virp_session_bind_t \<Rightarrow> bool" where
  "binds s b \<longleftrightarrow> wf_session_bind b \<and>
     sb_session_id b = s_session_id s \<and> sb_client_nonce b = s_client_nonce s \<and>
     sb_server_nonce b = s_server_nonce s \<and>
     cstr 64 (sb_client_id b) = cstr 64 (s_client_id s) \<and>
     cstr 64 (sb_server_id b) = cstr 64 (s_server_id s)"

lemma bind_accepts_iff:
  assumes "session_shape s" and "wf_session_bind b"
  shows "fst (virp_handle_session_bind C s (Some b)) = VIRP_OK \<longleftrightarrow>
    s_state s = VIRP_SESSION_NEGOTIATED \<and> binds s b"
  using assms
  by (auto simp: virp_handle_session_bind_def binds_def strncmp_eq_def session_shape_def
      wf_session_bind_def Let_def)

lemma bind_refused: "fst (virp_handle_session_bind C s b) \<noteq> VIRP_OK \<Longrightarrow>
    snd (virp_handle_session_bind C s b) = s"
  by (auto simp: virp_handle_session_bind_def Let_def split: option.splits if_splits)

lemma bind_effect:
  assumes ok: "fst (virp_handle_session_bind C s (Some b)) = VIRP_OK"
    and sh: "session_shape s" and wf: "wf_session_bind b" and l: "s_transcript_len s = 222"
    and sha: "sha_len C"
  defines "s' \<equiv> snd (virp_handle_session_bind C s (Some b))"
  shows "session_shape s'" "transcript s' = transcript s @ session_bind_frame b"
    "\<exists>buf n. s' = s\<lparr>s_transcript_buf := buf, s_transcript_len := n,
        s_transcript_hash := SHA256 C (transcript s'), s_state := VIRP_SESSION_BOUND\<rparr>"
proof -
  let ?s1 = "append_serialized s (virp_serialize_session_bind b (replicate 256 0))"
  have lf: "length (session_bind_frame b) = 173"
    using fr_bind.frame_length [OF wf] by simp
  have f: "map_option (\<lambda>(b, n). take n b) (virp_serialize_session_bind b (replicate 256 0)) =
      Some (session_bind_frame b)"
    by (simp add: fr_bind.ser_take [OF wf])
  have b: "s_transcript_len s + length (session_bind_frame b) \<le> VIRP_TRANSCRIPT_BUF"
    by (simp add: l lf VIRP_TRANSCRIPT_BUF_def)
  note e = append_frame_effect [OF sh b f]
  have s': "s' = (virp_transcript_finalize C ?s1)\<lparr>s_state := VIRP_SESSION_BOUND\<rparr>"
    using ok unfolding s'_def
    by (auto simp: virp_handle_session_bind_def Let_def split: if_splits)
  show "session_shape s'"
    using e(1) sha by (simp add: s' session_shape_def virp_transcript_finalize_def sha_len_def)
  show t: "transcript s' = transcript s @ session_bind_frame b"
    using e(2) by (simp add: s' transcript_def virp_transcript_finalize_def)
  have h: "SHA256 C (transcript s') = s_transcript_hash s'"
    by (simp add: s' transcript_def virp_transcript_finalize_def)
  obtain buf n where "?s1 = s\<lparr>s_transcript_buf := buf, s_transcript_len := n\<rparr>"
    using e(4) by blast
  then have "s' = s\<lparr>s_transcript_buf := buf, s_transcript_len := n,
        s_transcript_hash := s_transcript_hash s', s_state := VIRP_SESSION_BOUND\<rparr>"
    by (simp add: s' virp_transcript_finalize_def)
  then show "\<exists>buf n. s' = s\<lparr>s_transcript_buf := buf, s_transcript_len := n,
        s_transcript_hash := SHA256 C (transcript s'), s_state := VIRP_SESSION_BOUND\<rparr>"
    unfolding h by blast
qed

section \<open>The invariant of a session\<close>

definition negotiated_inv :: "virp_session_t \<Rightarrow> bool" where
  "negotiated_inv s \<longleftrightarrow> (\<exists>h a. negotiated s h a \<and> s_transcript_len s = 222 \<and>
     transcript s = hello_frame h @ hello_ack_frame a)"

definition bound_inv :: "crypto_lib \<Rightarrow> virp_session_t \<Rightarrow> bool" where
  "bound_inv C s \<longleftrightarrow> (\<exists>h a b. negotiated s h a \<and> binds s b \<and>
     transcript s = hello_frame h @ hello_ack_frame a @ session_bind_frame b \<and>
     s_transcript_hash s = SHA256 C (transcript s))"

definition keyed_inv :: "crypto_lib \<Rightarrow> virp_session_t \<Rightarrow> bool" where
  "keyed_inv C s \<longleftrightarrow> (\<exists>mk. length mk = 32 \<and>
     virp_hkdf_sha256 C (Some mk) (Some (s_transcript_hash s)) (Some (be64 (s_generation s))) =
       Inr (s_session_key s))"

definition session_inv :: "crypto_lib \<Rightarrow> virp_session_t \<Rightarrow> bool" where
  "session_inv C s \<longleftrightarrow> session_shape s \<and>
     (s_session_key_valid s \<longleftrightarrow> s_state s = VIRP_SESSION_ACTIVE) \<and>
     (case s_state s of
        VIRP_SESSION_DISCONNECTED \<Rightarrow> True
      | VIRP_SESSION_NEGOTIATED \<Rightarrow> negotiated_inv s
      | VIRP_SESSION_BOUND \<Rightarrow> bound_inv C s
      | VIRP_SESSION_ACTIVE \<Rightarrow> bound_inv C s \<and> keyed_inv C s
      | _ \<Rightarrow> False)"

lemma inv_reset: "session_shape s \<Longrightarrow> session_inv C (virp_session_reset s)"
  using shape_reset by (simp add: session_inv_def session_shape_def)

lemma inv_init: "session_inv C (snd (virp_session_init sid))"
proof -
  obtain x where "padded_id 64 x" "snd (virp_session_init sid) = zero_session\<lparr>s_server_id := x\<rparr>"
    using init_session by blast
  then show ?thesis
    using shape_zero [of x] by (simp add: session_inv_def zero_session_def)
qed

lemma inv_hello:
  assumes "session_inv C s" and "wf_event (EvHello h rid rn t1 t2)"
  shows "session_inv C (session_step C s (EvHello h rid rn t1 t2))"
proof (cases "virp_handle_hello rid rn t1 t2 s (Some h)")
  case (Pair r s')
  have sh: "session_shape s"
    using assms(1) by (simp add: session_inv_def)
  show ?thesis
  proof (cases r)
    case (Inr a)
    note e = handle_hello_effect [OF Pair [unfolded Inr] assms(2) sh]
    show ?thesis
      using e by (auto simp: Pair session_inv_def negotiated_inv_def)
  next
    case (Inl err)
    have "length x = 16" if "rid = Some x" for x
      using assms(2) that by simp
    then have "session_inv C ((virp_session_reset s)\<lparr>s_session_id := sid\<rparr>)"
      if "sid = replicate 16 0 \<or> rid = Some sid" for sid
      using that inv_reset [OF sh, of C] by (auto simp: session_inv_def session_shape_def)
    then show ?thesis
      using handle_hello_error [OF Pair [unfolded Inl]] assms(1) by (auto simp: Pair)
  qed
qed

lemma inv_bind:
  assumes inv: "session_inv C s" and wf: "wf_session_bind b" and sha: "sha_len C"
  shows "session_inv C (session_step C s (EvBind b))"
proof (cases "fst (virp_handle_session_bind C s (Some b)) = VIRP_OK")
  case True
  have sh: "session_shape s"
    using inv by (simp add: session_inv_def)
  have st: "s_state s = VIRP_SESSION_NEGOTIATED" "binds s b"
    using True bind_accepts_iff [OF sh wf] by blast+
  then obtain h a where n: "negotiated s h a" "s_transcript_len s = 222"
      "transcript s = hello_frame h @ hello_ack_frame a"
    using inv by (auto simp: session_inv_def negotiated_inv_def)
  note e = bind_effect [OF True sh wf n(2) sha]
  obtain buf k where u: "session_step C s (EvBind b) = s\<lparr>s_transcript_buf := buf, s_transcript_len := k,
        s_transcript_hash := SHA256 C (transcript (session_step C s (EvBind b))),
        s_state := VIRP_SESSION_BOUND\<rparr>"
    using e(3) by auto
  let ?t = "session_step C s (EvBind b)"
  have "negotiated ?t h a" "binds ?t b" "s_transcript_hash ?t = SHA256 C (transcript ?t)"
    "s_state ?t = VIRP_SESSION_BOUND" "\<not> s_session_key_valid ?t"
    using n(1) st inv by (subst u, simp add: negotiated_def binds_def session_inv_def)+
  then show ?thesis
    using e(1,2) n(3) by (auto simp: session_inv_def bound_inv_def)
next
  case False
  then show ?thesis
    using inv bind_refused [OF False] by simp
qed

lemma hkdf_length:
  "hmac_len C \<Longrightarrow> virp_hkdf_sha256 C ikm salt info = Inr k \<Longrightarrow> length k = 32"
  by (auto simp: virp_hkdf_sha256_def hmac_len_def Let_def split: option.splits if_splits)

lemma inv_derive:
  assumes inv: "session_inv C s" and mk: "length mk = 32" and hm: "hmac_len C"
  shows "session_inv C (session_step C s (EvDerive mk now))"
proof (cases "fst (virp_session_derive_key C now s (Some mk)) = VIRP_OK \<and>
    s_state s = VIRP_SESSION_BOUND")
  case False
  then have "session_step C s (EvDerive mk now) = s"
    by (auto simp: virp_session_derive_key_def split: sum.splits)
  then show ?thesis
    using inv by simp
next
  case True
  show ?thesis
  proof (cases "virp_hkdf_sha256 C (Some mk) (Some (s_transcript_hash s)) (Some (be64 (s_generation s)))")
    case (Inl err)
    then show ?thesis
      using inv by (simp add: virp_session_derive_key_def)
  next
    case (Inr k)
    have len: "length k = 32"
      using hkdf_length [OF hm Inr] .
    let ?t = "session_step C s (EvDerive mk now)"
    have u: "?t = s\<lparr>s_session_key := k, s_session_key_valid := True,
        s_state := VIRP_SESSION_ACTIVE, s_established_at_ns := now\<rparr>"
      using True Inr by (simp add: virp_session_derive_key_def)
    have "bound_inv C ?t"
      using inv True unfolding u
      by (simp add: session_inv_def bound_inv_def negotiated_def binds_def transcript_def)
    moreover have "keyed_inv C ?t"
      using Inr mk unfolding u keyed_inv_def by auto
    ultimately show ?thesis
      using inv len unfolding u by (simp add: session_inv_def session_shape_def)
  qed
qed

lemma timeouts_cases:
  "snd (virp_session_check_timeouts now s) \<in> {s, virp_session_reset s}"
  by (simp add: virp_session_check_timeouts_def)

lemma inv_timeouts: "session_inv C s \<Longrightarrow> session_inv C (session_step C s (EvTimeouts now))"
proof -
  assume i: "session_inv C s"
  then have "session_inv C (virp_session_reset s)"
    using inv_reset session_inv_def by blast
  then show ?thesis
    using i timeouts_cases [of now s] by (metis insertE singletonD session_step.simps(5))
qed

lemma session_step_inv:
  assumes "hmac_len C" "sha_len C" "session_inv C s" "wf_event e"
  shows "session_inv C (session_step C s e)"
proof (cases e)
  case (EvInit sid)
  then show ?thesis using inv_init by simp
next
  case (EvHello h rid rn t1 t2)
  then show ?thesis using inv_hello assms(3,4) by blast
next
  case (EvBind b)
  then show ?thesis using inv_bind [OF assms(3) _ assms(2)] assms(4) by simp
next
  case (EvDerive mk now)
  then show ?thesis using inv_derive [OF assms(3) _ assms(1)] assms(4) by simp
next
  case (EvTimeouts now)
  then show ?thesis using inv_timeouts assms(3) by blast
next
  case EvClose
  then show ?thesis
    using inv_reset assms(3) by (simp add: virp_handle_session_close_def session_inv_def)
next
  case EvDisconnect
  then show ?thesis
    using inv_reset assms(3) by (simp add: virp_session_on_disconnect_def session_inv_def)
qed

lemma session_reach_inv:
  assumes "session_reach C s" and "hmac_len C" and "sha_len C"
  shows "session_inv C s"
  using assms(1)
proof (induction rule: session_reach.induct)
  case start
  then show ?case
    using shape_new by (simp add: session_inv_def virp_context_new_def zero_session_def)
next
  case (step s e)
  then show ?case
    using session_step_inv assms(2,3) by blast
qed

text \<open>Which call leads where: the only ways into each state.\<close>

lemma bind_state:
  "s_state (snd (virp_handle_session_bind C s b)) = s_state s \<or>
   s_state s = VIRP_SESSION_NEGOTIATED \<and>
   s_state (snd (virp_handle_session_bind C s b)) = VIRP_SESSION_BOUND"
  by (auto simp: virp_handle_session_bind_def Let_def split: option.splits)

lemma derive_state:
  "s_state (snd (virp_session_derive_key C now s mk)) = s_state s \<or>
   s_state s = VIRP_SESSION_BOUND \<and>
   s_state (snd (virp_session_derive_key C now s mk)) = VIRP_SESSION_ACTIVE"
  by (auto simp: virp_session_derive_key_def split: option.splits sum.splits)

lemma init_state: "s_state (snd (virp_session_init sid)) = VIRP_SESSION_DISCONNECTED"
  using init_session [of sid] by (auto simp: zero_session_def)

text \<open>The transitions of the machine: what a call can change the state to.\<close>

fun next_states :: "virp_session_state_t \<Rightarrow> session_event \<Rightarrow> virp_session_state_t set" where
  "next_states st (EvHello _ _ _ _ _) =
     (if st \<in> {VIRP_SESSION_ACTIVE, VIRP_SESSION_BOUND} then {st}
      else {VIRP_SESSION_DISCONNECTED, VIRP_SESSION_NEGOTIATED})"
| "next_states st (EvBind _) =
     (if st = VIRP_SESSION_NEGOTIATED then {st, VIRP_SESSION_BOUND} else {st})"
| "next_states st (EvDerive _ _) =
     (if st = VIRP_SESSION_BOUND then {st, VIRP_SESSION_ACTIVE} else {st})"
| "next_states st (EvTimeouts _) =
     (if st \<in> {VIRP_SESSION_NEGOTIATED, VIRP_SESSION_ACTIVE} then {st, VIRP_SESSION_DISCONNECTED}
      else {st})"
| "next_states st _ = {VIRP_SESSION_DISCONNECTED}"

lemma hello_locked:
  "s_state s \<in> {VIRP_SESSION_ACTIVE, VIRP_SESSION_BOUND} \<Longrightarrow>
   virp_handle_hello rid rn t1 t2 s (Some h) = (Inl VIRP_ERR_SESSION_INVALID, s)"
  by (auto simp: virp_handle_hello_def)

lemma hello_unlocked:
  assumes "s_state s \<notin> {VIRP_SESSION_ACTIVE, VIRP_SESSION_BOUND}"
  shows "s_state (snd (virp_handle_hello rid rn t1 t2 s (Some h))) \<in>
     {VIRP_SESSION_DISCONNECTED, VIRP_SESSION_NEGOTIATED}"
proof -
  have "s_state (append_serialized x r) = s_state x" for x r
    by (auto simp: append_serialized_def virp_transcript_append_def split: option.splits)
  then show ?thesis
    using assms by (auto simp: virp_handle_hello_def Let_def split: option.splits)
qed

lemma session_step_states: "s_state (session_step C s e) \<in> next_states (s_state s) e"
proof (cases e)
  case (EvHello h rid rn t1 t2)
  then show ?thesis
    using hello_locked [of s] hello_unlocked [of s] by auto
next
  case (EvBind b)
  then show ?thesis
    using bind_state [of C s "Some b"] by auto
next
  case (EvDerive mk now)
  then show ?thesis
    using derive_state [of C now s "Some mk"] by auto
qed (simp_all add: virp_session_check_timeouts_def virp_handle_session_close_def
       virp_session_on_disconnect_def init_state)

text \<open>A bind recorded in an earlier handshake is refused once the session identifier differs.\<close>

lemma stale_bind:
  assumes "session_shape s" and "wf_session_bind b" and "sb_session_id b \<noteq> s_session_id s"
  shows "fst (virp_handle_session_bind C s (Some b)) \<noteq> VIRP_OK"
    "snd (virp_handle_session_bind C s (Some b)) = s"
proof -
  show "fst (virp_handle_session_bind C s (Some b)) \<noteq> VIRP_OK"
    using bind_accepts_iff [OF assms(1,2)] assms(3) by (simp add: binds_def)
  then show "snd (virp_handle_session_bind C s (Some b)) = s"
    by (rule bind_refused)
qed

section \<open>A handshake that is carried through\<close>

text \<open>The bind of a client that repeats what the session negotiated.\<close>

definition echo_bind :: "virp_session_t \<Rightarrow> u64 \<Rightarrow> virp_session_bind_t" where
  "echo_bind s ts = \<lparr>sb_msg_type = 0x42, sb_session_id = s_session_id s, sb_client_id = s_client_id s,
     sb_server_id = s_server_id s, sb_client_nonce = s_client_nonce s,
     sb_server_nonce = s_server_nonce s, sb_timestamp_ns = ts\<rparr>"

lemma echo_binds: "session_shape s \<Longrightarrow> wf_session_bind (echo_bind s ts) \<and> binds s (echo_bind s ts)"
  using padded_length by (auto simp: echo_bind_def binds_def wf_session_bind_def session_shape_def)

lemma hello_succeeds:
  assumes "s_state s \<notin> {VIRP_SESSION_ACTIVE, VIRP_SESSION_BOUND}" and wf: "wf_session_hello h"
    and "1 \<in> set (take (unat (sh_version_count h)) (sh_versions h)) \<or>
         2 \<in> set (take (unat (sh_version_count h)) (sh_versions h))"
    and "VIRP_ALG_HMAC_SHA256 \<in> set (take (unat (sh_algorithm_count h)) (sh_algorithms h))"
  shows "\<exists>a s'. virp_handle_hello (Some sid) (Some sn) t1 t2 s (Some h) = (Inr a, s')"
proof -
  have "take (min n 8) (sh_versions h) = take n (sh_versions h)"
    "take (min n 8) (sh_algorithms h) = take n (sh_algorithms h)" for n
    using wf by (simp_all add: wf_session_hello_def min_def)
  then show ?thesis
    using assms by (auto simp: virp_handle_hello_def Let_def select_version_cases has_algorithm_iff)
qed

lemma hkdf_total:
  assumes "\<And>k d. HMAC C k d \<noteq> None" and "length info \<le> 256"
  shows "\<exists>k. virp_hkdf_sha256 C (Some ikm) (Some salt) (Some info) = Inr k"
proof -
  let ?salt = "if length salt = 0 then replicate 32 0 else salt"
  obtain prk where "HMAC C ?salt ikm = Some prk"
    using assms(1) [of ?salt ikm] by blast
  moreover obtain okm where "HMAC C prk (info @ [1]) = Some okm"
    using assms(1) [of prk "info @ [1]"] by blast
  ultimately show ?thesis
    using assms(2) by (simp add: virp_hkdf_sha256_def Let_def)
qed

lemma handshake_runs:
  assumes sh: "session_shape s" and st: "s_state s \<notin> {VIRP_SESSION_ACTIVE, VIRP_SESSION_BOUND}"
    and C: "sha_len C" "\<And>k d. HMAC C k d \<noteq> None"
    and e: "wf_event (EvHello h (Some sid) (Some sn) t1 t2)"
    and v: "1 \<in> set (take (unat (sh_version_count h)) (sh_versions h)) \<or>
            2 \<in> set (take (unat (sh_version_count h)) (sh_versions h))"
    and a: "VIRP_ALG_HMAC_SHA256 \<in> set (take (unat (sh_algorithm_count h)) (sh_algorithms h))"
    and s1: "s1 = session_step C s (EvHello h (Some sid) (Some sn) t1 t2)"
    and s2: "s2 = session_step C s1 (EvBind (echo_bind s1 ts))"
    and s3: "s3 = session_step C s2 (EvDerive mk now)"
  shows "s_state s1 = VIRP_SESSION_NEGOTIATED \<and> s_session_id s1 = sid \<and> wf_event (EvBind (echo_bind s1 ts)) \<and>
    s_state s2 = VIRP_SESSION_BOUND \<and> s_state s3 = VIRP_SESSION_ACTIVE \<and> s_session_key_valid s3 \<and>
    s_session_id s3 = sid \<and> s_server_nonce s3 = sn \<and> s_client_nonce s3 = sh_client_nonce h"
proof -
  have wf: "wf_session_hello h"
    using e by simp
  obtain ack s1' where r: "virp_handle_hello (Some sid) (Some sn) t1 t2 s (Some h) = (Inr ack, s1')"
    using hello_succeeds [OF st wf v a] by blast
  have s1': "s1' = s1"
    using r by (simp add: s1)
  note h1 = handle_hello_effect [OF r e sh, unfolded s1']
  have ack: "sa_session_id ack = sid \<and> sa_server_nonce ack = sn"
    by (rule handle_hello_Inr [OF r wf]) simp
  have ids: "s_session_id s1 = sid" "s_server_nonce s1 = sn" "s_client_nonce s1 = sh_client_nonce h"
    using h1(3) ack by (simp_all add: negotiated_def)
  note b = echo_binds [OF h1(1), of ts]
  have ok: "fst (virp_handle_session_bind C s1 (Some (echo_bind s1 ts))) = VIRP_OK"
    using bind_accepts_iff [OF h1(1), of "echo_bind s1 ts" C] b h1(2) by blast
  obtain buf n x where u2: "s2 = s1\<lparr>s_transcript_buf := buf, s_transcript_len := n,
      s_transcript_hash := x, s_state := VIRP_SESSION_BOUND\<rparr>"
    using bind_effect(3) [OF ok h1(1) conjunct1 [OF b] h1(5) C(1)] s2 by auto
  obtain k where k: "virp_hkdf_sha256 C (Some mk) (Some (s_transcript_hash s2))
      (Some (be64 (s_generation s2))) = Inr k"
    using hkdf_total [OF C(2), of "be64 (s_generation s2)" mk "s_transcript_hash s2"] by auto
  have "s_state s3 = VIRP_SESSION_ACTIVE \<and> s_session_key_valid s3 \<and> s_session_id s3 = s_session_id s2 \<and>
      s_server_nonce s3 = s_server_nonce s2 \<and> s_client_nonce s3 = s_client_nonce s2"
    using k u2 unfolding s3 by (simp add: virp_session_derive_key_def)
  then show ?thesis
    using h1(2) b ids u2 by simp
qed

text \<open>No call of the handshake sets the activity time; only signing an observation does.\<close>

lemma step_activity:
  assumes "s_last_activity_ns s = 0"
  shows "s_last_activity_ns (session_step C s e) = 0"
proof -
  have a: "s_last_activity_ns (append_serialized x r) = s_last_activity_ns x" for x r
    by (auto simp: append_serialized_def virp_transcript_append_def split: option.splits)
  have z: "s_last_activity_ns (virp_session_reset x) = 0" for x
    by (simp add: virp_session_reset_def Let_def zero_session_def)
  show ?thesis
  proof (cases e)
    case (EvInit sid)
    then show ?thesis
      using init_session [of sid] by (auto simp: zero_session_def)
  next
    case (EvHello h rid rn t1 t2)
    then show ?thesis
      using assms by (auto simp: virp_handle_hello_def Let_def a z split: option.splits)
  next
    case (EvBind b)
    then show ?thesis
      using assms by (simp add: virp_handle_session_bind_def Let_def a virp_transcript_finalize_def)
  next
    case (EvDerive mk now)
    then show ?thesis
      using assms by (auto simp: virp_session_derive_key_def split: sum.splits)
  qed (use assms z in \<open>simp_all add: virp_session_check_timeouts_def virp_handle_session_close_def
         virp_session_on_disconnect_def\<close>)
qed

lemma reach_activity: "session_reach C s \<Longrightarrow> s_last_activity_ns s = 0"
proof (induction rule: session_reach.induct)
  case start
  then show ?case by (simp add: virp_context_new_def zero_session_def)
next
  case (step s e)
  then show ?case by (intro step_activity)
qed

end
