(* ===== verification/Virp_Text.thy ===== *)
theory Virp_Text
  imports Virp_Prelude
begin

text \<open>
  C strings and the parts of the C library that read and print them: character classes,
  numbers as digits, the conversions of \<open>sscanf\<close>, \<open>fgets\<close>, comparison without case. A C
  string is a \<open>string\<close> without NUL characters.
\<close>

section \<open>Characters\<close>

definition CR :: char where [simp]: "CR = CHR 0x0D"
definition LF :: char where [simp]: "LF = CHR 0x0A"
definition TAB :: char where [simp]: "TAB = CHR 0x09"

definition is_space :: "char \<Rightarrow> bool" where
  "is_space c \<longleftrightarrow> c = CHR '' '' \<or> (9 \<le> (of_char c :: nat) \<and> (of_char c :: nat) \<le> 13)"

lemma is_space_blank: "is_space (CHR '' '')"
  by (simp add: is_space_def)

definition is_dec :: "char \<Rightarrow> bool" where
  "is_dec c \<longleftrightarrow> 48 \<le> (of_char c :: nat) \<and> (of_char c :: nat) \<le> 57"

definition is_upper :: "char \<Rightarrow> bool" where
  "is_upper c \<longleftrightarrow> 65 \<le> (of_char c :: nat) \<and> (of_char c :: nat) \<le> 90"

definition is_lower :: "char \<Rightarrow> bool" where
  "is_lower c \<longleftrightarrow> 97 \<le> (of_char c :: nat) \<and> (of_char c :: nat) \<le> 122"

definition is_alnum :: "char \<Rightarrow> bool" where
  "is_alnum c \<longleftrightarrow> is_dec c \<or> is_upper c \<or> is_lower c"

definition to_lower :: "char \<Rightarrow> char" where
  "to_lower c = (if is_upper c then char_of ((of_char c :: nat) + 32) else c)"

text \<open>\<open>strcasecmp\<close> and \<open>strncasecmp\<close> as equality tests; \<open>strstr\<close> as the offset of the first
  occurrence.\<close>

definition strcaseeq :: "string \<Rightarrow> string \<Rightarrow> bool" where
  "strcaseeq a b \<longleftrightarrow> map to_lower a = map to_lower b"

definition strncaseeq :: "nat \<Rightarrow> string \<Rightarrow> string \<Rightarrow> bool" where
  "strncaseeq n a b \<longleftrightarrow> strcaseeq (take n a) (take n b)"

definition starts_with :: "string \<Rightarrow> string \<Rightarrow> bool" where
  "starts_with p s \<longleftrightarrow> take (length p) s = p"

fun strstr :: "string \<Rightarrow> string \<Rightarrow> nat option" where
  "strstr [] pat = (if pat = [] then Some 0 else None)"
| "strstr (c # cs) pat = (if starts_with pat (c # cs) then Some 0 else map_option Suc (strstr cs pat))"

lemma starts_withI: "starts_with p (p @ s)"
  by (simp add: starts_with_def)

lemma starts_with_iff: "starts_with p s \<longleftrightarrow> (\<exists>r. s = p @ r)"
  by (auto simp: starts_with_def) (metis append_take_drop_id)

section \<open>Characters as octets\<close>

definition string_bytes :: "string \<Rightarrow> bytes" where
  "string_bytes s = map of_char s"

lemma of_char_byte_inject: "(of_char c = (of_char d :: byte)) \<longleftrightarrow> c = d"
proof
  assume "of_char c = (of_char d :: byte)"
  then have "(of_nat (of_char c) :: byte) = of_nat (of_char d)"
    by (simp add: of_nat_of_char)
  then have "unat (of_nat (of_char c) :: byte) = unat (of_nat (of_char d) :: byte)"
    by (rule arg_cong)
  moreover have "of_char c < (256 :: nat)" "of_char d < (256 :: nat)"
    using nat_of_char_less_256 by blast+
  ultimately have "(of_char c :: nat) = of_char d"
    by (simp add: unat_of_nat take_bit_nat_eq_self_iff)
  then show "c = d"
    by simp
qed simp

lemma string_bytes_inject [simp]: "string_bytes a = string_bytes b \<longleftrightarrow> a = b"
  unfolding string_bytes_def using of_char_byte_inject
  by (auto simp: inj_on_def)

lemma length_string_bytes [simp, len_simps]: "length (string_bytes s) = length s"
  by (simp add: string_bytes_def)

section \<open>Numbers as text\<close>

definition hex_digit :: "nat \<Rightarrow> char" where
  "hex_digit n = (if n < 10 then char_of (48 + n) else char_of (87 + n))"

definition hex2 :: "nat \<Rightarrow> string" where
  "hex2 n = [hex_digit (n div 16 mod 16), hex_digit (n mod 16)]"

lemma of_char_hex_digit: "n < 16 \<Longrightarrow> (of_char (hex_digit n) :: nat) = (if n < 10 then 48 + n else 87 + n)"
  by (simp add: hex_digit_def)

fun num_digits :: "nat \<Rightarrow> nat \<Rightarrow> string" where
  "num_digits base n =
     (if base < 2 \<or> n < base then [hex_digit n]
      else num_digits base (n div base) @ [hex_digit (n mod base)])"

declare num_digits.simps [simp del]

definition hexval :: "char \<Rightarrow> nat option" where
  "hexval c =
     (let x = (of_char c :: nat)
      in if 48 \<le> x \<and> x \<le> 57 then Some (x - 48)
         else if 97 \<le> x \<and> x \<le> 102 then Some (x - 97 + 10)
         else if 65 \<le> x \<and> x \<le> 70 then Some (x - 65 + 10)
         else None)"

definition is_digit :: "nat \<Rightarrow> char \<Rightarrow> bool" where
  "is_digit base c \<longleftrightarrow> (case hexval c of None \<Rightarrow> False | Some d \<Rightarrow> d < base)"

definition digits_value :: "nat \<Rightarrow> string \<Rightarrow> nat" where
  "digits_value base ds = foldl (\<lambda>v c. v * base + (case hexval c of None \<Rightarrow> 0 | Some d \<Rightarrow> d)) 0 ds"

lemma hexval_hex_digit: "n < 16 \<Longrightarrow> hexval (hex_digit n) = Some n"
  by (auto simp: hexval_def Let_def of_char_hex_digit)

lemma is_digit_hex_digit: "n < base \<Longrightarrow> base \<le> 16 \<Longrightarrow> is_digit base (hex_digit n)"
  by (simp add: is_digit_def hexval_hex_digit)

lemma digit_not_special:
  assumes "is_digit base c"
  shows "\<not> is_space c" "c \<noteq> CHR ''-''" "c \<noteq> CHR ''+''" "c \<noteq> CHR ''x''" "c \<noteq> CHR ''X''" "c \<noteq> LF"
    "c \<noteq> CHR ''#''"
  using assms
  by (auto simp: is_digit_def hexval_def is_space_def Let_def split: if_splits)

lemma num_digits_value:
  assumes "2 \<le> base" "base \<le> 16"
  shows "digits_value base (num_digits base n) = n \<and> list_all (is_digit base) (num_digits base n) \<and>
    num_digits base n \<noteq> []"
  using assms
proof (induction base n rule: num_digits.induct)
  case (1 base n)
  show ?case
  proof (cases "n < base")
    case True
    then have "num_digits base n = [hex_digit n]"
      by (simp add: num_digits.simps [of base n])
    then show ?thesis
      using True 1(3) by (simp add: digits_value_def hexval_hex_digit is_digit_hex_digit)
  next
    case False
    then have nb: "\<not> (base < 2 \<or> n < base)"
      using 1(2) by simp
    note IH = 1(1) [OF nb 1(2,3)]
    have m: "n mod base < base"
      using 1(2) by simp
    then have "hexval (hex_digit (n mod base)) = Some (n mod base)"
      using 1(3) by (intro hexval_hex_digit) simp
    moreover have "is_digit base (hex_digit (n mod base))"
      using m 1(3) by (rule is_digit_hex_digit)
    moreover have "num_digits base n = num_digits base (n div base) @ [hex_digit (n mod base)]"
      using nb num_digits.simps [of base n] by simp
    ultimately show ?thesis
      using IH by (simp add: digits_value_def)
  qed
qed

lemma num_digits_length:
  assumes "2 \<le> base" "0 < k" "n < base ^ k"
  shows "length (num_digits base n) \<le> k"
  using assms(2,3)
proof (induction k arbitrary: n)
  case (Suc k)
  show ?case
  proof (cases "n < base")
    case True
    then show ?thesis by (simp add: num_digits.simps [of base n])
  next
    case False
    then have "k \<noteq> 0"
      using Suc.prems by (cases k) auto
    moreover have "n div base < base ^ k"
      using Suc.prems assms(1) by (simp add: less_mult_imp_div_less mult.commute)
    ultimately have "length (num_digits base (n div base)) \<le> k"
      using Suc.IH by simp
    then show ?thesis
      using False by (simp add: num_digits.simps [of base n])
  qed
qed simp

lemma hex2_value:
  "n < 256 \<Longrightarrow> hexval (hex_digit (n div 16 mod 16)) = Some (n div 16) \<and>
   hexval (hex_digit (n mod 16)) = Some (n mod 16)"
  by (simp add: hexval_hex_digit)

text \<open>Octets printed as \<open>%02x\<close> each, and a number as \<open>%0<w>llx\<close>.\<close>

definition bytes_hex :: "bytes \<Rightarrow> string" where
  "bytes_hex bs = concat (map (\<lambda>b. hex2 (unat b)) bs)"

definition hex_padded :: "nat \<Rightarrow> nat \<Rightarrow> string" where
  "hex_padded w n = replicate (w - length (num_digits 16 n)) (CHR ''0'') @ num_digits 16 n"

definition dec :: "nat \<Rightarrow> string" where
  "dec n = num_digits 10 n"

lemma length_bytes_hex [simp]: "length (bytes_hex bs) = 2 * length bs"
  by (induction bs) (simp_all add: bytes_hex_def hex2_def)

lemma bytes_hex_digits: "c \<in> set (bytes_hex bs) \<Longrightarrow> is_digit 16 c"
  by (auto simp: bytes_hex_def hex2_def intro: is_digit_hex_digit)

lemma hex2_inject: "n < 256 \<Longrightarrow> m < 256 \<Longrightarrow> hex2 n = hex2 m \<longleftrightarrow> n = m"
proof
  assume a: "n < 256" "m < 256" "hex2 n = hex2 m"
  then have "hexval (hex_digit (n div 16 mod 16)) = hexval (hex_digit (m div 16 mod 16))"
    "hexval (hex_digit (n mod 16)) = hexval (hex_digit (m mod 16))"
    by (simp_all add: hex2_def)
  then have "n div 16 = m div 16 \<and> n mod 16 = m mod 16"
    unfolding hex2_value [OF a(1), THEN conjunct1] hex2_value [OF a(2), THEN conjunct1]
      hex2_value [OF a(1), THEN conjunct2] hex2_value [OF a(2), THEN conjunct2]
    by (simp only: option.inject)
  then have "n div 16 * 16 + n mod 16 = m div 16 * 16 + m mod 16"
    by (simp only:)
  then show "n = m"
    by (simp only: div_mult_mod_eq)
qed simp

lemma bytes_hex_inject: "bytes_hex a = bytes_hex b \<longleftrightarrow> a = b"
proof (induction a arbitrary: b)
  case Nil
  then show ?case by (cases b) (simp_all add: bytes_hex_def hex2_def)
next
  case (Cons x a)
  have u: "unat (y :: byte) < 256" for y
    by (rule order_less_le_trans [OF unsigned_less]) simp
  show ?case
  proof (cases b)
    case Nil
    then show ?thesis by (simp add: bytes_hex_def hex2_def)
  next
    case (Cons y b')
    have "bytes_hex (x # a) = bytes_hex (y # b') \<longleftrightarrow> hex2 (unat x) = hex2 (unat y) \<and> bytes_hex a = bytes_hex b'"
      by (auto simp: bytes_hex_def hex2_def)
    then show ?thesis
      using Cons Cons.IH hex2_inject [OF u u] word_unat_eq_iff [of x y] by simp
  qed
qed

lemma dec_inject: "dec n = dec m \<longleftrightarrow> n = m"
proof
  assume "dec n = dec m"
  then have "digits_value 10 (num_digits 10 n) = digits_value 10 (num_digits 10 m)"
    by (simp add: dec_def)
  then show "n = m"
    using num_digits_value [of 10 n] num_digits_value [of 10 m] by simp
qed simp

lemma dec_digits: "c \<in> set (dec n) \<Longrightarrow> is_digit 10 c" "dec n \<noteq> []"
  using num_digits_value [of 10 n] by (auto simp: dec_def list_all_iff)

section \<open>Scanning\<close>

text \<open>The conversions \<open>%<width>s\<close>, \<open>%llx\<close> and \<open>%llu\<close> of \<open>sscanf\<close>: skip white space, then the
  longest match; an overlong number saturates, a minus sign negates.\<close>

definition scan_word :: "nat \<Rightarrow> string \<Rightarrow> (string \<times> string) option" where
  "scan_word width s =
     (let t = dropWhile is_space s; w = takeWhile (\<lambda>c. \<not> is_space c) (take width t)
      in if w = [] then None else Some (w, drop (length w) t))"

definition scan_number :: "nat \<Rightarrow> string \<Rightarrow> (u64 \<times> string) option" where
  "scan_number base s =
     (let t = dropWhile is_space s;
          neg = (t \<noteq> [] \<and> hd t = CHR ''-'');
          t1 = (if t \<noteq> [] \<and> (hd t = CHR ''-'' \<or> hd t = CHR ''+'') then tl t else t);
          t2 = (if base = 16 \<and> (take 2 t1 = ''0x'' \<or> take 2 t1 = ''0X'') then drop 2 t1 else t1);
          ds = takeWhile (is_digit base) t2;
          n = digits_value base ds;
          v = (if n \<ge> 2 ^ 64 then - 1 else if neg then - of_nat n else of_nat n)
      in if ds = [] then None else Some (v, drop (length ds) t2))"

lemma scan_numberI:
  assumes "t \<noteq> []" "\<not> is_space (hd t)" "hd t \<noteq> CHR ''-''" "hd t \<noteq> CHR ''+''"
    "take 2 t \<noteq> ''0x''" "take 2 t \<noteq> ''0X''"
    and "takeWhile (is_digit base) t \<noteq> []" "digits_value base (takeWhile (is_digit base) t) = n"
    "n < 18446744073709551616"
  shows "scan_number base (CHR '' '' # t) =
    Some (of_nat n, drop (length (takeWhile (is_digit base) t)) t)"
proof -
  have "dropWhile is_space (CHR '' '' # t) = t"
    using assms(1,2) is_space_blank by (cases t) simp_all
  then show ?thesis
    using assms unfolding scan_number_def by (simp add: Let_def)
qed

lemma takeWhile_digits:
  assumes "list_all P ds" and "\<not> P c"
  shows "takeWhile P (ds @ c # r) = ds"
  using assms by (induction ds) auto

lemma two_chars: "take 2 (x # xs @ c # r) = [x, if xs = [] then c else hd xs]"
  by (cases xs) auto

lemma scan_number_digits:
  assumes base: "base = 10 \<or> base = 16" and v: "n < 18446744073709551616"
    and c: "is_space c"
  shows "scan_number base (CHR '' '' # num_digits base n @ c # r) = Some (of_nat n, c # r)"
proof -
  have b: "2 \<le> base" "base \<le> 16"
    using base by auto
  note d = num_digits_value [OF b, of n]
  let ?t = "num_digits base n @ c # r"
  obtain x xs where x: "num_digits base n = x # xs"
    using d by (cases "num_digits base n") auto
  have dx: "is_digit base x" "list_all (is_digit base) xs"
    using d by (simp_all add: x)
  have tw: "takeWhile (is_digit base) ?t = num_digits base n"
    using d c digit_not_special(1) by (intro takeWhile_digits) auto
  have "(if xs = [] then c else hd xs) \<notin> {CHR ''x'', CHR ''X''}"
    using dx(2) digit_not_special(4,5) [of base "hd xs"] c
    by (cases xs) (auto simp: is_space_def)
  then have "take 2 ?t \<noteq> ''0x''" "take 2 ?t \<noteq> ''0X''"
    using two_chars [of x xs c r] by (auto simp: x)
  then have "scan_number base (CHR '' '' # ?t) =
      Some (of_nat n, drop (length (takeWhile (is_digit base) ?t)) ?t)"
    using digit_not_special(1-3) [OF dx(1)] d v
    by (intro scan_numberI) (simp_all only: tw, simp_all add: x)
  then show ?thesis
    by (simp add: tw)
qed

lemma scan_word_append:
  assumes "w \<noteq> []" "\<And>c. c \<in> set w \<Longrightarrow> \<not> is_space c" "length w \<le> 40" "is_space c"
  shows "scan_word 40 (w @ c # r) = Some (w, c # r)"
proof -
  have d: "dropWhile is_space (w @ c # r) = w @ c # r"
    using assms(1,2) by (cases w) auto
  have t: "takeWhile (\<lambda>c. \<not> is_space c) (take 40 (w @ c # r)) = w"
  proof (cases "length w = 40")
    case True
    then show ?thesis
      using assms(2) by simp
  next
    case False
    then obtain k where "40 - length w = Suc k"
      using assms(3) by (metis le_neq_implies_less Suc_diff_Suc)
    then have "take 40 (w @ c # r) = w @ c # take k r"
      using assms(3) by simp
    then show ?thesis
      using takeWhile_digits [of "\<lambda>c. \<not> is_space c" w c "take k r"] assms(2,4)
      by (simp add: list_all_iff)
  qed
  show ?thesis
    using assms(1) unfolding scan_word_def Let_def d t by simp
qed

text \<open>\<open>fgets(line, n + 1, f)\<close>: up to \<open>n\<close> characters, ending after a newline.\<close>

fun fgets :: "nat \<Rightarrow> string \<Rightarrow> string \<times> string" where
  "fgets 0 s = ([], s)"
| "fgets (Suc n) [] = ([], [])"
| "fgets (Suc n) (c # s) =
     (if c = LF then ([c], s) else (let (l, r) = fgets n s in (c # l, r)))"

lemma fgets_rest: "length (snd (fgets n s)) \<le> length s"
  by (induction n s rule: fgets.induct) (auto split: prod.splits)

lemma fgets_rest_less: "s \<noteq> [] \<Longrightarrow> 0 < n \<Longrightarrow> length (snd (fgets n s)) < length s"
  using fgets_rest [of "n - 1" "tl s"]
  by (cases n; cases s) (auto split: prod.splits)

lemma fgets_line: "LF \<notin> set l \<Longrightarrow> length l < n \<Longrightarrow> fgets n (l @ LF # r) = (l @ [LF], r)"
proof (induction l arbitrary: n)
  case Nil
  then show ?case by (cases n) auto
next
  case (Cons c l)
  then show ?case by (cases n) auto
qed

section \<open>Hexadecimal octet strings\<close>

fun hex_bytes :: "string \<Rightarrow> bytes option" where
  "hex_bytes [] = Some []"
| "hex_bytes (h # l # hex) =
     (case (hexval h, hexval l) of
        (Some hi, Some lo) \<Rightarrow> map_option ((#) (of_nat (hi * 16 + lo))) (hex_bytes hex)
      | _ \<Rightarrow> None)"
| "hex_bytes [_] = None"

lemma hex_bytes_hex [simp]: "hex_bytes (bytes_hex bs) = Some bs"
proof (induction bs)
  case Nil
  then show ?case by (simp add: bytes_hex_def)
next
  case (Cons b bs)
  have u: "unat b < 256"
    by (rule order_less_le_trans [OF unsigned_less]) simp
  have "(of_nat (unat b div 16 * 16 + unat b mod 16) :: byte) = b"
    by (simp only: div_mult_mod_eq) simp
  moreover have "bytes_hex (b # bs) = hex2 (unat b) @ bytes_hex bs"
    by (simp add: bytes_hex_def)
  ultimately show ?case
    using Cons hex2_value [OF u] by (simp add: hex2_def)
qed

lemma hex_bytes_length: "hex_bytes s = Some bs \<Longrightarrow> length s = 2 * length bs"
  by (induction s arbitrary: bs rule: hex_bytes.induct) (auto split: option.splits)

end
