(* ===== verification/Virp_Command.thy ===== *)
theory Virp_Command
  imports Virp_Crypto Virp_Text
begin

text \<open>
  Command text (\<open>src/virp_message.c\<close>, \<open>src/virp_crypto.c\<close>): the canonical form whose
  hash binds an observation to its command, the typed-operation hash, and the
  separator policy that decides whether a string is one command. C strings are
  \<open>string\<close>s without NUL characters.
\<close>

section \<open>Canonicalisation\<close>

definition is_blank :: "char \<Rightarrow> bool" where
  "is_blank c \<longleftrightarrow> c = CHR '' '' \<or> c = TAB"

definition is_lead_ws :: "char \<Rightarrow> bool" where
  "is_lead_ws c \<longleftrightarrow> c = CHR '' '' \<or> c = TAB \<or> c = CR \<or> c = LF"

text \<open>The copying loop: \<open>out\<close> is what has been written, \<open>lws\<close> is \<open>last_was_space\<close>; \<open>None\<close>
  is the return of -1 when the output buffer is full.\<close>

fun canon_loop :: "nat \<Rightarrow> string \<Rightarrow> string \<Rightarrow> bool \<Rightarrow> string option" where
  "canon_loop out_len [] out lws = Some out"
| "canon_loop out_len (c # cs) out lws =
     (if c = CR then canon_loop out_len cs out lws
      else if is_blank c then
        (if \<not> lws \<and> 0 < length out then
           (if length out \<ge> out_len - 1 then None
            else canon_loop out_len cs (out @ '' '') True)
         else canon_loop out_len cs out lws)
      else if length out \<ge> out_len - 1 then None
      else canon_loop out_len cs (out @ [c]) False)"

definition strip_trailing :: "string \<Rightarrow> string" where
  "strip_trailing out = rev (dropWhile (\<lambda>c. c = CHR '' '') (rev out))"

definition virp_canonicalize_command :: "string ptr \<Rightarrow> nat \<Rightarrow> string option" where
  "virp_canonicalize_command cmd out_len =
     (case cmd of
        None \<Rightarrow> None
      | Some s \<Rightarrow>
          if out_len = 0 then None
          else map_option strip_trailing (canon_loop out_len (dropWhile is_lead_ws s) [] False))"

text \<open>The reference: drop leading white space, delete carriage returns, squeeze each run
  of blanks to one space, drop a trailing space.\<close>

fun squeeze :: "bool \<Rightarrow> string \<Rightarrow> string" where
  "squeeze lws [] = []"
| "squeeze lws (c # cs) =
     (if is_blank c then (if lws then squeeze True cs else CHR '' '' # squeeze True cs)
      else c # squeeze False cs)"

definition squeezed :: "string \<Rightarrow> string" where
  "squeezed s = squeeze False (filter (\<lambda>c. c \<noteq> CR) (dropWhile is_lead_ws s))"

definition canon_ref :: "string \<Rightarrow> string" where
  "canon_ref s = strip_trailing (squeezed s)"

section \<open>Separator policy\<close>

datatype sep_verdict =
    SepOk
  | SepNull
  | SepBad string nat

definition is_ctl :: "char \<Rightarrow> bool" where
  "is_ctl c \<longleftrightarrow> (of_char c :: nat) < 0x20 \<or> (of_char c :: nat) = 0x7F"

definition is_separator :: "char \<Rightarrow> bool" where
  "is_separator c \<longleftrightarrow> c \<in> set '';|&`><''"

text \<open>The offending text at the head of \<open>p\<close>, as it is rendered into the reason.\<close>

fun sep_here :: "string \<Rightarrow> string option" where
  "sep_here [] = None"
| "sep_here (c # cs) =
     (if is_ctl c then Some ([CHR 0x5C, CHR ''x''] @ hex2 (of_char c))
      else if is_separator c then Some [c]
      else if c = CHR ''$'' \<and> cs \<noteq> [] \<and> (hd cs = CHR ''('' \<or> hd cs = CHR 0x7B) then Some [c, hd cs]
      else None)"

fun sep_scan :: "nat \<Rightarrow> string \<Rightarrow> sep_verdict" where
  "sep_scan off [] = SepOk"
| "sep_scan off (c # cs) =
     (case sep_here (c # cs) of
        Some what \<Rightarrow> SepBad what off
      | None \<Rightarrow> sep_scan (Suc off) cs)"

definition virp_command_check_separators :: "string ptr \<Rightarrow> sep_verdict" where
  "virp_command_check_separators cmd = (case cmd of None \<Rightarrow> SepNull | Some s \<Rightarrow> sep_scan 0 s)"

section \<open>Command hashes\<close>

definition typed_op_domain :: bytes where
  "typed_op_domain = string_bytes ''VIRP-TYPED-OP'' @ [0]"

definition typed_op_input :: "string \<Rightarrow> string \<Rightarrow> bytes" where
  "typed_op_input profile command =
     typed_op_domain @ be32 (of_nat (length profile)) @ string_bytes profile @
     be32 (of_nat (length command)) @ string_bytes command"

definition virp_typed_op_hash ::
    "crypto_lib \<Rightarrow> string ptr \<Rightarrow> string ptr \<Rightarrow> virp_error_t + bytes" where
  "virp_typed_op_hash C profile command =
     (case (profile, command) of
        (Some p, Some c) \<Rightarrow>
          if length p = 0 \<or> length p > 64 then Inl VIRP_ERR_INVALID_LENGTH
          else if length c = 0 \<or> length c > VIRP_MAX_MESSAGE_SIZE then Inl VIRP_ERR_INVALID_LENGTH
          else (case EVP_SHA256 C (typed_op_input p c) of
                  None \<Rightarrow> Inl VIRP_ERR_CRYPTO
                | Some h \<Rightarrow> if length h \<noteq> 32 then Inl VIRP_ERR_CRYPTO else Inr h)
      | _ \<Rightarrow> Inl VIRP_ERR_NULL_PTR)"

definition command_hash :: "crypto_lib \<Rightarrow> string \<Rightarrow> string ptr \<Rightarrow> virp_error_t + bytes" where
  "command_hash C command typed_profile =
     (case typed_profile of
        Some p \<Rightarrow> virp_typed_op_hash C (Some p) (Some command)
      | None \<Rightarrow>
          (case virp_canonicalize_command (Some command) 512 of
             None \<Rightarrow> Inl VIRP_ERR_INVALID_LENGTH
           | Some canon \<Rightarrow> Inr (SHA256 C (string_bytes canon))))"

section \<open>The canonicaliser computes the reference form\<close>

text \<open>While the output fits, the loop appends the squeezed rest of the input.\<close>

lemma canon_loop_squeeze:
  assumes "out \<noteq> [] \<or> cs = [] \<or> \<not> is_blank (hd (filter (\<lambda>c. c \<noteq> CR) cs))"
    and "lws \<longrightarrow> out \<noteq> []" and "length out \<le> n - 1"
  shows "canon_loop n cs out lws =
     (if length (out @ squeeze lws (filter (\<lambda>c. c \<noteq> CR) cs)) \<le> n - 1
      then Some (out @ squeeze lws (filter (\<lambda>c. c \<noteq> CR) cs)) else None)"
  using assms
proof (induction n cs out lws rule: canon_loop.induct)
  case (1 out_len out lws)
  then show ?case by simp
next
  case (2 out_len c cs out lws)
  show ?case
  proof (cases "c = CR")
    case True
    then show ?thesis
      using 2 by auto
  next
    case False
    note ncr = this
    show ?thesis
    proof (cases "is_blank c")
      case True
      then show ?thesis
        using 2 ncr by (cases "out = []") auto
    next
      case False
      then show ?thesis
        using 2 ncr by auto
    qed
  qed
qed

lemma hd_dropWhile_lead:
  "dropWhile is_lead_ws s = [] \<or> \<not> is_lead_ws (hd (dropWhile is_lead_ws s))"
  using hd_dropWhile by blast

lemma canonicalize_eq_ref:
  "virp_canonicalize_command (Some s) n =
     (if length (squeezed s) < n then Some (canon_ref s) else None)"
proof -
  let ?r = "dropWhile is_lead_ws s"
  have "?r = [] \<or> \<not> is_blank (hd (filter (\<lambda>c. c \<noteq> CR) ?r))"
    using hd_dropWhile_lead [of s] by (cases ?r) (auto simp: is_lead_ws_def is_blank_def)
  then show ?thesis
    using canon_loop_squeeze [of "[]" ?r False n]
    by (auto simp: virp_canonicalize_command_def squeezed_def canon_ref_def)
qed

text \<open>Canonical strings: no carriage return or tab, no two adjacent spaces, no white
  space at the front, no space at the end.\<close>

fun no_double_space :: "string \<Rightarrow> bool" where
  "no_double_space (a # b # cs) \<longleftrightarrow> \<not> (a = CHR '' '' \<and> b = CHR '' '') \<and> no_double_space (b # cs)"
| "no_double_space _ \<longleftrightarrow> True"

definition canonical_cmd :: "string \<Rightarrow> bool" where
  "canonical_cmd s \<longleftrightarrow> CR \<notin> set s \<and> TAB \<notin> set s \<and> no_double_space s \<and>
     (s \<noteq> [] \<longrightarrow> \<not> is_lead_ws (hd s) \<and> last s \<noteq> CHR '' '')"

lemma squeeze_set: "set (squeeze l s) \<subseteq> insert (CHR '' '') (set s - {TAB})"
  by (induction l s rule: squeeze.induct) (auto simp: is_blank_def)

lemma squeeze_hd_True: "squeeze True s = [] \<or> hd (squeeze True s) \<noteq> CHR '' ''"
  by (induction s) (auto simp: is_blank_def)

lemma no_double_space_Cons:
  "no_double_space (a # s) \<longleftrightarrow>
     no_double_space s \<and> (s = [] \<or> a \<noteq> CHR '' '' \<or> hd s \<noteq> CHR '' '')"
  by (cases s) auto

lemma squeeze_no_double: "no_double_space (squeeze l s)"
  using squeeze_hd_True
  by (induction l s rule: squeeze.induct) (auto simp: no_double_space_Cons is_blank_def)

lemma no_double_space_append1: "no_double_space (s @ t) \<Longrightarrow> no_double_space s"
  by (induction s) (auto simp: no_double_space_Cons hd_append split: if_splits)

lemma strip_trailing_split:
  "\<exists>t. s = strip_trailing s @ t \<and> set t \<subseteq> {CHR '' ''}"
proof -
  have "s = strip_trailing s @ rev (takeWhile (\<lambda>c. c = CHR '' '') (rev s))"
    unfolding strip_trailing_def by (metis rev_append rev_rev_ident takeWhile_dropWhile_id)
  moreover have "set (rev (takeWhile (\<lambda>c. c = CHR '' '') (rev s))) \<subseteq> {CHR '' ''}"
    using set_takeWhileD [of _ "\<lambda>c. c = CHR '' ''" "rev s"] by (simp add: subset_iff)
  ultimately show ?thesis
    by blast
qed

lemma strip_trailing_last: "strip_trailing s \<noteq> [] \<Longrightarrow> last (strip_trailing s) \<noteq> CHR '' ''"
  unfolding strip_trailing_def
  using hd_dropWhile [of "\<lambda>c. c = CHR '' ''" "rev s"] by (auto simp: last_rev)

lemma strip_trailing_id: "s = [] \<or> last s \<noteq> CHR '' '' \<Longrightarrow> strip_trailing s = s"
  by (cases s rule: rev_cases) (auto simp: strip_trailing_def)

lemma squeeze_id: "TAB \<notin> set s \<Longrightarrow> no_double_space s \<Longrightarrow>
    (l \<longrightarrow> s = [] \<or> hd s \<noteq> CHR '' '') \<Longrightarrow> squeeze l s = s"
  by (induction l s rule: squeeze.induct) (auto simp: no_double_space_Cons is_blank_def)

lemma canonical_squeezed: "canonical_cmd s \<Longrightarrow> squeezed s = s"
proof -
  assume c: "canonical_cmd s"
  then have d: "dropWhile is_lead_ws s = s"
    by (cases s) (auto simp: canonical_cmd_def)
  have f: "filter (\<lambda>c. c \<noteq> CR) s = s"
    using c by (auto simp: canonical_cmd_def filter_id_conv)
  show ?thesis
    using c squeeze_id [of s False] unfolding squeezed_def d f by (auto simp: canonical_cmd_def)
qed

lemma canonical_ref_id: "canonical_cmd s \<Longrightarrow> canon_ref s = s"
  by (simp add: canon_ref_def canonical_squeezed)
     (auto simp: canonical_cmd_def intro: strip_trailing_id)

lemma canon_ref_prefix: "\<exists>t. squeezed s = canon_ref s @ t \<and> set t \<subseteq> {CHR '' ''}"
  unfolding canon_ref_def by (rule strip_trailing_split)

lemma squeezed_hd: "squeezed s = [] \<or> \<not> is_lead_ws (hd (squeezed s))"
proof (cases "dropWhile is_lead_ws s")
  case Nil
  show ?thesis
    unfolding squeezed_def Nil by simp
next
  case (Cons c cs)
  then have "\<not> is_lead_ws c"
    using hd_dropWhile_lead [of s] by simp
  moreover from this have "c \<noteq> CR" and "\<not> is_blank c"
    by (simp_all add: is_lead_ws_def is_blank_def)
  ultimately show ?thesis
    unfolding squeezed_def Cons by simp
qed

lemma canonical_canon_ref: "canonical_cmd (canon_ref s)"
proof -
  obtain t where t: "squeezed s = canon_ref s @ t"
    using canon_ref_prefix by blast
  have sub: "set (squeezed s) \<subseteq> insert (CHR '' '') (set s - {TAB, CR})"
    using squeeze_set [of False "filter (\<lambda>c. c \<noteq> CR) (dropWhile is_lead_ws s)"]
    by (auto simp: squeezed_def dest: set_dropWhileD)
  have cs: "CR \<notin> set (canon_ref s)" "TAB \<notin> set (canon_ref s)"
    using sub t by auto
  have nd: "no_double_space (canon_ref s)"
    using squeeze_no_double [of False] no_double_space_append1 [of "canon_ref s" t]
    unfolding t [symmetric] squeezed_def by simp
  have hd: "canon_ref s \<noteq> [] \<Longrightarrow> \<not> is_lead_ws (hd (canon_ref s))"
    using squeezed_hd [of s] unfolding t by simp
  show ?thesis
    using cs nd hd strip_trailing_last [of "squeezed s"]
    by (auto simp: canonical_cmd_def canon_ref_def)
qed

lemma canon_ref_length: "length (canon_ref s) \<le> length (squeezed s)"
  using canon_ref_prefix [of s] by (metis length_append le_add1)

section \<open>Separators\<close>

definition no_separator :: "string \<Rightarrow> bool" where
  "no_separator s \<longleftrightarrow> (\<forall>i < length s. \<not> is_ctl (s ! i) \<and> \<not> is_separator (s ! i) \<and>
     \<not> (s ! i = CHR ''$'' \<and> Suc i < length s \<and> s ! Suc i \<in> {CHR ''('', CHR 0x7B}))"

lemma no_separator_Cons:
  "no_separator (c # cs) \<longleftrightarrow> sep_here (c # cs) = None \<and> no_separator cs"
  by (auto simp: no_separator_def All_less_Suc2 hd_conv_nth split: if_splits)

lemma sep_scan_ok: "sep_scan off s = SepOk \<longleftrightarrow> no_separator s"
  by (induction off s rule: sep_scan.induct)
     (auto simp: no_separator_Cons no_separator_def [of "[]"] simp del: sep_here.simps
           split: option.splits)

lemma hex2_printable: "c \<in> set (hex2 n) \<Longrightarrow> \<not> is_ctl c"
  using of_char_hex_digit [of "n div 16 mod 16"] of_char_hex_digit [of "n mod 16"]
  by (auto simp: hex2_def is_ctl_def split: if_splits)

lemma sep_here_printable: "sep_here p = Some what \<Longrightarrow> c \<in> set what \<Longrightarrow> \<not> is_ctl c"
proof (cases p)
  case (Cons a cs)
  assume "sep_here p = Some what" "c \<in> set what"
  then show ?thesis
    using hex2_printable [of c "of_char a"] unfolding Cons
    by (auto simp: is_ctl_def split: if_splits)
qed simp

text \<open>A rejected command is reported with the offset of its first separator.\<close>

lemma sep_scan_bad:
  "sep_scan off s = SepBad what n \<Longrightarrow>
   \<exists>k < length s. n = off + k \<and> sep_here (drop k s) = Some what \<and>
     (\<forall>i < k. sep_here (drop i s) = None)"
proof (induction off s rule: sep_scan.induct)
  case (2 off c cs)
  show ?case
  proof (cases "sep_here (c # cs)")
    case None
    then obtain k where k: "k < length cs" "n = Suc off + k" "sep_here (drop k cs) = Some what"
        "\<forall>i < k. sep_here (drop i cs) = None"
      using 2 by (auto simp del: sep_here.simps)
    then have "\<forall>i < Suc k. sep_here (drop i (c # cs)) = None"
      using None by (simp add: All_less_Suc2 del: sep_here.simps)
    then show ?thesis
      using k by (intro exI [of _ "Suc k"]) (simp del: sep_here.simps)
  next
    case (Some w)
    then show ?thesis
      using 2 by (intro exI [of _ 0]) (simp del: sep_here.simps)
  qed
qed simp

lemma be32_append_inject: "be32 a @ s = be32 b @ t \<longleftrightarrow> a = b \<and> s = t"
  by simp

lemma typed_op_input_inject:
  assumes "typed_op_input p c = typed_op_input p' c'"
    and "length p < 4294967296" "length p' < 4294967296"
  shows "p = p' \<and> c = c'"
proof -
  have e: "(of_nat (length p) :: u32) = of_nat (length p')"
    "string_bytes p @ be32 (of_nat (length c)) @ string_bytes c =
     string_bytes p' @ be32 (of_nat (length c')) @ string_bytes c'"
    using assms(1) unfolding typed_op_input_def append_same_eq same_append_eq be32_append_inject
    by blast+
  have l: "length p = length p'"
    using arg_cong [OF e(1), of unat] unfolding unat_of_nat_u32 [OF assms(2)] unat_of_nat_u32 [OF assms(3)] .
  have "string_bytes p = string_bytes p'"
    and r: "be32 (of_nat (length c)) @ string_bytes c = be32 (of_nat (length c')) @ string_bytes c'"
    using e(2) l by (metis append_eq_append_conv length_string_bytes)+
  then show ?thesis
    unfolding be32_append_inject by simp
qed

end
