(* ===== verification/Virp_Seqstore.thy ===== *)
theory Virp_Seqstore
  imports Virp_Command
begin

text \<open>
  The replay high-water-mark store of a verifier (\<open>src/virp_seqstore.c\<close>): a table of at
  most 128 marks, one per (session, node), raised by \<open>virp_seqstore_accept\<close>, saved to a
  text file and read back by \<open>virp_seqstore_init\<close>. The table is the C array with its
  count; the file system is the argument \<open>io\<close> (whether writing the given text
  durably succeeded) and the state of the file at start. The interface
  \<open>replay_store\<close> states what a verifier relies on. The mutex is held for the whole of
  an accept, so an accept is one step.
\<close>

section \<open>State\<close>

definition VIRP_SEQSTORE_MAX_ENTRIES :: nat where "VIRP_SEQSTORE_MAX_ENTRIES = 128"
definition VIRP_SEQSTORE_PATH_MAX :: nat where [simp]: "VIRP_SEQSTORE_PATH_MAX = 256"

record virp_seqstore_entry_t =
  se_session_id :: bytes
  se_node_id :: u64
  se_last_seq :: u64
  se_touched :: u64

record virp_seqstore_t =
  ss_path :: string
  ss_entries :: "virp_seqstore_entry_t list"
  ss_count :: nat
  ss_tick :: u64

definition zero_entry :: virp_seqstore_entry_t where
  "zero_entry = \<lparr>se_session_id = replicate 16 0, se_node_id = 0, se_last_seq = 0, se_touched = 0\<rparr>"

definition empty_store :: virp_seqstore_t where
  "empty_store = \<lparr>ss_path = [], ss_entries = replicate VIRP_SEQSTORE_MAX_ENTRIES zero_entry,
                  ss_count = 0, ss_tick = 0\<rparr>"

section \<open>Session identifiers as text\<close>

definition sid_hex :: "bytes \<Rightarrow> string" where
  "sid_hex sid = concat (map (\<lambda>b. hex2 (unat b)) sid)"

fun parse_sid :: "nat \<Rightarrow> string \<Rightarrow> bytes option" where
  "parse_sid 0 hex = Some []"
| "parse_sid (Suc n) (h # l # hex) =
     (case (hexval h, hexval l) of
        (Some hi, Some lo) \<Rightarrow>
          map_option ((#) (of_nat (hi * 16 + lo))) (parse_sid n hex)
      | _ \<Rightarrow> None)"
| "parse_sid (Suc n) _ = None"

section \<open>Reading the file\<close>

text \<open>\<open>sscanf(line, "%40s %llx %llu", ...)\<close> with all three conversions made.\<close>

definition scan_line :: "string \<Rightarrow> (string \<times> u64 \<times> u64) option" where
  "scan_line line =
     (case scan_word 40 line of
        None \<Rightarrow> None
      | Some (sid, r1) \<Rightarrow>
          (case scan_number 16 r1 of
             None \<Rightarrow> None
           | Some (nid, r2) \<Rightarrow>
               (case scan_number 10 r2 of
                  None \<Rightarrow> None
                | Some (seq, _) \<Rightarrow> Some (sid, nid, seq))))"

text \<open>The reading loop over \<open>fgets(line, 128, f)\<close>.\<close>

function load_lines :: "virp_seqstore_t \<Rightarrow> string \<Rightarrow> virp_error_t \<times> virp_seqstore_t" where
  "load_lines st s =
     (if s = [] then (VIRP_OK, st)
      else
        let line = fst (fgets 127 s); rest = snd (fgets 127 s)
        in if hd line = LF \<or> hd line = CHR ''#'' then load_lines st rest
           else (case scan_line line of
             None \<Rightarrow> (VIRP_ERR_CHAIN_DB, st)
           | Some (sid, nid, seq) \<Rightarrow>
               if length sid \<noteq> 32 then (VIRP_ERR_CHAIN_DB, st)
               else if ss_count st \<ge> VIRP_SEQSTORE_MAX_ENTRIES then (VIRP_OK, st)
               else (case parse_sid 16 sid of
                 None \<Rightarrow> (VIRP_ERR_CHAIN_DB, st)
               | Some sidb \<Rightarrow>
                   load_lines
                     (st\<lparr>ss_entries := (ss_entries st)[ss_count st :=
                           \<lparr>se_session_id = sidb, se_node_id = nid, se_last_seq = seq,
                            se_touched = ss_tick st + 1\<rparr>],
                         ss_tick := ss_tick st + 1,
                         ss_count := ss_count st + 1\<rparr>) rest)))"
  by pat_completeness auto
termination
  by (relation "measure (\<lambda>(st, s). length s)") (auto intro: fgets_rest_less)

declare load_lines.simps [simp del]

datatype file_state = FMissing | FUnreadable | FText string

definition seqstore_load :: "file_state \<Rightarrow> virp_seqstore_t \<Rightarrow> virp_error_t \<times> virp_seqstore_t" where
  "seqstore_load f st =
     (case f of
        FMissing \<Rightarrow> (VIRP_OK, st)
      | FUnreadable \<Rightarrow> (VIRP_ERR_CHAIN_DB, st)
      | FText s \<Rightarrow> load_lines st s)"

definition virp_seqstore_init ::
    "file_state \<Rightarrow> string ptr \<Rightarrow> virp_error_t \<times> virp_seqstore_t" where
  "virp_seqstore_init f path =
     (case path of
        None \<Rightarrow> (VIRP_OK, empty_store)
      | Some p \<Rightarrow>
          if p = [] then (VIRP_OK, empty_store)
          else if length p \<ge> VIRP_SEQSTORE_PATH_MAX then (VIRP_ERR_INVALID_LENGTH, empty_store)
          else seqstore_load f (empty_store\<lparr>ss_path := p\<rparr>))"

section \<open>Writing the file\<close>

definition entry_line :: "virp_seqstore_entry_t \<Rightarrow> string" where
  "entry_line e = sid_hex (se_session_id e) @ '' '' @ num_digits 16 (unat (se_node_id e)) @ '' '' @
     num_digits 10 (unat (se_last_seq e)) @ [LF]"

definition store_text :: "virp_seqstore_t \<Rightarrow> string" where
  "store_text st = concat (map entry_line (take (ss_count st) (ss_entries st)))"

definition seqstore_save :: "(string \<Rightarrow> bool) \<Rightarrow> virp_seqstore_t \<Rightarrow> virp_error_t" where
  "seqstore_save io st =
     (if ss_path st = [] then VIRP_OK
      else if io (store_text st) then VIRP_OK else VIRP_ERR_CHAIN_DB)"

section \<open>Accepting a sequence number\<close>

definition find_mark :: "virp_seqstore_t \<Rightarrow> bytes \<Rightarrow> u64 \<Rightarrow> nat option" where
  "find_mark st sid nid =
     find (\<lambda>i. se_node_id (ss_entries st ! i) = nid \<and> se_session_id (ss_entries st ! i) = sid)
       [0..<ss_count st]"

text \<open>The eviction scan: the first entry of another session with the smallest tick.\<close>

definition lru_victim :: "virp_seqstore_t \<Rightarrow> bytes \<Rightarrow> nat option" where
  "lru_victim st sid =
     foldl (\<lambda>e i. if se_session_id (ss_entries st ! i) = sid then e
                  else (case e of
                          None \<Rightarrow> Some i
                        | Some j \<Rightarrow>
                            if se_touched (ss_entries st ! i) < se_touched (ss_entries st ! j)
                            then Some i else e))
       None [0..<VIRP_SEQSTORE_MAX_ENTRIES]"

definition virp_seqstore_accept ::
    "(string \<Rightarrow> bool) \<Rightarrow> virp_seqstore_t \<Rightarrow> bytes ptr \<Rightarrow> u64 \<Rightarrow> u64 \<Rightarrow>
     virp_error_t \<times> virp_seqstore_t" where
  "virp_seqstore_accept io st session_id node_id seq =
     (case session_id of
        None \<Rightarrow> (VIRP_ERR_NULL_PTR, st)
      | Some sid \<Rightarrow>
          (case find_mark st sid node_id of
             Some i \<Rightarrow>
               let e = ss_entries st ! i
               in if seq \<le> se_last_seq e then (VIRP_ERR_REPLAY_DETECTED, st)
                  else
                    let tick = ss_tick st + 1;
                        st1 = st\<lparr>ss_entries := (ss_entries st)[i := e\<lparr>se_last_seq := seq, se_touched := tick\<rparr>],
                                 ss_tick := tick\<rparr>;
                        perr = seqstore_save io st1
                    in if perr \<noteq> VIRP_OK
                       then (perr, st1\<lparr>ss_entries := (ss_entries st1)[i :=
                               (ss_entries st1 ! i)\<lparr>se_last_seq := se_last_seq e,
                                                    se_touched := se_touched e\<rparr>]\<rparr>)
                       else (VIRP_OK, st1)
           | None \<Rightarrow>
               let tick = ss_tick st + 1;
                   fresh = \<lparr>se_session_id = sid, se_node_id = node_id, se_last_seq = seq,
                            se_touched = tick\<rparr>;
                   slot = (if ss_count st < VIRP_SEQSTORE_MAX_ENTRIES
                           then Some (ss_count st, zero_entry, ss_count st + 1)
                           else map_option (\<lambda>i. (i, ss_entries st ! i, ss_count st)) (lru_victim st sid))
               in (case slot of
                     None \<Rightarrow> (VIRP_ERR_MESSAGE_TOO_LARGE, st)
                   | Some (i, evicted, n) \<Rightarrow>
                       let st1 = st\<lparr>ss_entries := (ss_entries st)[i := fresh],
                                    ss_count := n, ss_tick := tick\<rparr>;
                           perr = seqstore_save io st1
                       in if perr \<noteq> VIRP_OK
                          then (perr,
                                if se_touched evicted \<noteq> 0
                                then st1\<lparr>ss_entries := (ss_entries st1)[i := evicted]\<rparr>
                                else st1\<lparr>ss_entries := (ss_entries st1)[i := zero_entry],
                                         ss_count := ss_count st1 - 1\<rparr>)
                          else (VIRP_OK, st1))))"

section \<open>Marks\<close>

definition entry_key :: "virp_seqstore_entry_t \<Rightarrow> bytes \<times> u64" where
  "entry_key e = (se_session_id e, se_node_id e)"

definition marks :: "virp_seqstore_t \<Rightarrow> bytes \<times> u64 \<Rightarrow> u64 option" where
  "marks st k = map_option (\<lambda>i. se_last_seq (ss_entries st ! i)) (find_mark st (fst k) (snd k))"

definition store_inv :: "virp_seqstore_t \<Rightarrow> bool" where
  "store_inv st \<longleftrightarrow>
     length (ss_entries st) = VIRP_SEQSTORE_MAX_ENTRIES \<and> ss_count st \<le> VIRP_SEQSTORE_MAX_ENTRIES \<and>
     (\<forall>i < ss_count st. length (se_session_id (ss_entries st ! i)) = 16 \<and>
        se_touched (ss_entries st ! i) \<noteq> 0) \<and>
     (\<forall>i < ss_count st. \<forall>j < ss_count st. i \<noteq> j \<longrightarrow>
        entry_key (ss_entries st ! i) \<noteq> entry_key (ss_entries st ! j)) \<and>
     (\<forall>i. ss_count st \<le> i \<and> i < VIRP_SEQSTORE_MAX_ENTRIES \<longrightarrow> ss_entries st ! i = zero_entry)"

lemma find_upt_Some: "find P [0..<n] = Some i \<Longrightarrow> i < n \<and> P i"
  by (auto simp: find_Some_iff)

lemma find_upt_None: "find P [0..<n] = None \<longleftrightarrow> (\<forall>i < n. \<not> P i)"
  by (auto simp: find_None_iff)

lemma find_mark_SomeD:
  "find_mark st sid nid = Some i \<Longrightarrow> i < ss_count st \<and> entry_key (ss_entries st ! i) = (sid, nid)"
  unfolding find_mark_def entry_key_def by (drule find_upt_Some) simp

lemma find_mark_None_iff:
  "find_mark st sid nid = None \<longleftrightarrow> (\<forall>i < ss_count st. entry_key (ss_entries st ! i) \<noteq> (sid, nid))"
  unfolding find_mark_def entry_key_def by (auto simp: find_upt_None)

lemma marks_None_iff:
  "marks st k = None \<longleftrightarrow> (\<forall>i < ss_count st. entry_key (ss_entries st ! i) \<noteq> k)"
  using find_mark_None_iff [of st "fst k" "snd k"] by (simp add: marks_def)

lemma store_inv_key:
  "store_inv st \<Longrightarrow> i < ss_count st \<Longrightarrow> j < ss_count st \<Longrightarrow>
   entry_key (ss_entries st ! i) = entry_key (ss_entries st ! j) \<Longrightarrow> i = j"
  unfolding store_inv_def by blast

lemma find_mark_eqI:
  assumes "store_inv st" "i < ss_count st" "entry_key (ss_entries st ! i) = (sid, nid)"
  shows "find_mark st sid nid = Some i"
proof (cases "find_mark st sid nid")
  case None
  then show ?thesis
    using assms(2,3) by (simp add: find_mark_None_iff)
next
  case (Some j)
  then show ?thesis
    using find_mark_SomeD [OF Some] assms store_inv_key [of st i j] by simp
qed

lemma marks_eqI:
  "store_inv st \<Longrightarrow> i < ss_count st \<Longrightarrow> entry_key (ss_entries st ! i) = k \<Longrightarrow>
   marks st k = Some (se_last_seq (ss_entries st ! i))"
  using find_mark_eqI [of st i "fst k" "snd k"] by (simp add: marks_def)

lemma marks_SomeD:
  "marks st k = Some v \<Longrightarrow>
   \<exists>i < ss_count st. entry_key (ss_entries st ! i) = k \<and> se_last_seq (ss_entries st ! i) = v"
  unfolding marks_def by (auto dest!: find_mark_SomeD)

text \<open>Writing one slot with an entry whose key no other slot has.\<close>

definition put_entry :: "nat \<Rightarrow> virp_seqstore_entry_t \<Rightarrow> nat \<Rightarrow> virp_seqstore_t \<Rightarrow> virp_seqstore_t" where
  "put_entry i e n st = st\<lparr>ss_entries := (ss_entries st)[i := e], ss_count := n, ss_tick := ss_tick st + 1\<rparr>"

lemma store_invI:
  assumes "length (ss_entries st) = VIRP_SEQSTORE_MAX_ENTRIES" "ss_count st \<le> VIRP_SEQSTORE_MAX_ENTRIES"
    and "\<And>i. i < ss_count st \<Longrightarrow> length (se_session_id (ss_entries st ! i)) = 16"
    and "\<And>i. i < ss_count st \<Longrightarrow> se_touched (ss_entries st ! i) \<noteq> 0"
    and "\<And>i j. i < ss_count st \<Longrightarrow> j < ss_count st \<Longrightarrow>
      entry_key (ss_entries st ! i) = entry_key (ss_entries st ! j) \<Longrightarrow> i = j"
    and "\<And>i. ss_count st \<le> i \<Longrightarrow> i < VIRP_SEQSTORE_MAX_ENTRIES \<Longrightarrow> ss_entries st ! i = zero_entry"
  shows "store_inv st"
  using assms unfolding store_inv_def by blast

lemma store_invD:
  assumes "store_inv st"
  shows "length (ss_entries st) = VIRP_SEQSTORE_MAX_ENTRIES" "ss_count st \<le> VIRP_SEQSTORE_MAX_ENTRIES"
    and "i < ss_count st \<Longrightarrow> length (se_session_id (ss_entries st ! i)) = 16"
    and "i < ss_count st \<Longrightarrow> se_touched (ss_entries st ! i) \<noteq> 0"
    and "ss_count st \<le> i \<Longrightarrow> i < VIRP_SEQSTORE_MAX_ENTRIES \<Longrightarrow> ss_entries st ! i = zero_entry"
  using assms unfolding store_inv_def by blast+

lemma put_entry_inv:
  assumes inv: "store_inv st" and e: "length (se_session_id e) = 16" "se_touched e \<noteq> 0"
    and i: "(i < ss_count st \<and> n = ss_count st) \<or>
            (i = ss_count st \<and> n = Suc i \<and> n \<le> VIRP_SEQSTORE_MAX_ENTRIES)"
    and other: "\<And>j. j < ss_count st \<Longrightarrow> j \<noteq> i \<Longrightarrow> entry_key (ss_entries st ! j) \<noteq> entry_key e"
  shows "store_inv (put_entry i e n st)"
proof -
  let ?t = "put_entry i e n st"
  note d = store_invD [OF inv]
  have l: "i < length (ss_entries st)"
    using d(1,2) i by auto
  have nth: "ss_entries ?t ! j = (if j = i then e else ss_entries st ! j)" for j
    using l by (simp add: put_entry_def nth_list_update)
  have c: "ss_count ?t = n"
    by (simp add: put_entry_def)
  have old: "j < ss_count st" if "j < n" "j \<noteq> i" for j
    using i that by auto
  show ?thesis
  proof (rule store_invI)
    show "length (ss_entries ?t) = VIRP_SEQSTORE_MAX_ENTRIES"
      using d(1) by (simp add: put_entry_def)
    show "ss_count ?t \<le> VIRP_SEQSTORE_MAX_ENTRIES"
      using i d(2) by (auto simp: c)
    show "length (se_session_id (ss_entries ?t ! j)) = 16" if "j < ss_count ?t" for j
      using that old [of j] d(3) [of j] e(1) by (simp add: nth c)
    show "se_touched (ss_entries ?t ! j) \<noteq> 0" if "j < ss_count ?t" for j
      using that old [of j] d(4) [of j] e(2) by (simp add: nth c)
    show "ss_entries ?t ! j = zero_entry" if "ss_count ?t \<le> j" "j < VIRP_SEQSTORE_MAX_ENTRIES" for j
      using that i d(5) [of j] by (auto simp: nth c)
    show "j = k" if "j < ss_count ?t" "k < ss_count ?t"
      "entry_key (ss_entries ?t ! j) = entry_key (ss_entries ?t ! k)" for j k
      using that old [of j] old [of k] other [of j] other [of k] store_inv_key [OF inv, of j k]
      unfolding nth c by (cases "j = i"; cases "k = i") auto
  qed
qed

lemma put_entry_marks:
  assumes inv: "store_inv st" "store_inv (put_entry i e n st)"
    and i: "(i < ss_count st \<and> n = ss_count st) \<or>
            (i = ss_count st \<and> n = Suc i \<and> n \<le> VIRP_SEQSTORE_MAX_ENTRIES)"
  shows "marks (put_entry i e n st) (entry_key e) = Some (se_last_seq e)"
    and "k \<noteq> entry_key e \<Longrightarrow>
      marks (put_entry i e n st) k =
        (if i < ss_count st \<and> k = entry_key (ss_entries st ! i) then None else marks st k)"
proof -
  let ?t = "put_entry i e n st"
  have l: "i < length (ss_entries st)"
    using inv(1) i by (auto simp: store_inv_def)
  have nth: "ss_entries ?t ! j = (if j = i then e else ss_entries st ! j)" for j
    using l by (simp add: put_entry_def nth_list_update)
  have c: "ss_count ?t = n"
    by (simp add: put_entry_def)
  show "marks ?t (entry_key e) = Some (se_last_seq e)"
    using marks_eqI [OF inv(2), of i "entry_key e"] i by (auto simp: nth c)
  show "marks ?t k = (if i < ss_count st \<and> k = entry_key (ss_entries st ! i) then None else marks st k)"
    if k: "k \<noteq> entry_key e"
  proof (cases "marks st k")
    case None
    then have "marks ?t k = None"
      using k i by (auto simp: marks_None_iff nth c less_Suc_eq)
    then show ?thesis
      using None by simp
  next
    case (Some v)
    then obtain j where j: "j < ss_count st" "entry_key (ss_entries st ! j) = k"
        "se_last_seq (ss_entries st ! j) = v"
      using marks_SomeD by blast
    show ?thesis
    proof (cases "j = i")
      case True
      have "entry_key (ss_entries ?t ! m) \<noteq> k" if "m < n" for m
        using store_inv_key [OF inv(1), of m j] that j True k i unfolding nth by (cases "m = i") auto
      then show ?thesis
        using j True by (simp add: marks_None_iff c)
    next
      case False
      then have "marks ?t k = Some v"
        using marks_eqI [OF inv(2), of j k] j i by (auto simp: nth c)
      moreover have "\<not> (i < ss_count st \<and> k = entry_key (ss_entries st ! i))"
        using store_inv_key [OF inv(1), of i j] j False by auto
      ultimately show ?thesis
        using Some by simp
    qed
  qed
qed

section \<open>Eviction\<close>

definition lru_step :: "virp_seqstore_t \<Rightarrow> bytes \<Rightarrow> nat option \<Rightarrow> nat \<Rightarrow> nat option" where
  "lru_step st sid e i =
     (if se_session_id (ss_entries st ! i) = sid then e
      else (case e of
              None \<Rightarrow> Some i
            | Some j \<Rightarrow>
                if se_touched (ss_entries st ! i) < se_touched (ss_entries st ! j)
                then Some i else e))"

lemma lru_victim_foldl:
  "lru_victim st sid = foldl (lru_step st sid) None [0..<VIRP_SEQSTORE_MAX_ENTRIES]"
  unfolding lru_victim_def lru_step_def ..

lemma lru_scan:
  "case foldl (lru_step st sid) None [0..<n] of
     None \<Rightarrow> \<forall>j < n. se_session_id (ss_entries st ! j) = sid
   | Some i \<Rightarrow> i < n \<and> se_session_id (ss_entries st ! i) \<noteq> sid \<and>
       (\<forall>j < n. se_session_id (ss_entries st ! j) \<noteq> sid \<longrightarrow>
          se_touched (ss_entries st ! i) \<le> se_touched (ss_entries st ! j))"
proof (induction n)
  case (Suc n)
  then show ?case
    by (auto simp: lru_step_def less_Suc_eq split: option.splits)
qed simp

lemma lru_victim_Some:
  "lru_victim st sid = Some i \<Longrightarrow> i < VIRP_SEQSTORE_MAX_ENTRIES \<and>
     se_session_id (ss_entries st ! i) \<noteq> sid \<and>
     (\<forall>j < VIRP_SEQSTORE_MAX_ENTRIES. se_session_id (ss_entries st ! j) \<noteq> sid \<longrightarrow>
        se_touched (ss_entries st ! i) \<le> se_touched (ss_entries st ! j))"
  using lru_scan [where n = VIRP_SEQSTORE_MAX_ENTRIES and st = st and sid = sid]
  by (simp add: lru_victim_foldl)

lemma lru_victim_None:
  "lru_victim st sid = None \<longleftrightarrow>
     (\<forall>j < VIRP_SEQSTORE_MAX_ENTRIES. se_session_id (ss_entries st ! j) = sid)"
  using lru_scan [where n = VIRP_SEQSTORE_MAX_ENTRIES and st = st and sid = sid]
  by (auto simp: lru_victim_foldl split: option.splits)

section \<open>Outcomes of an accept\<close>

lemma accept_replay:
  "find_mark st sid nid = Some i \<Longrightarrow> seq \<le> se_last_seq (ss_entries st ! i) \<Longrightarrow>
   virp_seqstore_accept io st (Some sid) nid seq = (VIRP_ERR_REPLAY_DETECTED, st)"
  by (simp add: virp_seqstore_accept_def)

definition raised :: "virp_seqstore_t \<Rightarrow> nat \<Rightarrow> u64 \<Rightarrow> virp_seqstore_t" where
  "raised st i seq =
     put_entry i ((ss_entries st ! i)\<lparr>se_last_seq := seq, se_touched := ss_tick st + 1\<rparr>) (ss_count st) st"

definition fresh_entry :: "virp_seqstore_t \<Rightarrow> bytes \<Rightarrow> u64 \<Rightarrow> u64 \<Rightarrow> virp_seqstore_entry_t" where
  "fresh_entry st sid nid seq =
     \<lparr>se_session_id = sid, se_node_id = nid, se_last_seq = seq, se_touched = ss_tick st + 1\<rparr>"

lemma accept_raise:
  assumes "find_mark st sid nid = Some i" and "se_last_seq (ss_entries st ! i) < seq"
    and "i < length (ss_entries st)"
  shows "virp_seqstore_accept io st (Some sid) nid seq =
    (if seqstore_save io (raised st i seq) = VIRP_OK then (VIRP_OK, raised st i seq)
     else (seqstore_save io (raised st i seq), st\<lparr>ss_tick := ss_tick st + 1\<rparr>))"
proof -
  have "\<not> seq \<le> se_last_seq (ss_entries st ! i)"
    using assms(2) by simp
  then show ?thesis
    using assms(1,3) by (simp add: virp_seqstore_accept_def raised_def put_entry_def Let_def)
qed

lemma accept_append:
  fixes seq :: u64
  assumes "find_mark st sid nid = None" and "ss_count st < VIRP_SEQSTORE_MAX_ENTRIES"
    and "store_inv st"
  defines "st1 \<equiv> put_entry (ss_count st) (fresh_entry st sid nid seq) (Suc (ss_count st)) st"
  shows "virp_seqstore_accept io st (Some sid) nid seq =
    (if seqstore_save io st1 = VIRP_OK then (VIRP_OK, st1)
     else (seqstore_save io st1, st\<lparr>ss_tick := ss_tick st + 1\<rparr>))"
proof -
  have z: "(ss_entries st)[ss_count st := zero_entry] = ss_entries st"
    using store_invD(5) [OF assms(3), of "ss_count st"] assms(2) list_update_id
    by (metis le_refl)
  show ?thesis
    using assms(1,2) z
    by (simp add: virp_seqstore_accept_def st1_def put_entry_def fresh_entry_def Let_def)
       (simp add: zero_entry_def)
qed

lemma accept_evict:
  fixes seq :: u64
  assumes "find_mark st sid nid = None" and "\<not> ss_count st < VIRP_SEQSTORE_MAX_ENTRIES"
    and "store_inv st" and "lru_victim st sid = Some i"
  defines "st1 \<equiv> put_entry i (fresh_entry st sid nid seq) (ss_count st) st"
  shows "virp_seqstore_accept io st (Some sid) nid seq =
    (if seqstore_save io st1 = VIRP_OK then (VIRP_OK, st1)
     else (seqstore_save io st1, st\<lparr>ss_tick := ss_tick st + 1\<rparr>))"
proof -
  have "se_touched (ss_entries st ! i) \<noteq> 0"
    using lru_victim_Some [OF assms(4)] assms(2) store_invD(4) [OF assms(3), of i] by auto
  then show ?thesis
    using assms(1,2,4)
    by (simp add: virp_seqstore_accept_def st1_def put_entry_def fresh_entry_def Let_def)
qed

lemma accept_full:
  assumes "find_mark st sid nid = None" and "\<not> ss_count st < VIRP_SEQSTORE_MAX_ENTRIES"
    and "lru_victim st sid = None"
  shows "virp_seqstore_accept io st (Some sid) nid seq = (VIRP_ERR_MESSAGE_TOO_LARGE, st)"
  using assms by (simp add: virp_seqstore_accept_def Let_def)

text \<open>All outcomes at once. \<open>budget\<close> counts the accepts left before the tick wraps to zero.\<close>

definition budget :: "virp_seqstore_t \<Rightarrow> nat" where
  "budget st = 2 ^ 64 - 1 - unat (ss_tick st)"

lemma budget_tick:
  assumes "0 < budget st"
  shows "ss_tick st + 1 \<noteq> 0" "budget st = Suc (budget (st\<lparr>ss_tick := ss_tick st + 1\<rparr>))"
proof -
  have l: "unat (ss_tick st) < 2 ^ 64 - 1"
    using assms by (simp add: budget_def)
  then have u: "unat (ss_tick st + 1) = unat (ss_tick st) + 1"
    by (simp add: unat_word_ariths)
  then show "ss_tick st + 1 \<noteq> 0"
    by (metis Suc_eq_plus1 nat.distinct(1) unat_0)
  show "budget st = Suc (budget (st\<lparr>ss_tick := ss_tick st + 1\<rparr>))"
    using l u by (simp add: budget_def)
qed

lemma budget_eq_tick: "ss_tick s = ss_tick t \<Longrightarrow> budget s = budget t"
  by (simp add: budget_def)

lemma tick_only:
  "store_inv (st\<lparr>ss_tick := t\<rparr>) = store_inv st" "marks (st\<lparr>ss_tick := t\<rparr>) = marks st"
  by (simp_all add: store_inv_def marks_def find_mark_def fun_eq_iff)

text \<open>The three ways a call goes: refused, refused after a failed save, or accepted by writing
  one slot that holds this key, is free, or belongs to another session.\<close>

lemma accept_outcome:
  assumes inv: "store_inv st" and sid: "length sid = 16" and b: "0 < budget st"
    and r: "virp_seqstore_accept io st (Some sid) nid seq = (err, st')"
  obtains
    (refused) "err \<noteq> VIRP_OK" "st' = st"
  | (rolled_back) "err \<noteq> VIRP_OK" "st' = st\<lparr>ss_tick := ss_tick st + 1\<rparr>"
  | (accepted) i e n where "err = VIRP_OK" "st' = put_entry i e n st"
      "entry_key e = (sid, nid)" "se_last_seq e = seq" "store_inv (put_entry i e n st)"
      "(i < ss_count st \<and> n = ss_count st) \<or>
       (i = ss_count st \<and> n = Suc i \<and> n \<le> VIRP_SEQSTORE_MAX_ENTRIES)"
      "i < ss_count st \<Longrightarrow> entry_key (ss_entries st ! i) = (sid, nid) \<or>
         fst (entry_key (ss_entries st ! i)) \<noteq> sid"
      "\<And>m. marks st (sid, nid) = Some m \<Longrightarrow> m < seq"
proof (cases "find_mark st sid nid")
  case (Some i)
  note f = find_mark_SomeD [OF Some]
  have m: "marks st (sid, nid) = Some (se_last_seq (ss_entries st ! i))"
    by (simp add: marks_def Some)
  show thesis
  proof (cases "seq \<le> se_last_seq (ss_entries st ! i)")
    case True
    then show thesis
      using r accept_replay [OF Some True] refused by simp
  next
    case False
    have "i < length (ss_entries st)"
      using f store_invD(1,2) [OF inv] by simp
    note a = accept_raise [OF Some _ this, of seq io]
    let ?e = "(ss_entries st ! i)\<lparr>se_last_seq := seq, se_touched := ss_tick st + 1\<rparr>"
    have k: "entry_key ?e = (sid, nid)"
      using f by (simp add: entry_key_def)
    have "store_inv (put_entry i ?e (ss_count st) st)"
      using f store_invD(3) [OF inv, of i] budget_tick(1) [OF b] store_inv_key [OF inv, of _ i] k
      by (intro put_entry_inv [OF inv]) auto
    then show thesis
      using r a False f k m rolled_back accepted [of i ?e "ss_count st"]
      by (auto simp: raised_def split: if_splits)
  qed
next
  case None
  let ?e = "fresh_entry st sid nid seq"
  have k: "entry_key ?e = (sid, nid)" "se_last_seq ?e = seq"
    by (simp_all add: entry_key_def fresh_entry_def)
  have m: "marks st (sid, nid) = None"
    by (simp add: marks_def None)
  have o: "entry_key (ss_entries st ! j) \<noteq> entry_key ?e" if "j < ss_count st" for j
    using None that unfolding k by (simp add: find_mark_None_iff)
  have e: "length (se_session_id ?e) = 16" "se_touched ?e \<noteq> 0"
    using sid budget_tick(1) [OF b] by (simp_all add: fresh_entry_def)
  show thesis
  proof (cases "ss_count st < VIRP_SEQSTORE_MAX_ENTRIES")
    case True
    have "store_inv (put_entry (ss_count st) ?e (Suc (ss_count st)) st)"
      using True o by (intro put_entry_inv [OF inv e]) auto
    then show thesis
      using r accept_append [OF None True inv, of io seq] k m True rolled_back
        accepted [of "ss_count st" ?e "Suc (ss_count st)"] by (auto split: if_splits)
  next
    case full: False
    show thesis
    proof (cases "lru_victim st sid")
      case None': None
      then show thesis
        using r accept_full [OF None full None', of io seq] refused by simp
    next
      case (Some i)
      note v = lru_victim_Some [OF Some]
      have i: "i < ss_count st"
        using v full by simp
      have "store_inv (put_entry i ?e (ss_count st) st)"
        using i o by (intro put_entry_inv [OF inv e]) auto
      then show thesis
        using r accept_evict [OF None full inv Some, of io seq] k m i v rolled_back
          accepted [of i ?e "ss_count st"] by (auto simp: entry_key_def split: if_splits)
    qed
  qed
qed

section \<open>What a verifier relies on\<close>

fun accept_run ::
    "('s \<Rightarrow> bytes \<Rightarrow> u64 \<Rightarrow> u64 \<Rightarrow> virp_error_t \<times> 's) \<Rightarrow> 's \<Rightarrow> bytes \<Rightarrow> (u64 \<times> u64) list \<Rightarrow>
     (u64 \<times> u64) list \<times> 's" where
  "accept_run accept s sid [] = ([], s)"
| "accept_run accept s sid ((n, q) # calls) =
     (let (err, s1) = accept s sid n q;
          (acc, s2) = accept_run accept s1 sid calls
      in (if err = VIRP_OK then (n, q) # acc else acc, s2))"

lemma sorted_wrt_irrefl_distinct: "sorted_wrt R xs \<Longrightarrow> (\<And>x. \<not> R x x) \<Longrightarrow> distinct xs"
  by (induction xs) auto

locale replay_store =
  fixes accept :: "'s \<Rightarrow> bytes \<Rightarrow> u64 \<Rightarrow> u64 \<Rightarrow> virp_error_t \<times> 's"
    and mark :: "'s \<Rightarrow> bytes \<times> u64 \<Rightarrow> u64 option"
    and inv :: "'s \<Rightarrow> bool"
    and left :: "'s \<Rightarrow> nat"
  assumes accept_inv: "inv s \<Longrightarrow> length sid = 16 \<Longrightarrow> 0 < left s \<Longrightarrow> accept s sid n q = (err, s') \<Longrightarrow>
      inv s' \<and> left s \<le> Suc (left s')"
    and accept_ok: "inv s \<Longrightarrow> length sid = 16 \<Longrightarrow> 0 < left s \<Longrightarrow> accept s sid n q = (VIRP_OK, s') \<Longrightarrow>
      mark s' (sid, n) = Some q \<and> (\<forall>m. mark s (sid, n) = Some m \<longrightarrow> m < q)"
    and accept_session: "inv s \<Longrightarrow> length sid = 16 \<Longrightarrow> 0 < left s \<Longrightarrow> accept s sid n q = (err, s') \<Longrightarrow>
      n' \<noteq> n \<Longrightarrow> mark s' (sid, n') = mark s (sid, n')"
    and accept_refuse: "inv s \<Longrightarrow> length sid = 16 \<Longrightarrow> 0 < left s \<Longrightarrow> accept s sid n q = (err, s') \<Longrightarrow>
      err \<noteq> VIRP_OK \<Longrightarrow> mark s' = mark s"
begin

text \<open>The accepted numbers of a session grow strictly per node, and stay above the marks
  the run started from.\<close>

lemma run_increasing:
  assumes "inv s" and sid: "length sid = 16" and "length calls \<le> left s"
  shows "sorted_wrt (\<lambda>a b. fst a = fst b \<longrightarrow> snd a < snd b) (fst (accept_run accept s sid calls)) \<and>
    (\<forall>(n, q) \<in> set (fst (accept_run accept s sid calls)). \<forall>m. mark s (sid, n) = Some m \<longrightarrow> m < q)"
  using assms(1,3)
proof (induction calls arbitrary: s)
  case Nil
  then show ?case by simp
next
  case (Cons c calls)
  obtain n q where c: "c = (n, q)"
    by (cases c)
  obtain err s1 where a: "accept s sid n q = (err, s1)"
    by (cases "accept s sid n q")
  have l: "0 < left s"
    using Cons.prems by simp
  have i1: "inv s1" "length calls \<le> left s1"
    using accept_inv [OF Cons.prems(1) sid l a] Cons.prems(2) by simp_all
  note IH = Cons.IH [OF i1]
  obtain acc s2 where r: "accept_run accept s1 sid calls = (acc, s2)"
    by (cases "accept_run accept s1 sid calls")
  show ?case
  proof (cases "err = VIRP_OK")
    case False
    then show ?thesis
      using IH accept_refuse [OF Cons.prems(1) sid l a] by (simp add: c a r)
  next
    case True
    note ok = accept_ok [OF Cons.prems(1) sid l a [unfolded True]]
    note same = accept_session [OF Cons.prems(1) sid l a]
    have above: "q < q'" if "(n, q') \<in> set acc" for q'
      using IH that ok by (auto simp: r)
    have start: "m < q'" if x: "(n', q') \<in> set acc" and m: "mark s (sid, n') = Some m" for n' q' m
    proof (cases "n' = n")
      case True
      then show ?thesis
        using above x ok m by (metis less_trans)
    next
      case False
      then show ?thesis
        using same [OF False] IH x m by (auto simp: r)
    qed
    show ?thesis
      using IH ok above start by (auto simp: c a r True)
  qed
qed

lemma run_distinct:
  "inv s \<Longrightarrow> length sid = 16 \<Longrightarrow> length calls \<le> left s \<Longrightarrow>
   distinct (fst (accept_run accept s sid calls))"
  using run_increasing [of s sid calls]
    sorted_wrt_irrefl_distinct [of "\<lambda>a b. fst a = fst b \<longrightarrow> snd a < snd b"] by blast

end

lemma put_entry_tick: "ss_tick (put_entry i e n st) = ss_tick st + 1"
  by (simp add: put_entry_def)

interpretation seqstore: replay_store
  "\<lambda>st sid n q. virp_seqstore_accept io st (Some sid) n q" marks store_inv budget for io
proof unfold_locales
  fix s :: virp_seqstore_t and sid :: bytes and n n' q :: u64 and err and s'
  assume a: "store_inv s" "length sid = 16" "0 < budget s"
  { assume r: "virp_seqstore_accept io s (Some sid) n q = (err, s')"
    note o = accept_outcome [OF a r]
    show "store_inv s' \<and> budget s \<le> Suc (budget s')"
      by (rule o)
         (use a(1) budget_tick(2) [OF a(3)] budget_eq_tick put_entry_tick tick_only in \<open>auto simp: budget_def\<close>)
    show "marks s' (sid, n') = marks s (sid, n')" if "n' \<noteq> n"
      by (rule o) (use a(1) that in \<open>auto simp: tick_only put_entry_marks(2)\<close>, metis fst_conv)
    show "marks s' = marks s" if "err \<noteq> VIRP_OK"
      by (rule o) (use that in \<open>auto simp: tick_only\<close>) }
  assume r: "virp_seqstore_accept io s (Some sid) n q = (VIRP_OK, s')"
  show "marks s' (sid, n) = Some q \<and> (\<forall>m. marks s (sid, n) = Some m \<longrightarrow> m < q)"
  proof (rule accept_outcome [OF a r])
    fix i e k
    assume e: "s' = put_entry i e k s" "entry_key e = (sid, n)" "se_last_seq e = q"
      and i: "store_inv (put_entry i e k s)" "(i < ss_count s \<and> k = ss_count s) \<or>
        (i = ss_count s \<and> k = Suc i \<and> k \<le> VIRP_SEQSTORE_MAX_ENTRIES)"
      and "\<And>m. marks s (sid, n) = Some m \<Longrightarrow> m < q"
    then show ?thesis
      using put_entry_marks(1) [OF a(1) i] by simp
  qed simp_all
qed

section \<open>The file reads back as it was written\<close>

lemma parse_sid_hex: "length sid = n \<Longrightarrow> parse_sid n (sid_hex sid) = Some sid"
proof (induction sid arbitrary: n)
  case Nil
  then show ?case by (simp add: sid_hex_def)
next
  case (Cons b sid)
  have u: "unat b < 256"
    by (rule order_less_le_trans [OF unsigned_less]) simp
  have "(of_nat (unat b div 16 * 16 + unat b mod 16) :: byte) = b"
    by (simp only: div_mult_mod_eq) simp
  then show ?case
    using Cons hex2_value [OF u] by (auto simp: sid_hex_def hex2_def)
qed

lemma length_sid_hex: "length (sid_hex sid) = 2 * length sid"
  by (induction sid) (simp_all add: sid_hex_def hex2_def)

lemma sid_hex_digits: "c \<in> set (sid_hex sid) \<Longrightarrow> is_digit 16 c"
  by (auto simp: sid_hex_def hex2_def intro: is_digit_hex_digit)

lemma entry_line_scan:
  assumes "length (se_session_id e) = 16"
  shows "scan_line (entry_line e) = Some (sid_hex (se_session_id e), se_node_id e, se_last_seq e)"
proof -
  have sp: "is_space LF" "is_space (CHR '' '')"
    by (simp_all add: is_space_def)
  have u: "unat (x :: u64) < 18446744073709551616" for x
    by (rule order_less_le_trans [OF unsigned_less]) simp
  have "sid_hex (se_session_id e) \<noteq> []"
    using assms length_sid_hex [of "se_session_id e"] by auto
  then have w: "scan_word 40 (sid_hex (se_session_id e) @ CHR '' '' # r) =
      Some (sid_hex (se_session_id e), CHR '' '' # r)" for r
    using assms sid_hex_digits digit_not_special(1) length_sid_hex sp(2)
    by (intro scan_word_append) (blast | simp)+
  show ?thesis
    using scan_number_digits [of 16 "unat (se_node_id e)" "CHR '' ''"]
      scan_number_digits [of 10 "unat (se_last_seq e)" LF "[]"] u sp
    by (simp add: scan_line_def entry_line_def w)
qed

definition loaded :: "virp_seqstore_entry_t \<Rightarrow> virp_seqstore_t \<Rightarrow> virp_seqstore_t" where
  "loaded e st =
     st\<lparr>ss_entries := (ss_entries st)[ss_count st := e\<lparr>se_touched := ss_tick st + 1\<rparr>],
        ss_tick := ss_tick st + 1, ss_count := ss_count st + 1\<rparr>"

lemma entry_line_fgets:
  assumes "length (se_session_id e) = 16"
  shows "fgets 127 (entry_line e @ r) = (entry_line e, r)"
    and "hd (entry_line e) \<noteq> LF" "hd (entry_line e) \<noteq> CHR ''#''" "entry_line e \<noteq> []"
proof -
  let ?l = "sid_hex (se_session_id e) @ '' '' @ num_digits 16 (unat (se_node_id e)) @ '' '' @
     num_digits 10 (unat (se_last_seq e))"
  have u: "unat (x :: u64) < 18446744073709551616" for x
    by (rule order_less_le_trans [OF unsigned_less]) simp
  have l16: "length (num_digits 16 (unat (se_node_id e))) \<le> 16"
    by (rule num_digits_length) (use u [of "se_node_id e"] in simp_all)
  have l10: "length (num_digits 10 (unat (se_last_seq e))) \<le> 20"
    by (rule num_digits_length) (use u [of "se_last_seq e"] in \<open>simp_all\<close>)
  have len: "length ?l < 127"
    using assms l16 l10 by (simp add: length_sid_hex)
  have "LF \<notin> set (num_digits b n)" if "b = 10 \<or> b = 16" for b n
    using num_digits_value [of b n] that digit_not_special(6) [of b LF] by (auto simp: list_all_iff)
  moreover have "LF \<notin> set (sid_hex (se_session_id e))"
    using sid_hex_digits digit_not_special(6) by blast
  ultimately have "LF \<notin> set ?l"
    by simp
  from fgets_line [OF this len, of r] show "fgets 127 (entry_line e @ r) = (entry_line e, r)"
    by (simp add: entry_line_def)
  obtain c cs where c: "sid_hex (se_session_id e) = c # cs"
    using assms length_sid_hex [of "se_session_id e"] by (cases "sid_hex (se_session_id e)") auto
  then have "is_digit 16 c"
    using sid_hex_digits [of c "se_session_id e"] by simp
  then show "hd (entry_line e) \<noteq> LF" "hd (entry_line e) \<noteq> CHR ''#''" "entry_line e \<noteq> []"
    using digit_not_special(6,7) by (auto simp: entry_line_def c)
qed

lemma load_one:
  assumes "length (se_session_id e) = 16" "ss_count st < VIRP_SEQSTORE_MAX_ENTRIES"
  shows "load_lines st (entry_line e @ r) = load_lines (loaded e st) r"
proof -
  note f = entry_line_fgets [OF assms(1)]
  have p: "parse_sid 16 (sid_hex (se_session_id e)) = Some (se_session_id e)"
    using assms(1) by (rule parse_sid_hex)
  have upd: "loaded e st = st\<lparr>ss_entries := (ss_entries st)[ss_count st :=
      \<lparr>se_session_id = se_session_id e, se_node_id = se_node_id e,
       se_last_seq = se_last_seq e, se_touched = ss_tick st + 1\<rparr>],
      ss_tick := ss_tick st + 1, ss_count := ss_count st + 1\<rparr>"
    by (cases e) (simp add: loaded_def)
  show ?thesis
    using f p entry_line_scan [OF assms(1)] length_sid_hex [of "se_session_id e"] assms
    by (subst load_lines.simps) (simp add: Let_def upd del: LF_def)
qed

lemma loaded_count: "ss_count (loaded e st) = Suc (ss_count st)"
  by (simp add: loaded_def)

lemma load_all:
  assumes "\<And>e. e \<in> set es \<Longrightarrow> length (se_session_id e) = 16"
    and "ss_count st + length es \<le> VIRP_SEQSTORE_MAX_ENTRIES"
  shows "load_lines st (concat (map entry_line es)) = (VIRP_OK, fold loaded es st)"
  using assms
proof (induction es arbitrary: st)
  case Nil
  then show ?case by (simp add: load_lines.simps)
next
  case (Cons e es)
  have "load_lines st (concat (map entry_line (e # es))) = load_lines (loaded e st) (concat (map entry_line es))"
    using load_one [of e st "concat (map entry_line es)"] Cons.prems by simp
  also have "\<dots> = (VIRP_OK, fold loaded es (loaded e st))"
    using Cons.prems by (intro Cons.IH) (simp_all add: loaded_count)
  finally show ?case by simp
qed

lemma fold_loaded:
  assumes "ss_count st + length es \<le> length (ss_entries st)"
  shows "ss_count (fold loaded es st) = ss_count st + length es \<and>
    length (ss_entries (fold loaded es st)) = length (ss_entries st) \<and>
    (\<forall>i < ss_count st. ss_entries (fold loaded es st) ! i = ss_entries st ! i) \<and>
    (\<forall>i < length es. entry_key (ss_entries (fold loaded es st) ! (ss_count st + i)) = entry_key (es ! i) \<and>
       se_last_seq (ss_entries (fold loaded es st) ! (ss_count st + i)) = se_last_seq (es ! i))"
  using assms
proof (induction es arbitrary: st)
  case (Cons e es)
  have c: "ss_count (loaded e st) = Suc (ss_count st)" "length (ss_entries (loaded e st)) = length (ss_entries st)"
    by (simp_all add: loaded_def)
  have n: "ss_entries (loaded e st) ! i = (if i = ss_count st then e\<lparr>se_touched := ss_tick st + 1\<rparr> else ss_entries st ! i)" for i
    using Cons.prems by (simp add: loaded_def nth_list_update)
  let ?f = "fold loaded es (loaded e st)"
  have IH: "ss_count ?f = Suc (ss_count st) + length es" "length (ss_entries ?f) = length (ss_entries st)"
    "\<And>i. i < Suc (ss_count st) \<Longrightarrow> ss_entries ?f ! i = ss_entries (loaded e st) ! i"
    "\<And>i. i < length es \<Longrightarrow> entry_key (ss_entries ?f ! (Suc (ss_count st) + i)) = entry_key (es ! i) \<and>
       se_last_seq (ss_entries ?f ! (Suc (ss_count st) + i)) = se_last_seq (es ! i)"
    using Cons.IH [of "loaded e st"] Cons.prems unfolding c by auto
  have "entry_key (ss_entries ?f ! (ss_count st + i)) = entry_key ((e # es) ! i) \<and>
      se_last_seq (ss_entries ?f ! (ss_count st + i)) = se_last_seq ((e # es) ! i)"
    if "i < length (e # es)" for i
  proof (cases i)
    case 0
    then show ?thesis
      using IH(3) [of "ss_count st"] by (simp add: n entry_key_def)
  next
    case (Suc j)
    then show ?thesis
      using IH(4) [of j] that by simp
  qed
  then show ?case
    using IH(1,2) IH(3) n by simp
qed simp

lemma marks_cong:
  assumes "ss_count s = ss_count t"
    and "\<And>i. i < ss_count t \<Longrightarrow> entry_key (ss_entries s ! i) = entry_key (ss_entries t ! i) \<and>
      se_last_seq (ss_entries s ! i) = se_last_seq (ss_entries t ! i)"
  shows "marks s = marks t"
proof
  fix k
  have "find_mark s (fst k) (snd k) = find_mark t (fst k) (snd k)"
    unfolding find_mark_def assms(1)
    by (rule find_cong) (use assms(2) in \<open>auto simp: entry_key_def\<close>)
  then show "marks s k = marks t k"
    using assms(2) find_mark_SomeD [of t "fst k" "snd k"]
    by (cases "find_mark t (fst k) (snd k)") (auto simp: marks_def)
qed

lemma load_store_text:
  assumes "store_inv st"
  shows "\<exists>st'. load_lines (empty_store\<lparr>ss_path := p\<rparr>) (store_text st) = (VIRP_OK, st') \<and>
    marks st' = marks st \<and> ss_count st' = ss_count st"
proof -
  let ?es = "take (ss_count st) (ss_entries st)" and ?s0 = "empty_store\<lparr>ss_path := p\<rparr>"
  note d = store_invD [OF assms]
  have l: "length ?es = ss_count st"
    using d(1,2) by simp
  have "length (se_session_id e) = 16" if "e \<in> set ?es" for e
    using that d(3) l by (auto simp: in_set_conv_nth)
  then have load: "load_lines ?s0 (store_text st) = (VIRP_OK, fold loaded ?es ?s0)"
    unfolding store_text_def using d(2) l by (intro load_all) (auto simp: empty_store_def)
  have "ss_count ?s0 + length ?es \<le> length (ss_entries ?s0)"
    using d(2) l by (simp add: empty_store_def)
  note f = fold_loaded [OF this]
  have z: "ss_count ?s0 = 0"
    by (simp add: empty_store_def)
  have "entry_key (ss_entries (fold loaded ?es ?s0) ! i) = entry_key (ss_entries st ! i) \<and>
      se_last_seq (ss_entries (fold loaded ?es ?s0) ! i) = se_last_seq (ss_entries st ! i)"
    if "i < ss_count st" for i
    using f that unfolding l z by simp
  moreover have c: "ss_count (fold loaded ?es ?s0) = ss_count st"
    using f unfolding l z by simp
  ultimately have "marks (fold loaded ?es ?s0) = marks st"
    by (intro marks_cong) blast+
  then show ?thesis
    using load c by blast
qed

section \<open>When an accept succeeds\<close>

lemma empty_store_inv: "store_inv empty_store" "marks empty_store k = None"
  "0 < budget empty_store"
  by (simp_all add: store_inv_def marks_def find_mark_def empty_store_def budget_def)

text \<open>A slot for the session: its mark, a free slot, or an entry of another session.\<close>

definition has_room :: "virp_seqstore_t \<Rightarrow> bytes \<Rightarrow> u64 \<Rightarrow> bool" where
  "has_room st sid nid \<longleftrightarrow> marks st (sid, nid) \<noteq> None \<or> ss_count st < VIRP_SEQSTORE_MAX_ENTRIES \<or>
     (\<exists>i < VIRP_SEQSTORE_MAX_ENTRIES. se_session_id (ss_entries st ! i) \<noteq> sid)"

lemma save_ok: "(\<And>t. io t) \<Longrightarrow> seqstore_save io st = VIRP_OK"
  by (simp add: seqstore_save_def)

lemma accept_succeeds:
  assumes inv: "store_inv st" and io: "\<And>t. io t" and m: "\<And>x. marks st (sid, nid) = Some x \<Longrightarrow> x < seq"
    and room: "has_room st sid nid"
  shows "\<exists>st'. virp_seqstore_accept io st (Some sid) nid seq = (VIRP_OK, st')"
proof (cases "find_mark st sid nid")
  case (Some i)
  then have "se_last_seq (ss_entries st ! i) < seq"
    using m by (simp add: marks_def)
  moreover have "i < length (ss_entries st)"
    using find_mark_SomeD [OF Some] store_invD(1,2) [OF inv] by simp
  ultimately show ?thesis
    using accept_raise [OF Some] save_ok [OF io] by simp
next
  case None
  show ?thesis
  proof (cases "ss_count st < VIRP_SEQSTORE_MAX_ENTRIES")
    case True
    then show ?thesis
      using accept_append [OF None True inv] save_ok [OF io] by simp
  next
    case False
    have "marks st (sid, nid) = None"
      by (simp add: marks_def None)
    then obtain i where "lru_victim st sid = Some i"
      using room False lru_victim_None [of st sid] by (auto simp: has_room_def)
    then show ?thesis
      using accept_evict [OF None False inv] save_ok [OF io] by simp
  qed
qed

text \<open>A failed call leaves every slot and the count as they were; the tick may advance.\<close>

lemma accept_failed:
  assumes "store_inv st" "length sid = 16" "0 < budget st"
    and "virp_seqstore_accept io st (Some sid) nid seq = (err, st')" "err \<noteq> VIRP_OK"
  shows "ss_entries st' = ss_entries st \<and> ss_count st' = ss_count st \<and> ss_path st' = ss_path st"
  by (rule accept_outcome [OF assms(1-4)]) (use assms(5) in simp_all)

end
