(* ===== verification/Virp_Keys.thy ===== *)
theory Virp_Keys
  imports Virp_Crypto Virp_Text
begin

text \<open>
  Key files and signing key pairs: the durable file write of \<open>src/virp_crypto.c\<close>, and the
  Ed25519 keys of the three roles, observation signing (\<open>src/virp_obskey.c\<close>), federation
  (\<open>src/virp_federation.c\<close>) and chain signing (\<open>src/virp_chainsign.c\<close>). A file system is a map
  from paths to what the loaders see of a file; the answers of the operating system to each
  call are arguments. \<open>key_role\<close> is the contract the three loaders share.
\<close>

type_synonym fsys = "string \<Rightarrow> key_file option"

definition plain_file :: "nat \<Rightarrow> u32 \<Rightarrow> bytes \<Rightarrow> key_file" where
  "plain_file uid mode d = \<lparr>kf_symlink = False, kf_stat_ok = True, kf_regular = True, kf_mode = mode,
     kf_uid = uid, kf_size = length d, kf_data = Some d\<rparr>"

section \<open>The durable write\<close>

datatype write_answer = Wrote nat | WEintr | WFail

text \<open>The writing loop with the answers of successive \<open>write\<close> calls: \<open>None\<close> when it is still
  running after all of them, otherwise whether all was written and the offsets reached.\<close>

fun write_loop :: "nat \<Rightarrow> nat \<Rightarrow> write_answer list \<Rightarrow> (bool \<times> nat list) option" where
  "write_loop len off ws =
     (if off \<ge> len then Some (True, [])
      else case ws of
        [] \<Rightarrow> None
      | WEintr # r \<Rightarrow> write_loop len off r
      | WFail # _ \<Rightarrow> Some (False, [])
      | Wrote n # r \<Rightarrow>
          let off1 = off + min n (len - off)
          in map_option (\<lambda>(b, l). (b, off1 # l)) (write_loop len off1 r))"

declare write_loop.simps [simp del]

text \<open>The answers to the other calls; \<open>oa_unlink\<close> is success or ENOENT, \<open>oa_umask\<close> the mask
  \<open>open\<close> applies to the mode, \<open>oa_cleanup\<close> the result of the \<open>unlink\<close> on the error paths, which
  the code ignores.\<close>

record os_answers =
  oa_unlink :: bool
  oa_open :: bool
  oa_umask :: u32
  oa_fchmod :: bool
  oa_writes :: "write_answer list"
  oa_fsync :: bool
  oa_rename :: bool
  oa_cleanup :: bool

definition tmp_name :: "string \<Rightarrow> string" where
  "tmp_name path = path @ ''.tmp''"

text \<open>The result is the error code and the file system after each call that changes it, oldest
  first; \<open>None\<close> when the writing loop has not returned. The final directory \<open>fsync\<close> is best
  effort and changes no content.\<close>

definition virp_write_file_durable ::
    "os_answers \<Rightarrow> nat \<Rightarrow> fsys \<Rightarrow> string ptr \<Rightarrow> u32 \<Rightarrow> bytes ptr \<Rightarrow> (virp_error_t \<times> fsys list) option" where
  "virp_write_file_durable os euid fs path mode buf =
     (case (path, buf) of
        (Some p, Some d) \<Rightarrow>
          let tmp = tmp_name p; gone = (\<lambda>f. if oa_cleanup os then f(tmp := None) else f)
          in if length tmp \<ge> 4096 then Some (VIRP_ERR_INVALID_LENGTH, [fs])
             else if \<not> oa_unlink os then Some (VIRP_ERR_CHAIN_DB, [fs])
             else
               let fs0 = fs(tmp := None)
               in if \<not> oa_open os then Some (VIRP_ERR_CHAIN_DB, [fs, fs0])
                  else
                    let fs1 = fs0(tmp \<mapsto> plain_file euid (mode AND NOT (oa_umask os)) [])
                    in if \<not> oa_fchmod os then Some (VIRP_ERR_CHAIN_DB, [fs, fs0, fs1, gone fs1])
                       else
                         let fs2 = fs0(tmp \<mapsto> plain_file euid mode [])
                         in (case write_loop (length d) 0 (oa_writes os) of
                               None \<Rightarrow> None
                             | Some (ok, offs) \<Rightarrow>
                                 let tr = [fs, fs0, fs1, fs2] @
                                       map (\<lambda>n. fs0(tmp \<mapsto> plain_file euid mode (take n d))) offs
                                 in if \<not> ok then Some (VIRP_ERR_CHAIN_DB, tr @ [gone (last tr)])
                                    else if \<not> oa_fsync os then Some (VIRP_ERR_CHAIN_DB, tr @ [gone (last tr)])
                                    else if \<not> oa_rename os then Some (VIRP_ERR_CHAIN_DB, tr @ [gone (last tr)])
                                    else Some (VIRP_OK, tr @ [fs0(p \<mapsto> plain_file euid mode d)]))
      | _ \<Rightarrow> Some (VIRP_ERR_NULL_PTR, [fs]))"

definition virp_key_save_file ::
    "os_answers \<Rightarrow> nat \<Rightarrow> fsys \<Rightarrow> virp_signing_key_t ptr \<Rightarrow> string ptr \<Rightarrow> (virp_error_t \<times> fsys list) option" where
  "virp_key_save_file os euid fs sk path =
     (case (sk, path) of
        (Some k, Some p) \<Rightarrow>
          if \<not> sk_loaded k then Some (VIRP_ERR_KEY_NOT_LOADED, [fs])
          else map_option (\<lambda>(e, tr). (if e \<noteq> VIRP_OK then VIRP_ERR_KEY_NOT_LOADED else VIRP_OK, tr))
                 (virp_write_file_durable os euid fs (Some p) 0x180 (Some (sk_key k)))
      | _ \<Rightarrow> Some (VIRP_ERR_NULL_PTR, [fs]))"

section \<open>Properties of the durable write\<close>

lemma write_loop_complete:
  "write_loop len off ws = Some (ok, offs) \<Longrightarrow> ok \<Longrightarrow> off \<le> len \<Longrightarrow> last (off # offs) = len"
proof (induction len off ws arbitrary: offs rule: write_loop.induct)
  case (1 len off ws)
  show ?case
  proof (cases "off \<ge> len")
    case True
    then show ?thesis
      using 1(3-) unfolding write_loop.simps [of len off ws] by simp
  next
    case False
    note e = 1(3) [unfolded write_loop.simps [of len off ws]]
    show ?thesis
    proof (cases ws)
      case Nil
      then show ?thesis using e False by simp
    next
      case (Cons a r)
      show ?thesis
      proof (cases a)
        case (Wrote n)
        define off1 where "off1 = off + min n (len - off)"
        obtain l where l: "write_loop len off1 r = Some (ok, l)" "offs = off1 # l"
          using e False unfolding Cons Wrote by (auto simp: off1_def Let_def)
        have "off1 \<le> len"
          using False by (simp add: off1_def)
        then show ?thesis
          using 1(1) [OF False Cons Wrote off1_def l(1) 1(4)] l(2) by simp
      next
        case WEintr
        then show ?thesis
          using 1(2) [OF False Cons WEintr _ 1(4,5)] e False Cons by simp
      next
        case WFail
        then show ?thesis
          using e False Cons 1(4) by simp
      qed
    qed
  qed
qed

text \<open>The loop returns once the kernel has taken as many non-empty writes as there are octets,
  however many interrupted and empty ones lie between.\<close>

definition progress :: "write_answer \<Rightarrow> bool" where
  "progress a = (case a of Wrote n \<Rightarrow> 0 < n | _ \<Rightarrow> False)"

lemma progress_simps [simp]: "progress (Wrote n) \<longleftrightarrow> 0 < n" "\<not> progress WEintr" "\<not> progress WFail"
  by (simp_all add: progress_def)

lemma write_loop_returns:
  assumes "WFail \<notin> set ws" and "len \<le> off + length (filter progress ws)"
  shows "\<exists>offs. write_loop len off ws = Some (True, offs)"
  using assms
proof (induction ws arbitrary: off)
  case Nil
  then show ?case by (simp add: write_loop.simps [of len off "[]"])
next
  case (Cons a ws)
  note w = write_loop.simps [of len off "a # ws"]
  show ?case
  proof (cases "off \<ge> len")
    case True
    then show ?thesis unfolding w by simp
  next
    case False
    show ?thesis
    proof (cases a)
      case (Wrote n)
      have "len \<le> off + min n (len - off) + length (filter progress ws)"
        using Cons.prems(2) False by (cases n) (simp_all add: Wrote)
      then obtain offs where "write_loop len (off + min n (len - off)) ws = Some (True, offs)"
        using Cons.IH Cons.prems(1) by (meson list.set_intros(2))
      then show ?thesis
        using False w unfolding Wrote by (simp add: Let_def)
    next
      case WEintr
      then show ?thesis
        using Cons False w by simp
    next
      case WFail
      then show ?thesis using Cons.prems(1) by simp
    qed
  qed
qed

lemma tmp_name_neq [simp]: "tmp_name p \<noteq> p" "p \<noteq> tmp_name p"
  by (simp_all add: tmp_name_def)

text \<open>At every moment the destination holds the old file or the complete new one, and it holds
  the new one exactly when the call succeeds.\<close>

lemma durable_atomic:
  assumes "virp_write_file_durable os euid fs (Some p) mode (Some d) = Some (err, tr)"
  shows "tr \<noteq> []" "\<forall>f \<in> set (butlast tr). f p = fs p"
    "last tr p = (if err = VIRP_OK then Some (plain_file euid mode d) else fs p)"
    "\<forall>f \<in> set tr. \<forall>q. q \<noteq> p \<longrightarrow> q \<noteq> tmp_name p \<longrightarrow> f q = fs q"
  using assms unfolding virp_write_file_durable_def Let_def
  by (auto simp: last_map split: if_splits option.splits prod.splits)

text \<open>What the custody gate lets through.\<close>

definition in_custody :: "nat \<Rightarrow> nat \<Rightarrow> key_file \<Rightarrow> bool" where
  "in_custody euid want f \<longleftrightarrow> \<not> kf_symlink f \<and> kf_stat_ok f \<and> kf_regular f \<and> kf_mode f AND 0x3F = 0 \<and>
     virp_key_owner_ok (kf_uid f) euid \<and> kf_size f = want"

lemma keyfile_secret_Inr_iff:
  "virp_keyfile_read fs euid path True want = Inr bs \<longleftrightarrow>
   0 < want \<and> length bs = want \<and>
   (\<exists>f d. fs path = Some f \<and> in_custody euid want f \<and> kf_data f = Some d \<and> bs = take want d)"
  by (auto simp: virp_keyfile_read_def in_custody_def read_exact_def split: option.splits if_splits)

lemma keyfile_plain:
  assumes "fs path = Some (plain_file euid mode d)" "0 < length d" "secret \<Longrightarrow> mode AND 0x3F = 0"
  shows "virp_keyfile_read fs euid path secret (length d) = Inr d"
  using assms by (auto simp: virp_keyfile_read_def plain_file_def read_exact_def virp_key_owner_ok_def)

section \<open>Key pairs\<close>

definition VIRP_OBSKEY_PK_SIZE :: nat where [simp]: "VIRP_OBSKEY_PK_SIZE = 32"
definition VIRP_OBSKEY_SK_SIZE :: nat where [simp]: "VIRP_OBSKEY_SK_SIZE = 64"
definition VIRP_OBSKEY_KEYID_SIZE :: nat where [simp]: "VIRP_OBSKEY_KEYID_SIZE = 16"
definition VIRP_FED_PK_SIZE :: nat where [simp]: "VIRP_FED_PK_SIZE = 32"
definition VIRP_FED_SK_SIZE :: nat where [simp]: "VIRP_FED_SK_SIZE = 64"
definition VIRP_FED_KEYID_SIZE :: nat where [simp]: "VIRP_FED_KEYID_SIZE = 16"
definition VIRP_CHAINSIGN_PK_SIZE :: nat where [simp]: "VIRP_CHAINSIGN_PK_SIZE = 32"
definition VIRP_CHAINSIGN_SK_SIZE :: nat where [simp]: "VIRP_CHAINSIGN_SK_SIZE = 64"
definition VIRP_CHAINSIGN_SEED_SIZE :: nat where [simp]: "VIRP_CHAINSIGN_SEED_SIZE = 32"
definition VIRP_CHAINSIGN_SIG_SIZE :: nat where [simp]: "VIRP_CHAINSIGN_SIG_SIZE = 64"
definition VIRP_CHAINSIGN_KEYID_SIZE :: nat where [simp]: "VIRP_CHAINSIGN_KEYID_SIZE = 16"
definition CHAINSIGN_MAX_INPUT :: nat where [simp]: "CHAINSIGN_MAX_INPUT = 4096"

record virp_obskey_t =
  ok_public_key :: bytes
  ok_secret_key :: bytes
  ok_key_id :: bytes
  ok_loaded :: bool
  ok_locked :: bool

record virp_fed_keypair_t =
  fk_public_key :: bytes
  fk_secret_key :: bytes
  fk_key_id :: bytes
  fk_key_version :: u32
  fk_loaded :: bool
  fk_locked :: bool

record virp_chainsign_key_t =
  ck_public_key :: bytes
  ck_secret_key :: bytes
  ck_key_id :: bytes
  ck_key_id_hex :: string
  ck_loaded :: bool
  ck_locked :: bool

text \<open>The cross-check of a secret key file: the public half derived from the seed must be the
  stored half. \<open>None\<close> is the refusal as corrupt.\<close>

definition derived_pk :: "crypto_lib \<Rightarrow> bytes \<Rightarrow> bytes option" where
  "derived_pk C sk =
     (case crypto_sign_seed_keypair C (take 32 sk) of
        None \<Rightarrow> None
      | Some (pk, _) \<Rightarrow> if pk \<noteq> drop 32 sk then None else Some pk)"

text \<open>\<open>open(O_CREAT | O_EXCL)\<close>, one \<open>write\<close>, \<open>close\<close>: \<open>ans path\<close> is \<open>None\<close> when the open fails for
  a reason of its own, otherwise what \<open>write\<close> returns.\<close>

definition create_file ::
    "(string \<Rightarrow> nat option) \<Rightarrow> nat \<Rightarrow> fsys \<Rightarrow> string \<Rightarrow> u32 \<Rightarrow> bytes \<Rightarrow> bool \<times> fsys" where
  "create_file ans euid fs path mode d =
     (case (fs path, ans path) of
        (None, Some n) \<Rightarrow> (n = length d, fs(path \<mapsto> plain_file euid mode (take n d)))
      | _ \<Rightarrow> (False, fs))"

subsection \<open>Observation keys\<close>

definition obskey_key_id :: "crypto_lib \<Rightarrow> bytes \<Rightarrow> bytes" where
  "obskey_key_id C pk = take VIRP_OBSKEY_KEYID_SIZE (SHA256 C pk)"

text \<open>\<open>pair\<close> is what \<open>crypto_sign_keypair\<close> delivers, \<open>init_ok\<close> and \<open>mlock_ok\<close> the results of
  \<open>sodium_init\<close> and \<open>sodium_mlock\<close>.\<close>

definition virp_obskey_generate ::
    "crypto_lib \<Rightarrow> bool \<Rightarrow> bool \<Rightarrow> (bytes \<times> bytes) option \<Rightarrow> virp_error_t + virp_obskey_t" where
  "virp_obskey_generate C init_ok mlock_ok pair =
     (if \<not> init_ok then Inl VIRP_ERR_CRYPTO
      else case pair of
        None \<Rightarrow> Inl VIRP_ERR_CRYPTO
      | Some (pk, sk) \<Rightarrow> Inr \<lparr>ok_public_key = pk, ok_secret_key = sk, ok_key_id = obskey_key_id C pk,
                              ok_loaded = True, ok_locked = mlock_ok\<rparr>)"

definition virp_obskey_save ::
    "(string \<Rightarrow> nat option) \<Rightarrow> nat \<Rightarrow> fsys \<Rightarrow> virp_obskey_t ptr \<Rightarrow> string ptr \<Rightarrow> string ptr \<Rightarrow>
     virp_error_t \<times> fsys" where
  "virp_obskey_save ans euid fs kp sk_path pk_path =
     (case (kp, sk_path, pk_path) of
        (Some k, Some sp, Some pp) \<Rightarrow>
          if \<not> ok_loaded k then (VIRP_ERR_KEY_NOT_LOADED, fs)
          else
            let (ok, fs1) = create_file ans euid fs sp 0x180 (ok_secret_key k)
            in if \<not> ok then (VIRP_ERR_KEY_NOT_LOADED, fs1)
               else
                 let (ok2, fs2) = create_file ans euid fs1 pp 0x1A4 (ok_public_key k)
                 in if \<not> ok2 then (VIRP_ERR_KEY_NOT_LOADED, fs2) else (VIRP_OK, fs2)
      | _ \<Rightarrow> (VIRP_ERR_NULL_PTR, fs))"

definition virp_obskey_load ::
    "crypto_lib \<Rightarrow> bool \<Rightarrow> bool \<Rightarrow> fsys \<Rightarrow> nat \<Rightarrow> string ptr \<Rightarrow> virp_error_t + virp_obskey_t" where
  "virp_obskey_load C init_ok mlock_ok fs euid sk_path =
     (case sk_path of
        None \<Rightarrow> Inl VIRP_ERR_NULL_PTR
      | Some path \<Rightarrow>
          if \<not> init_ok then Inl VIRP_ERR_CRYPTO
          else (case virp_keyfile_read fs euid path True VIRP_OBSKEY_SK_SIZE of
                  Inl e \<Rightarrow> Inl e
                | Inr sk \<Rightarrow>
                    (case derived_pk C sk of
                       None \<Rightarrow> Inl VIRP_ERR_CRYPTO
                     | Some pk \<Rightarrow>
                         Inr \<lparr>ok_public_key = pk, ok_secret_key = sk, ok_key_id = obskey_key_id C pk,
                              ok_loaded = True, ok_locked = mlock_ok\<rparr>)))"

definition ED25519_SPKI_PREFIX :: bytes where
  "ED25519_SPKI_PREFIX = [0x30, 0x2a, 0x30, 0x05, 0x06, 0x03, 0x2b, 0x65, 0x70, 0x03, 0x21, 0x00]"

definition virp_approver_ed25519_spki :: "bytes \<Rightarrow> bytes" where
  "virp_approver_ed25519_spki pub = ED25519_SPKI_PREFIX @ pub"

definition virp_obskey_spki :: "virp_obskey_t ptr \<Rightarrow> virp_error_t + bytes" where
  "virp_obskey_spki kp =
     (case kp of
        None \<Rightarrow> Inl VIRP_ERR_NULL_PTR
      | Some k \<Rightarrow> if \<not> ok_loaded k then Inl VIRP_ERR_KEY_NOT_LOADED
                   else Inr (virp_approver_ed25519_spki (ok_public_key k)))"

definition virp_obskey_destroy :: "virp_obskey_t \<Rightarrow> virp_obskey_t" where
  "virp_obskey_destroy kp = \<lparr>ok_public_key = replicate 32 0, ok_secret_key = replicate 64 0,
     ok_key_id = replicate 16 0, ok_loaded = False, ok_locked = False\<rparr>"

subsection \<open>Federation keys\<close>

definition virp_fed_compute_key_id :: "crypto_lib \<Rightarrow> bytes \<Rightarrow> bytes" where
  "virp_fed_compute_key_id C pk = take VIRP_FED_KEYID_SIZE (SHA256 C pk)"

definition zero_fed :: virp_fed_keypair_t where
  "zero_fed = \<lparr>fk_public_key = replicate 32 0, fk_secret_key = replicate 64 0, fk_key_id = replicate 16 0,
     fk_key_version = 0, fk_loaded = False, fk_locked = False\<rparr>"

definition virp_fed_mlock_key :: "bool \<Rightarrow> virp_fed_keypair_t ptr \<Rightarrow> virp_error_t \<times> virp_fed_keypair_t ptr" where
  "virp_fed_mlock_key mlock_ok kp =
     (case kp of
        None \<Rightarrow> (VIRP_ERR_NULL_PTR, None)
      | Some k \<Rightarrow> if \<not> fk_loaded k then (VIRP_ERR_KEY_NOT_LOADED, Some k)
                   else (VIRP_OK, Some (if mlock_ok then k\<lparr>fk_locked := True\<rparr> else k)))"

definition locked_fed :: "bool \<Rightarrow> virp_fed_keypair_t \<Rightarrow> virp_fed_keypair_t" where
  "locked_fed mlock_ok k = the (snd (virp_fed_mlock_key mlock_ok (Some k)))"

definition virp_fed_generate ::
    "crypto_lib \<Rightarrow> bool \<Rightarrow> (bytes \<times> bytes) option \<Rightarrow> u32 \<Rightarrow> virp_error_t + virp_fed_keypair_t" where
  "virp_fed_generate C mlock_ok pair key_version =
     (case pair of
        None \<Rightarrow> Inl VIRP_ERR_KEY_NOT_LOADED
      | Some (pk, sk) \<Rightarrow>
          Inr (locked_fed mlock_ok
                 \<lparr>fk_public_key = pk, fk_secret_key = sk, fk_key_id = virp_fed_compute_key_id C pk,
                  fk_key_version = key_version, fk_loaded = True, fk_locked = False\<rparr>))"

definition virp_fed_from_secret ::
    "crypto_lib \<Rightarrow> bool \<Rightarrow> bytes ptr \<Rightarrow> u32 \<Rightarrow> virp_error_t + virp_fed_keypair_t" where
  "virp_fed_from_secret C mlock_ok sk key_version =
     (case sk of
        None \<Rightarrow> Inl VIRP_ERR_NULL_PTR
      | Some s \<Rightarrow>
          (case derived_pk C s of
             None \<Rightarrow> Inl VIRP_ERR_CRYPTO
           | Some pk \<Rightarrow>
               Inr (locked_fed mlock_ok
                      \<lparr>fk_public_key = pk, fk_secret_key = s, fk_key_id = virp_fed_compute_key_id C pk,
                       fk_key_version = key_version, fk_loaded = True, fk_locked = False\<rparr>)))"

definition virp_fed_load ::
    "crypto_lib \<Rightarrow> bool \<Rightarrow> fsys \<Rightarrow> nat \<Rightarrow> string ptr \<Rightarrow> string ptr \<Rightarrow> u32 \<Rightarrow>
     virp_error_t + virp_fed_keypair_t" where
  "virp_fed_load C mlock_ok fs euid pk_path sk_path key_version =
     (case (pk_path, sk_path) of
        (Some pp, Some sp) \<Rightarrow>
          (case virp_keyfile_read fs euid sp True VIRP_FED_SK_SIZE of
             Inl e \<Rightarrow> Inl e
           | Inr sk \<Rightarrow>
               (case virp_fed_from_secret C mlock_ok (Some sk) key_version of
                  Inl e \<Rightarrow> Inl e
                | Inr k \<Rightarrow>
                    (case virp_keyfile_read fs euid pp False VIRP_FED_PK_SIZE of
                       Inl e \<Rightarrow> Inl e
                     | Inr filed_pk \<Rightarrow>
                         if filed_pk \<noteq> fk_public_key k then Inl VIRP_ERR_CRYPTO
                         else Inr (locked_fed mlock_ok
                                (k\<lparr>fk_key_id := virp_fed_compute_key_id C (fk_public_key k),
                                   fk_key_version := key_version, fk_loaded := True\<rparr>)))))
      | _ \<Rightarrow> Inl VIRP_ERR_NULL_PTR)"

definition virp_fed_save ::
    "(string \<Rightarrow> nat option) \<Rightarrow> nat \<Rightarrow> fsys \<Rightarrow> virp_fed_keypair_t ptr \<Rightarrow> string ptr \<Rightarrow> string ptr \<Rightarrow>
     virp_error_t \<times> fsys" where
  "virp_fed_save ans euid fs kp pk_path sk_path =
     (case (kp, pk_path, sk_path) of
        (Some k, Some pp, Some sp) \<Rightarrow>
          if \<not> fk_loaded k then (VIRP_ERR_KEY_NOT_LOADED, fs)
          else
            let (ok, fs1) = create_file ans euid fs pp 0x1A4 (fk_public_key k)
            in if \<not> ok then (VIRP_ERR_KEY_NOT_LOADED, fs1)
               else
                 let (ok2, fs2) = create_file ans euid fs1 sp 0x180 (fk_secret_key k)
                 in if \<not> ok2 then (VIRP_ERR_KEY_NOT_LOADED, fs2) else (VIRP_OK, fs2)
      | _ \<Rightarrow> (VIRP_ERR_NULL_PTR, fs))"

definition virp_fed_sign :: "crypto_lib \<Rightarrow> virp_fed_keypair_t ptr \<Rightarrow> bytes ptr \<Rightarrow> virp_error_t + bytes" where
  "virp_fed_sign C kp data =
     (case (kp, data) of
        (Some k, Some d) \<Rightarrow>
          if \<not> fk_loaded k then Inl VIRP_ERR_KEY_NOT_LOADED
          else (case crypto_sign_detached C (fk_secret_key k) d of
                  None \<Rightarrow> Inl VIRP_ERR_HMAC_FAILED
                | Some sig \<Rightarrow> Inr sig)
      | _ \<Rightarrow> Inl VIRP_ERR_NULL_PTR)"

definition virp_fed_verify :: "crypto_lib \<Rightarrow> bytes ptr \<Rightarrow> bytes ptr \<Rightarrow> bytes ptr \<Rightarrow> virp_error_t" where
  "virp_fed_verify C pk data sig =
     (case (pk, data, sig) of
        (Some p, Some d, Some s) \<Rightarrow>
          if \<not> crypto_sign_verify_detached C p d s then VIRP_ERR_HMAC_FAILED else VIRP_OK
      | _ \<Rightarrow> VIRP_ERR_NULL_PTR)"

definition virp_fed_destroy :: "virp_fed_keypair_t \<Rightarrow> virp_fed_keypair_t" where
  "virp_fed_destroy kp = zero_fed"

subsection \<open>Chain-signing keys\<close>

definition VIRP_CHAINSIGN_TAG_ENTRY :: string where
  "VIRP_CHAINSIGN_TAG_ENTRY = ''VIRP-CHAIN-ENTRY-SIG-v1''"

definition VIRP_CHAINSIGN_TAG_HEAD :: string where
  "VIRP_CHAINSIGN_TAG_HEAD = ''VIRP-CHAIN-HEAD-SIG-v1''"

definition virp_chainsign_key_id :: "crypto_lib \<Rightarrow> bytes \<Rightarrow> bytes" where
  "virp_chainsign_key_id C pk = take VIRP_CHAINSIGN_KEYID_SIZE (SHA256 C pk)"

definition virp_chainsign_key_id_hex :: "crypto_lib \<Rightarrow> bytes \<Rightarrow> string" where
  "virp_chainsign_key_id_hex C pk = bytes_hex (virp_chainsign_key_id C pk)"

definition chainsign_finish :: "crypto_lib \<Rightarrow> bool \<Rightarrow> bytes \<Rightarrow> bytes \<Rightarrow> virp_chainsign_key_t" where
  "chainsign_finish C mlock_ok pk sk =
     \<lparr>ck_public_key = pk, ck_secret_key = sk, ck_key_id = virp_chainsign_key_id C pk,
      ck_key_id_hex = virp_chainsign_key_id_hex C pk, ck_loaded = True, ck_locked = mlock_ok\<rparr>"

definition virp_chainsign_generate ::
    "crypto_lib \<Rightarrow> bool \<Rightarrow> bool \<Rightarrow> (bytes \<times> bytes) option \<Rightarrow> virp_error_t + virp_chainsign_key_t" where
  "virp_chainsign_generate C init_ok mlock_ok pair =
     (if \<not> init_ok then Inl VIRP_ERR_CRYPTO
      else case pair of
        None \<Rightarrow> Inl VIRP_ERR_CRYPTO
      | Some (pk, sk) \<Rightarrow> Inr (chainsign_finish C mlock_ok pk sk))"

definition virp_chainsign_from_seed ::
    "crypto_lib \<Rightarrow> bool \<Rightarrow> bool \<Rightarrow> bytes ptr \<Rightarrow> virp_error_t + virp_chainsign_key_t" where
  "virp_chainsign_from_seed C init_ok mlock_ok seed =
     (case seed of
        None \<Rightarrow> Inl VIRP_ERR_NULL_PTR
      | Some s \<Rightarrow>
          if \<not> init_ok then Inl VIRP_ERR_CRYPTO
          else (case crypto_sign_seed_keypair C s of
                  None \<Rightarrow> Inl VIRP_ERR_CRYPTO
                | Some (pk, sk) \<Rightarrow> Inr (chainsign_finish C mlock_ok pk sk)))"

definition virp_chainsign_save ::
    "(string \<Rightarrow> nat option) \<Rightarrow> nat \<Rightarrow> fsys \<Rightarrow> virp_chainsign_key_t ptr \<Rightarrow> string ptr \<Rightarrow> string ptr \<Rightarrow>
     virp_error_t \<times> fsys" where
  "virp_chainsign_save ans euid fs kp sk_path pk_path =
     (case (kp, sk_path, pk_path) of
        (Some k, Some sp, Some pp) \<Rightarrow>
          if \<not> ck_loaded k then (VIRP_ERR_KEY_NOT_LOADED, fs)
          else
            let (ok, fs1) = create_file ans euid fs sp 0x180 (ck_secret_key k)
            in if \<not> ok then (VIRP_ERR_KEY_NOT_LOADED, fs1)
               else
                 let (ok2, fs2) = create_file ans euid fs1 pp 0x1A4 (ck_public_key k)
                 in if \<not> ok2 then (VIRP_ERR_KEY_NOT_LOADED, fs2) else (VIRP_OK, fs2)
      | _ \<Rightarrow> (VIRP_ERR_NULL_PTR, fs))"

definition virp_chainsign_load ::
    "crypto_lib \<Rightarrow> bool \<Rightarrow> bool \<Rightarrow> fsys \<Rightarrow> nat \<Rightarrow> string ptr \<Rightarrow> virp_error_t + virp_chainsign_key_t" where
  "virp_chainsign_load C init_ok mlock_ok fs euid sk_path =
     (case sk_path of
        None \<Rightarrow> Inl VIRP_ERR_NULL_PTR
      | Some path \<Rightarrow>
          if \<not> init_ok then Inl VIRP_ERR_CRYPTO
          else (case virp_keyfile_read fs euid path True VIRP_CHAINSIGN_SK_SIZE of
                  Inl e \<Rightarrow> Inl e
                | Inr sk \<Rightarrow>
                    (case derived_pk C sk of
                       None \<Rightarrow> Inl VIRP_ERR_CRYPTO
                     | Some pk \<Rightarrow> Inr (chainsign_finish C mlock_ok pk sk))))"

definition virp_chainsign_load_public ::
    "crypto_lib \<Rightarrow> bool \<Rightarrow> fsys \<Rightarrow> nat \<Rightarrow> string ptr \<Rightarrow> virp_error_t + bytes \<times> string" where
  "virp_chainsign_load_public C init_ok fs euid pk_path =
     (case pk_path of
        None \<Rightarrow> Inl VIRP_ERR_NULL_PTR
      | Some path \<Rightarrow>
          if \<not> init_ok then Inl VIRP_ERR_CRYPTO
          else (case virp_keyfile_read fs euid path False VIRP_CHAINSIGN_PK_SIZE of
                  Inl e \<Rightarrow> Inl e
                | Inr pk \<Rightarrow> Inr (pk, virp_chainsign_key_id_hex C pk)))"

text \<open>Tag, NUL and message; \<open>None\<close> is the refusal by returning length zero.\<close>

definition chainsign_input :: "string \<Rightarrow> bytes \<Rightarrow> bytes option" where
  "chainsign_input tag msg =
     (let tlen = length tag + 1
      in if tlen < 2 \<or> tlen > 64 then None
         else if length msg = 0 \<or> length msg > CHAINSIGN_MAX_INPUT - tlen then None
         else Some (string_bytes tag @ [0] @ msg))"

definition virp_chainsign_sign ::
    "crypto_lib \<Rightarrow> virp_chainsign_key_t ptr \<Rightarrow> string ptr \<Rightarrow> bytes ptr \<Rightarrow> virp_error_t + bytes" where
  "virp_chainsign_sign C kp tag msg =
     (case (kp, tag, msg) of
        (Some k, Some t, Some m) \<Rightarrow>
          if \<not> ck_loaded k then Inl VIRP_ERR_KEY_NOT_LOADED
          else (case chainsign_input t m of
                  None \<Rightarrow> Inl VIRP_ERR_INVALID_LENGTH
                | Some inp \<Rightarrow>
                    (case crypto_sign_detached C (ck_secret_key k) inp of
                       None \<Rightarrow> Inl VIRP_ERR_CRYPTO
                     | Some sig \<Rightarrow> Inr sig))
      | _ \<Rightarrow> Inl VIRP_ERR_NULL_PTR)"

definition virp_chainsign_verify ::
    "crypto_lib \<Rightarrow> bool \<Rightarrow> bytes ptr \<Rightarrow> string ptr \<Rightarrow> bytes ptr \<Rightarrow> bytes ptr \<Rightarrow> bool" where
  "virp_chainsign_verify C init_ok pk tag msg sig =
     (case (pk, tag, msg, sig) of
        (Some p, Some t, Some m, Some s) \<Rightarrow>
          init_ok \<and> (case chainsign_input t m of
                        None \<Rightarrow> False
                      | Some inp \<Rightarrow> crypto_sign_verify_detached C p inp s)
      | _ \<Rightarrow> False)"

definition virp_chainsign_sig_to_hex :: "bytes \<Rightarrow> string" where
  "virp_chainsign_sig_to_hex sig = bytes_hex sig"

definition virp_chainsign_sig_from_hex :: "string ptr \<Rightarrow> bytes option" where
  "virp_chainsign_sig_from_hex hex =
     (case hex of
        None \<Rightarrow> None
      | Some s \<Rightarrow> if length s \<noteq> 128 then None else hex_bytes s)"

definition virp_chainsign_spki :: "virp_chainsign_key_t ptr \<Rightarrow> virp_error_t + bytes" where
  "virp_chainsign_spki kp =
     (case kp of
        None \<Rightarrow> Inl VIRP_ERR_NULL_PTR
      | Some k \<Rightarrow> if \<not> ck_loaded k then Inl VIRP_ERR_KEY_NOT_LOADED
                   else Inr (virp_approver_ed25519_spki (ck_public_key k)))"

definition virp_chainsign_destroy :: "virp_chainsign_key_t \<Rightarrow> virp_chainsign_key_t" where
  "virp_chainsign_destroy kp = \<lparr>ck_public_key = replicate 32 0, ck_secret_key = replicate 64 0,
     ck_key_id = replicate 16 0, ck_key_id_hex = [], ck_loaded = False, ck_locked = False\<rparr>"

section \<open>The contract of the loaders\<close>

text \<open>libsodium's documented layout of a secret key: the seed followed by the public key.\<close>

definition ed_seed :: "crypto_lib \<Rightarrow> bool" where
  "ed_seed C \<longleftrightarrow> (\<forall>s pk sk. crypto_sign_seed_keypair C s = Some (pk, sk) \<longrightarrow> sk = s @ pk)"

lemma derived_pk_SomeD:
  assumes "derived_pk C sk = Some pk"
  shows "sk = take 32 sk @ pk" "\<exists>x. crypto_sign_seed_keypair C (take 32 sk) = Some (pk, x)"
  using assms append_take_drop_id [of 32 sk]
  by (auto simp: derived_pk_def split: option.splits if_splits)

lemma derived_pk_pair:
  assumes "crypto_sign_seed_keypair C s = Some (pk, s @ pk)" "length s = 32"
  shows "derived_pk C (s @ pk) = Some pk"
  using assms by (simp add: derived_pk_def)

text \<open>What a role promises of a key its loader returns: it came from a file in custody, its two
  halves belong together, and its identifier is the hash of its public half.\<close>

locale key_role =
  fixes C :: crypto_lib
    and load :: "fsys \<Rightarrow> nat \<Rightarrow> string \<Rightarrow> virp_error_t + 'k"
    and pub :: "'k \<Rightarrow> bytes"
    and sec :: "'k \<Rightarrow> bytes"
    and kid :: "'k \<Rightarrow> bytes"
  assumes load_file: "load fs euid p = Inr k \<Longrightarrow> virp_keyfile_read fs euid p True 64 = Inr (sec k)"
    and load_pair: "load fs euid p = Inr k \<Longrightarrow>
      derived_pk C (sec k) = Some (pub k) \<and> kid k = take 16 (SHA256 C (pub k))"
begin

lemma load_in_custody:
  assumes "load fs euid p = Inr k"
  shows "\<exists>f. fs p = Some f \<and> in_custody euid 64 f" "length (sec k) = 64"
    "sec k = take 32 (sec k) @ pub k" "length (pub k) = 32"
proof -
  note r = load_file [OF assms, unfolded keyfile_secret_Inr_iff]
  show "\<exists>f. fs p = Some f \<and> in_custody euid 64 f" and l: "length (sec k) = 64"
    using r by blast+
  have d: "derived_pk C (sec k) = Some (pub k)"
    using load_pair [OF assms] by blast
  show "sec k = take 32 (sec k) @ pub k"
    by (rule derived_pk_SomeD(1) [OF d])
  show "length (pub k) = 32"
    using arg_cong [OF derived_pk_SomeD(1) [OF d], of length] l by simp
qed

text \<open>Whoever holds a seed has one identity, whatever file it was loaded from.\<close>

lemma seed_identity:
  assumes "load fs euid p = Inr k" and "load fs' euid' p' = Inr k'"
    and "take 32 (sec k) = take 32 (sec k')"
  shows "sec k = sec k' \<and> pub k = pub k' \<and> kid k = kid k'"
proof -
  note a = load_pair [OF assms(1)] and b = load_pair [OF assms(2)]
  have "pub k = pub k'"
    using derived_pk_SomeD(2) [of C "sec k" "pub k"] derived_pk_SomeD(2) [of C "sec k'" "pub k'"] a b assms(3)
    by auto
  then show ?thesis
    using a b assms(3) load_in_custody(3) [OF assms(1)] load_in_custody(3) [OF assms(2)] by simp
qed

end

text \<open>The roles that load from the secret file alone also promise that a saved key loads again and
  that saving never touches a file that exists.\<close>

locale key_files = key_role C load pub sec kid
  for C :: crypto_lib and load :: "fsys \<Rightarrow> nat \<Rightarrow> string \<Rightarrow> virp_error_t + 'k"
    and pub sec kid :: "'k \<Rightarrow> bytes" +
  fixes save :: "(string \<Rightarrow> nat option) \<Rightarrow> nat \<Rightarrow> fsys \<Rightarrow> 'k \<Rightarrow> string \<Rightarrow> string \<Rightarrow> virp_error_t \<times> fsys"
  assumes load_succeeds: "virp_keyfile_read fs euid p True 64 = Inr sk \<Longrightarrow> derived_pk C sk = Some pk \<Longrightarrow>
      \<exists>k. load fs euid p = Inr k \<and> sec k = sk"
    and save_ok: "save ans euid fs k sp pp = (VIRP_OK, fs') \<Longrightarrow> sp \<noteq> pp \<Longrightarrow>
      fs sp = None \<and> fs' sp = Some (plain_file euid 0x180 (sec k))"
    and save_only: "save ans euid fs k sp pp = (err, fs') \<Longrightarrow> q \<notin> {sp, pp} \<or> fs q \<noteq> None \<Longrightarrow> fs' q = fs q"
begin

lemma save_load:
  assumes "save ans euid fs k sp pp = (VIRP_OK, fs')" and "sp \<noteq> pp" and "length (sec k) = 64"
    and "derived_pk C (sec k) = Some (pub k)"
  shows "\<exists>k'. load fs' euid sp = Inr k' \<and> sec k' = sec k \<and> pub k' = pub k \<and> kid k' = take 16 (SHA256 C (pub k))"
proof -
  have f: "fs' sp = Some (plain_file euid 0x180 (sec k))"
    using save_ok [OF assms(1,2)] by blast
  have "virp_keyfile_read fs' euid sp True 64 = Inr (sec k)"
    using keyfile_plain [of fs' sp, OF f, of True] assms(3) by simp
  then obtain k' where k': "load fs' euid sp = Inr k'" "sec k' = sec k"
    using load_succeeds assms(4) by blast
  then show ?thesis
    using load_pair [OF k'(1)] assms(4) by auto
qed

end

lemma create_file_other: "q \<noteq> path \<or> fs q \<noteq> None \<Longrightarrow> snd (create_file ans euid fs path mode d) q = fs q"
  by (auto simp: create_file_def split: option.splits)

lemma create_file_ok:
  "create_file ans euid fs path mode d = (True, fs') \<Longrightarrow>
   fs path = None \<and> fs' = fs(path \<mapsto> plain_file euid mode d)"
  by (auto simp: create_file_def split: option.splits)

text \<open>Two files created one after the other, as the three \<open>save\<close> functions do.\<close>

lemma create_two:
  assumes "create_file ans euid fs a m1 d1 = (ok1, fs1)" and "create_file ans euid fs1 b m2 d2 = (ok2, fs2)"
  shows "q \<notin> {a, b} \<or> fs q \<noteq> None \<Longrightarrow> fs1 q = fs q \<and> fs2 q = fs q"
    and "ok1 \<Longrightarrow> ok2 \<Longrightarrow> a \<noteq> b \<Longrightarrow> fs a = None \<and> fs b = None \<and>
      fs2 a = Some (plain_file euid m1 d1) \<and> fs2 b = Some (plain_file euid m2 d2)"
proof -
  assume q: "q \<notin> {a, b} \<or> fs q \<noteq> None"
  then have "fs1 q = fs q"
    using create_file_other [of q a fs ans euid m1 d1] assms(1) by auto
  moreover have "fs2 q = fs1 q"
    using create_file_other [of q b fs1 ans euid m2 d2] assms(2) q calculation by auto
  ultimately show "fs1 q = fs q \<and> fs2 q = fs q"
    by simp
next
  assume "ok1" "ok2" "a \<noteq> b"
  then show "fs a = None \<and> fs b = None \<and>
      fs2 a = Some (plain_file euid m1 d1) \<and> fs2 b = Some (plain_file euid m2 d2)"
    using create_file_ok [of ans euid fs a m1 d1 fs1] create_file_ok [of ans euid fs1 b m2 d2 fs2] assms
    by (auto split: if_splits)
qed

interpretation obskey: key_files C
  "\<lambda>fs euid p. virp_obskey_load C True mlock_ok fs euid (Some p)" ok_public_key ok_secret_key ok_key_id
  "\<lambda>ans euid fs k sp pp. virp_obskey_save ans euid fs (Some k) (Some sp) (Some pp)"
  for C mlock_ok
proof unfold_locales
  fix fs euid p k
  assume "virp_obskey_load C True mlock_ok fs euid (Some p) = Inr k"
  then show "virp_keyfile_read fs euid p True 64 = Inr (ok_secret_key k)"
    "derived_pk C (ok_secret_key k) = Some (ok_public_key k) \<and> ok_key_id k = take 16 (SHA256 C (ok_public_key k))"
    by (auto simp: virp_obskey_load_def obskey_key_id_def split: sum.splits option.splits)
next
  fix fs euid p sk pk
  assume "virp_keyfile_read fs euid p True 64 = Inr sk" "derived_pk C sk = Some pk"
  then show "\<exists>k. virp_obskey_load C True mlock_ok fs euid (Some p) = Inr k \<and> ok_secret_key k = sk"
    by (simp add: virp_obskey_load_def)
next
  fix ans euid fs and k :: virp_obskey_t and sp pp fs' err q
  obtain ok1 fs1 where c1: "create_file ans euid fs sp 0x180 (ok_secret_key k) = (ok1, fs1)"
    by fastforce
  obtain ok2 fs2 where c2: "create_file ans euid fs1 pp 0x1A4 (ok_public_key k) = (ok2, fs2)"
    by fastforce
  note d = virp_obskey_save_def [of ans euid fs "Some k" "Some sp" "Some pp"]
  { assume "virp_obskey_save ans euid fs (Some k) (Some sp) (Some pp) = (VIRP_OK, fs')" "sp \<noteq> pp"
    then show "fs sp = None \<and> fs' sp = Some (plain_file euid 0x180 (ok_secret_key k))"
      using create_two(2) [OF c1 c2] by (auto simp: d c1 c2 split: if_splits) }
  assume "virp_obskey_save ans euid fs (Some k) (Some sp) (Some pp) = (err, fs')" "q \<notin> {sp, pp} \<or> fs q \<noteq> None"
  then show "fs' q = fs q"
    using create_two(1) [OF c1 c2, of q] by (auto simp: d c1 c2 split: if_splits)
qed

interpretation chainsign: key_files C
  "\<lambda>fs euid p. virp_chainsign_load C True mlock_ok fs euid (Some p)" ck_public_key ck_secret_key ck_key_id
  "\<lambda>ans euid fs k sp pp. virp_chainsign_save ans euid fs (Some k) (Some sp) (Some pp)"
  for C mlock_ok
proof unfold_locales
  fix fs euid p k
  assume "virp_chainsign_load C True mlock_ok fs euid (Some p) = Inr k"
  then show "virp_keyfile_read fs euid p True 64 = Inr (ck_secret_key k)"
    "derived_pk C (ck_secret_key k) = Some (ck_public_key k) \<and> ck_key_id k = take 16 (SHA256 C (ck_public_key k))"
    by (auto simp: virp_chainsign_load_def chainsign_finish_def virp_chainsign_key_id_def
        split: sum.splits option.splits)
next
  fix fs euid p sk pk
  assume "virp_keyfile_read fs euid p True 64 = Inr sk" "derived_pk C sk = Some pk"
  then show "\<exists>k. virp_chainsign_load C True mlock_ok fs euid (Some p) = Inr k \<and> ck_secret_key k = sk"
    by (simp add: virp_chainsign_load_def chainsign_finish_def)
next
  fix ans euid fs and k :: virp_chainsign_key_t and sp pp fs' err q
  obtain ok1 fs1 where c1: "create_file ans euid fs sp 0x180 (ck_secret_key k) = (ok1, fs1)"
    by fastforce
  obtain ok2 fs2 where c2: "create_file ans euid fs1 pp 0x1A4 (ck_public_key k) = (ok2, fs2)"
    by fastforce
  note d = virp_chainsign_save_def [of ans euid fs "Some k" "Some sp" "Some pp"]
  { assume "virp_chainsign_save ans euid fs (Some k) (Some sp) (Some pp) = (VIRP_OK, fs')" "sp \<noteq> pp"
    then show "fs sp = None \<and> fs' sp = Some (plain_file euid 0x180 (ck_secret_key k))"
      using create_two(2) [OF c1 c2] by (auto simp: d c1 c2 split: if_splits) }
  assume "virp_chainsign_save ans euid fs (Some k) (Some sp) (Some pp) = (err, fs')" "q \<notin> {sp, pp} \<or> fs q \<noteq> None"
  then show "fs' q = fs q"
    using create_two(1) [OF c1 c2, of q] by (auto simp: d c1 c2 split: if_splits)
qed

lemma locked_fed_simps [simp]:
  "fk_public_key (locked_fed b k) = fk_public_key k" "fk_secret_key (locked_fed b k) = fk_secret_key k"
  "fk_key_id (locked_fed b k) = fk_key_id k" "fk_loaded (locked_fed b k) = fk_loaded k"
  "fk_key_version (locked_fed b k) = fk_key_version k"
  by (simp_all add: locked_fed_def virp_fed_mlock_key_def)

interpretation fed: key_role C
  "\<lambda>fs euid p. virp_fed_load C mlock_ok fs euid (Some pk_path) (Some p) v" fk_public_key fk_secret_key fk_key_id
  for C mlock_ok pk_path v
proof unfold_locales
  fix fs euid p k
  assume "virp_fed_load C mlock_ok fs euid (Some pk_path) (Some p) v = Inr k"
  then show "virp_keyfile_read fs euid p True 64 = Inr (fk_secret_key k)"
    "derived_pk C (fk_secret_key k) = Some (fk_public_key k) \<and> fk_key_id k = take 16 (SHA256 C (fk_public_key k))"
    by (auto simp: virp_fed_load_def virp_fed_from_secret_def virp_fed_compute_key_id_def
        split: sum.splits option.splits if_splits)
qed

section \<open>Signatures\<close>

lemma chainsign_input_inject:
  assumes "chainsign_input t m = Some x" and "chainsign_input t' m' = Some x"
    and "CHR 0x00 \<notin> set t" and "CHR 0x00 \<notin> set t'"
  shows "t = t' \<and> m = m'"
proof -
  have e: "string_bytes t @ 0 # m = string_bytes t' @ 0 # m'"
    using assms(1,2) by (auto simp: chainsign_input_def Let_def split: if_splits)
  have z: "(0 :: byte) \<notin> set (string_bytes s)" if "CHR 0x00 \<notin> set s" for s
  proof
    assume "(0 :: byte) \<in> set (string_bytes s)"
    then obtain c where "c \<in> set s" "(of_char c :: byte) = of_char (CHR 0x00)"
      by (auto simp: string_bytes_def)
    then show False
      using of_char_byte_inject [of c "CHR 0x00"] that by simp
  qed
  have tw: "takeWhile (\<lambda>b. b \<noteq> 0) (string_bytes s @ 0 # r) = string_bytes s" if "CHR 0x00 \<notin> set s" for s r
    using z [OF that] by (intro takeWhile_digits) (auto simp: list_all_iff)
  have "string_bytes t = string_bytes t'"
    using arg_cong [OF e, of "takeWhile (\<lambda>b. b \<noteq> 0)"] unfolding tw [OF assms(3)] tw [OF assms(4)] .
  then show ?thesis
    using e by simp
qed

lemma chainsign_sign_verify:
  assumes "virp_chainsign_sign C (Some k) (Some t) (Some m) = Inr sig"
    and "ed_correct C (ck_public_key k) (ck_secret_key k)"
  shows "virp_chainsign_verify C True (Some (ck_public_key k)) (Some t) (Some m) (Some sig)"
  using assms by (auto simp: virp_chainsign_sign_def virp_chainsign_verify_def ed_correct_def
      split: option.splits if_splits)

end
