(* ===== verification/Virp_Observation.thy ===== *)
theory Virp_Observation
  imports Virp_Handshake Virp_Seqstore Virp_Keys
begin

text \<open>
  Session-bound observations (\<open>src/virp_crypto.c\<close>): the v2 message
  \<open>header || payload || HMAC\<close>, the v3 message \<open>header || payload || HMAC || Ed25519\<close>,
  their builders, the shared header gate, and the accepting verifier with its
  seven checks ending in the replay store. The session and the store are passed
  and returned; the two clock readings of a builder and the clock of the verifier
  are arguments. The payload pointer of \<open>virp_build_observation_v2\<close> is not NULL (the
  signer refuses a NULL one).
\<close>

section \<open>Signing and building v2\<close>

text \<open>The header both builders fill in; \<open>command_hash\<close> is set afterwards.\<close>

definition obs_header ::
    "u8 \<Rightarrow> virp_session_t \<Rightarrow> u64 \<Rightarrow> u64 \<Rightarrow> u64 \<Rightarrow> u8 \<Rightarrow> u64 \<Rightarrow> nat \<Rightarrow> bytes \<Rightarrow> virp_obs_header_v2_t" where
  "obs_header version s now node_id device_id tier seq_num payload_len ch =
     \<lparr>oh_version = version, oh_channel = VIRP_CHANNEL_OC, oh_tier = tier, oh_reserved = 0,
      oh_node_id = node_id, oh_timestamp_ns = now, oh_seq_num = seq_num,
      oh_session_id = s_session_id s, oh_device_id = device_id,
      oh_command_hash = ch, oh_payload_len = of_nat payload_len\<rparr>"

definition virp_sign_observation_v2 ::
    "crypto_lib \<Rightarrow> u64 \<Rightarrow> u64 \<Rightarrow> virp_session_t \<Rightarrow> u64 \<Rightarrow> u64 \<Rightarrow> u8 \<Rightarrow> u64 \<Rightarrow> string ptr \<Rightarrow>
     string ptr \<Rightarrow> bytes ptr \<Rightarrow>
     (virp_error_t + virp_obs_header_v2_t \<times> bytes) \<times> virp_session_t" where
  "virp_sign_observation_v2 C now_act now s node_id device_id tier seq_num command typed_profile payload =
     (case (command, payload) of
        (Some cmd, Some p) \<Rightarrow>
          if length p > VIRP_MAX_MESSAGE_SIZE then (Inl VIRP_ERR_MESSAGE_TOO_LARGE, s)
          else if virp_session_require_active s \<noteq> VIRP_OK
          then (Inl (virp_session_require_active s), s)
          else if \<not> s_session_key_valid s then (Inl VIRP_ERR_KEY_NOT_LOADED, s)
          else
            let s1 = s\<lparr>s_last_activity_ns := now_act\<rparr>
            in (case command_hash C cmd typed_profile of
                  Inl e \<Rightarrow> (Inl e, s1)
                | Inr ch \<Rightarrow>
                    let hdr = obs_header VIRP_VERSION_2 s1 now node_id device_id tier seq_num (length p) ch
                    in if VIRP_OBS_V2_HEADER_SIZE + length p > VIRP_MAX_MESSAGE_SIZE
                       then (Inl VIRP_ERR_MESSAGE_TOO_LARGE, s1)
                       else (case virp_obs_header_v2_serialize (Some hdr)
                                    (Some (replicate VIRP_MAX_MESSAGE_SIZE 0)) of
                               Inl e \<Rightarrow> (Inl e, s1)
                             | Inr sign_buf \<Rightarrow>
                                 (case HMAC C (s_session_key s1)
                                         (take (VIRP_OBS_V2_HEADER_SIZE + length p)
                                           (poke VIRP_OBS_V2_HEADER_SIZE p sign_buf)) of
                                    None \<Rightarrow> (Inl VIRP_ERR_CRYPTO, s1)
                                  | Some sig \<Rightarrow> (Inr (hdr, sig), s1))))
      | _ \<Rightarrow> (Inl VIRP_ERR_NULL_PTR, s))"

definition virp_build_observation_v2 ::
    "crypto_lib \<Rightarrow> u64 \<Rightarrow> u64 \<Rightarrow> virp_session_t \<Rightarrow> u64 \<Rightarrow> u64 \<Rightarrow> u8 \<Rightarrow> u64 \<Rightarrow> string ptr \<Rightarrow>
     string ptr \<Rightarrow> bytes \<Rightarrow> bytes ptr \<Rightarrow> (virp_error_t + bytes \<times> nat) \<times> virp_session_t" where
  "virp_build_observation_v2 C now_act now s node_id device_id tier seq_num command typed_profile
       payload out_buf =
     (case out_buf of
        None \<Rightarrow> (Inl VIRP_ERR_NULL_PTR, s)
      | Some buf \<Rightarrow>
          let n = length payload; tot = VIRP_OBS_V2_HEADER_SIZE + n + VIRP_OBS_V2_SIG_SIZE
          in if n > VIRP_MAX_MESSAGE_SIZE then (Inl VIRP_ERR_MESSAGE_TOO_LARGE, s)
             else if tot > VIRP_MAX_MESSAGE_SIZE then (Inl VIRP_ERR_MESSAGE_TOO_LARGE, s)
             else if length buf < tot then (Inl VIRP_ERR_BUFFER_TOO_SMALL, s)
             else (case virp_sign_observation_v2 C now_act now s node_id device_id tier seq_num
                          command typed_profile (Some payload) of
                     (Inl e, s1) \<Rightarrow> (Inl e, s1)
                   | (Inr (hdr, sig), s1) \<Rightarrow>
                       (case virp_obs_header_v2_serialize (Some hdr) (Some buf) of
                          Inl e \<Rightarrow> (Inl e, s1)
                        | Inr b1 \<Rightarrow>
                            (Inr (poke (VIRP_OBS_V2_HEADER_SIZE + n) sig
                                    (poke VIRP_OBS_V2_HEADER_SIZE payload b1), tot), s1))))"

section \<open>Building v3\<close>

definition virp_build_observation_ed25519 ::
    "crypto_lib \<Rightarrow> u64 \<Rightarrow> u64 \<Rightarrow> virp_session_t \<Rightarrow> virp_obskey_t ptr \<Rightarrow> u64 \<Rightarrow> u64 \<Rightarrow> u8 \<Rightarrow> u64 \<Rightarrow>
     string ptr \<Rightarrow> string ptr \<Rightarrow> bytes ptr \<Rightarrow> bytes ptr \<Rightarrow>
     (virp_error_t + bytes \<times> nat) \<times> virp_session_t" where
  "virp_build_observation_ed25519 C now_act now s obskey node_id device_id tier seq_num command
       typed_profile payload out_buf =
     (case (obskey, command, payload, out_buf) of
        (Some k, Some cmd, Some p, Some buf) \<Rightarrow>
          let n = length p;
              tot = VIRP_OBS_V2_HEADER_SIZE + n + VIRP_OBS_V2_SIG_SIZE + VIRP_OBS_ED25519_SIG_SIZE
          in if \<not> ok_loaded k then (Inl VIRP_ERR_KEY_NOT_LOADED, s)
             else if n > VIRP_MAX_MESSAGE_SIZE then (Inl VIRP_ERR_MESSAGE_TOO_LARGE, s)
             else if tot > VIRP_MAX_MESSAGE_SIZE then (Inl VIRP_ERR_MESSAGE_TOO_LARGE, s)
             else if length buf < tot then (Inl VIRP_ERR_BUFFER_TOO_SMALL, s)
             else if virp_session_require_active s \<noteq> VIRP_OK
             then (Inl (virp_session_require_active s), s)
             else if \<not> s_session_key_valid s then (Inl VIRP_ERR_KEY_NOT_LOADED, s)
             else
               let s1 = s\<lparr>s_last_activity_ns := now_act\<rparr>
               in (case command_hash C cmd typed_profile of
                     Inl e \<Rightarrow> (Inl e, s1)
                   | Inr ch \<Rightarrow>
                       let hdr = obs_header VIRP_VERSION_3 s1 now node_id device_id tier seq_num n ch;
                           hmac_span = VIRP_OBS_V2_HEADER_SIZE + n;
                           sig_span = hmac_span + VIRP_OBS_V2_SIG_SIZE
                       in (case virp_obs_header_v2_serialize (Some hdr) (Some buf) of
                             Inl e \<Rightarrow> (Inl e, s1)
                           | Inr b1 \<Rightarrow>
                               let b2 = poke VIRP_OBS_V2_HEADER_SIZE p b1
                               in (case HMAC C (s_session_key s1) (take hmac_span b2) of
                                     None \<Rightarrow> (Inl VIRP_ERR_CRYPTO, s1)
                                   | Some t \<Rightarrow>
                                       let b3 = poke hmac_span t b2
                                       in (case crypto_sign_detached C (ok_secret_key k) (take sig_span b3) of
                                             None \<Rightarrow> (Inl VIRP_ERR_CRYPTO, s1)
                                           | Some sig \<Rightarrow> (Inr (poke sig_span sig b3, tot), s1)))))
      | _ \<Rightarrow> (Inl VIRP_ERR_NULL_PTR, s))"

section \<open>The shared header gate\<close>

definition virp_obs_header_sanity ::
    "virp_obs_header_v2_t ptr \<Rightarrow> u8 \<Rightarrow> nat \<Rightarrow> nat \<Rightarrow> virp_error_t" where
  "virp_obs_header_sanity hdr expected_version msg_len trailer_len =
     (case hdr of
        None \<Rightarrow> VIRP_ERR_NULL_PTR
      | Some h \<Rightarrow>
          if msg_len < VIRP_OBS_V2_HEADER_SIZE + trailer_len then VIRP_ERR_BUFFER_TOO_SMALL
          else if oh_version h \<noteq> expected_version then VIRP_ERR_VERSION_MISMATCH
          else if oh_channel h \<noteq> VIRP_CHANNEL_OC then VIRP_ERR_INVALID_CHANNEL
          else if oh_tier h = VIRP_TIER_BLACK then VIRP_ERR_TIER_VIOLATION
          else if oh_tier h > VIRP_TIER_RED then VIRP_ERR_INVALID_TIER
          else if oh_reserved h \<noteq> 0 then VIRP_ERR_RESERVED_NONZERO
          else if unat (oh_payload_len h) \<noteq> msg_len - VIRP_OBS_V2_HEADER_SIZE - trailer_len
          then VIRP_ERR_INVALID_LENGTH
          else VIRP_OK)"

section \<open>Verifying\<close>

definition virp_verify_observation_ed25519 ::
    "crypto_lib \<Rightarrow> bytes ptr \<Rightarrow> bytes ptr \<Rightarrow> virp_error_t + virp_obs_header_v2_t \<times> bytes" where
  "virp_verify_observation_ed25519 C public_key msg =
     (case (public_key, msg) of
        (Some pk, Some m) \<Rightarrow>
          if length m < VIRP_OBS_V3_MIN_SIZE \<or> length m > VIRP_MAX_MESSAGE_SIZE
          then Inl VIRP_ERR_INVALID_LENGTH
          else (case virp_obs_header_v2_deserialize (Some m) of
                  Inl e \<Rightarrow> Inl e
                | Inr h \<Rightarrow>
                    let e = virp_obs_header_sanity (Some h) VIRP_VERSION_3 (length m)
                              (VIRP_OBS_V2_SIG_SIZE + VIRP_OBS_ED25519_SIG_SIZE)
                    in if e \<noteq> VIRP_OK then Inl e
                       else
                         let sig_span = VIRP_OBS_V2_HEADER_SIZE + unat (oh_payload_len h) +
                                        VIRP_OBS_V2_SIG_SIZE
                         in if \<not> crypto_sign_verify_detached C pk (take sig_span m)
                                   (bslice sig_span VIRP_OBS_ED25519_SIG_SIZE m)
                            then Inl VIRP_ERR_OBS_SIG_INVALID
                            else Inr (h, bslice VIRP_OBS_V2_HEADER_SIZE (unat (oh_payload_len h)) m))
      | _ \<Rightarrow> Inl VIRP_ERR_NULL_PTR)"

definition virp_verify_observation_v2_signature ::
    "crypto_lib \<Rightarrow> bytes ptr \<Rightarrow> bytes ptr \<Rightarrow> virp_error_t + virp_obs_header_v2_t" where
  "virp_verify_observation_v2_signature C session_key msg =
     (case (session_key, msg) of
        (Some key, Some m) \<Rightarrow>
          if length m < VIRP_OBS_V2_MIN_SIZE then Inl VIRP_ERR_BUFFER_TOO_SMALL
          else if length m > VIRP_MAX_MESSAGE_SIZE then Inl VIRP_ERR_MESSAGE_TOO_LARGE
          else
            let signed_len = length m - VIRP_OBS_V2_SIG_SIZE
            in (case virp_hmac_sha256 C key (take signed_len m) of
                  Inl e \<Rightarrow> Inl e
                | Inr expected_sig \<Rightarrow>
                    if \<not> virp_consttime_eq (drop signed_len m) expected_sig VIRP_OBS_V2_SIG_SIZE
                    then Inl VIRP_ERR_HMAC_FAILED
                    else (case virp_obs_header_v2_deserialize (Some m) of
                            Inl e \<Rightarrow> Inl e
                          | Inr h \<Rightarrow>
                              let e = virp_obs_header_sanity (Some h) VIRP_VERSION_2 (length m)
                                        VIRP_OBS_V2_SIG_SIZE
                              in if e \<noteq> VIRP_OK then Inl e else Inr h))
      | _ \<Rightarrow> Inl VIRP_ERR_NULL_PTR)"

text \<open>\<open>now_ns = 0\<close> asks for the real clock, here \<open>clock\<close>.\<close>

definition virp_verify_observation_v2 ::
    "crypto_lib \<Rightarrow> (string \<Rightarrow> bool) \<Rightarrow> u64 \<Rightarrow> virp_session_t \<Rightarrow> u64 \<Rightarrow> string ptr \<Rightarrow> string ptr \<Rightarrow>
     bytes ptr \<Rightarrow> u64 \<Rightarrow> virp_seqstore_t \<Rightarrow>
     (virp_error_t + virp_obs_header_v2_t \<times> bytes) \<times> virp_seqstore_t" where
  "virp_verify_observation_v2 C io clock s expected_device_id expected_command
       expected_typed_profile msg now_ns seq_store =
     (case (expected_command, msg) of
        (Some cmd, Some m) \<Rightarrow>
          if length m < VIRP_OBS_V2_MIN_SIZE then (Inl VIRP_ERR_BUFFER_TOO_SMALL, seq_store)
          else if length m > VIRP_MAX_MESSAGE_SIZE then (Inl VIRP_ERR_MESSAGE_TOO_LARGE, seq_store)
          else if virp_session_require_active s \<noteq> VIRP_OK
          then (Inl (virp_session_require_active s), seq_store)
          else if \<not> s_session_key_valid s then (Inl VIRP_ERR_KEY_NOT_LOADED, seq_store)
          else
            let signed_len = length m - VIRP_OBS_V2_SIG_SIZE
            in (case virp_hmac_sha256 C (s_session_key s) (take signed_len m) of
                  Inl e \<Rightarrow> (Inl e, seq_store)
                | Inr expected_sig \<Rightarrow>
                    if \<not> virp_consttime_eq (drop signed_len m) expected_sig VIRP_OBS_V2_SIG_SIZE
                    then (Inl VIRP_ERR_HMAC_FAILED, seq_store)
                    else (case virp_obs_header_v2_deserialize (Some m) of
                      Inl e \<Rightarrow> (Inl e, seq_store)
                    | Inr h \<Rightarrow>
                        let e = virp_obs_header_sanity (Some h) VIRP_VERSION_2 (length m)
                                  VIRP_OBS_V2_SIG_SIZE
                        in if e \<noteq> VIRP_OK then (Inl e, seq_store)
                           else if \<not> virp_consttime_eq (oh_session_id h) (s_session_id s) 16
                           then (Inl VIRP_ERR_SESSION_INVALID, seq_store)
                           else if oh_device_id h \<noteq> expected_device_id
                           then (Inl VIRP_ERR_CONTEXT_MISMATCH, seq_store)
                           else (case command_hash C cmd expected_typed_profile of
                             Inl e \<Rightarrow> (Inl e, seq_store)
                           | Inr expected_hash \<Rightarrow>
                               if \<not> virp_consttime_eq (oh_command_hash h) expected_hash 32
                               then (Inl VIRP_ERR_CONTEXT_MISMATCH, seq_store)
                               else
                                 let now = (if now_ns = 0 then clock else now_ns);
                                     skew = (if now > oh_timestamp_ns h then now - oh_timestamp_ns h
                                             else oh_timestamp_ns h - now)
                                 in if skew > VIRP_OBS_V2_FRESHNESS_WINDOW_NS
                                    then (Inl VIRP_ERR_STALE_OBSERVATION, seq_store)
                                    else (case virp_seqstore_accept io seq_store (Some (oh_session_id h))
                                                 (oh_node_id h) (oh_seq_num h) of
                                            (err, st1) \<Rightarrow>
                                              if err \<noteq> VIRP_OK then (Inl err, st1)
                                              else (Inr (h, bslice VIRP_OBS_V2_HEADER_SIZE
                                                                (unat (oh_payload_len h)) m), st1)))))
      | _ \<Rightarrow> (Inl VIRP_ERR_NULL_PTR, seq_store))"

section \<open>Layout of what the builders produce\<close>

lemma command_hash_length:
  "sha_len C \<Longrightarrow> command_hash C cmd tp = Inr ch \<Longrightarrow> length ch = 32"
  by (auto simp: command_hash_def virp_typed_op_hash_def sha_len_def
      split: option.splits if_splits)

lemma wf_obs_header_built:
  "length (s_session_id s) = 16 \<Longrightarrow> length ch = 32 \<Longrightarrow>
   wf_obs_header (obs_header v s now nid did tier sq n ch)"
  by (simp add: wf_obs_header_def obs_header_def)

lemma obs_header_activity [simp]:
  "obs_header v (s\<lparr>s_last_activity_ns := t\<rparr>) now nid did tier sq n ch =
   obs_header v s now nid did tier sq n ch"
  by (simp add: obs_header_def)

lemma poke_after: "length pre = off \<Longrightarrow> poke off src (pre @ rest) = pre @ src @ drop (length src) rest"
  by (simp add: poke_def)

text \<open>A v2 build that succeeds, taken apart.\<close>

lemma sign_v2_Inr:
  assumes "fst (virp_sign_observation_v2 C ta now s nid did tier sq command tp (Some p)) = Inr (hdr, sig)"
    and "session_shape s" and "sha_len C"
  obtains cmd ch where
    "command = Some cmd" "command_hash C cmd tp = Inr ch" "length ch = 32"
    "s_state s = VIRP_SESSION_ACTIVE" "s_session_key_valid s"
    "hdr = obs_header 2 s now nid did tier sq (length p) ch"
    "HMAC C (s_session_key s) (obs_header_bytes hdr @ p) = Some sig" "88 + length p \<le> 65536"
proof -
  have sid: "length (s_session_id s) = 16"
    using assms(2) by (simp add: session_shape_def)
  have lay: "take (88 + length p) (poke 88 p (obs_header_bytes h @ r)) = obs_header_bytes h @ p"
    if "wf_obs_header h" for h r
    using length_obs_header_bytes [OF that] by (simp add: poke_after)
  have ser: "virp_obs_header_v2_serialize (Some h) (Some (replicate 65536 0)) =
      Inr (obs_header_bytes h @ drop 88 (replicate 65536 0))" if "wf_obs_header h" for h
    using virp_obs_header_v2_serialize_layout [OF that, of "replicate 65536 0"] by simp
  have wf: "wf_obs_header (obs_header 2 s now nid did tier sq (length p) ch)"
    if "command_hash C cmd tp = Inr ch" for cmd ch
    using wf_obs_header_built sid command_hash_length [OF assms(3) that] by blast
  show thesis
    using assms(1) that command_hash_length [OF assms(3)]
    by (auto simp: virp_sign_observation_v2_def virp_session_require_active_def Let_def
        ser [OF wf] lay [OF wf] simp del: drop_replicate
        split: option.splits if_splits sum.splits)
qed

definition obs_v2_message :: "virp_obs_header_v2_t \<Rightarrow> bytes \<Rightarrow> bytes \<Rightarrow> bytes" where
  "obs_v2_message hdr p sig = obs_header_bytes hdr @ p @ sig"

lemma sign_v2_succeeds:
  assumes "session_shape s" "sha_len C" "s_state s = VIRP_SESSION_ACTIVE" "s_session_key_valid s"
    and ch: "command_hash C cmd tp = Inr ch" and "88 + length p \<le> 65536"
    and sig: "HMAC C (s_session_key s)
      (obs_header_bytes (obs_header 2 s now nid did tier sq (length p) ch) @ p) = Some sig"
  shows "virp_sign_observation_v2 C ta now s nid did tier sq (Some cmd) tp (Some p) =
    (Inr (obs_header 2 s now nid did tier sq (length p) ch, sig), s\<lparr>s_last_activity_ns := ta\<rparr>)"
proof -
  let ?h = "obs_header 2 s now nid did tier sq (length p) ch"
  have wf: "wf_obs_header ?h"
    using wf_obs_header_built assms(1) command_hash_length [OF assms(2) ch]
    by (simp add: session_shape_def)
  have "take (88 + length p) (poke 88 p (obs_header_bytes ?h @ r)) = obs_header_bytes ?h @ p" for r
    using length_obs_header_bytes [OF wf] by (simp add: poke_after)
  moreover have "virp_obs_header_v2_serialize (Some ?h) (Some (replicate 65536 0)) =
      Inr (obs_header_bytes ?h @ drop 88 (replicate 65536 0))"
    using virp_obs_header_v2_serialize_layout [OF wf, of "replicate 65536 0"] by simp
  ultimately show ?thesis
    using assms by (simp add: virp_sign_observation_v2_def virp_session_require_active_def Let_def
        del: drop_replicate)
qed

lemma build_v2_succeeds:
  assumes "session_shape s" "sha_len C" "hmac_len C" "s_state s = VIRP_SESSION_ACTIVE" "s_session_key_valid s"
    and ch: "command_hash C cmd tp = Inr ch" and n: "120 + length p \<le> 65536" "120 + length p \<le> length buf"
    and sig: "HMAC C (s_session_key s)
      (obs_header_bytes (obs_header 2 s now nid did tier sq (length p) ch) @ p) = Some sig"
  shows "virp_build_observation_v2 C ta now s nid did tier sq (Some cmd) tp p (Some buf) =
    (Inr (obs_v2_message (obs_header 2 s now nid did tier sq (length p) ch) p sig @
            drop (120 + length p) buf, 120 + length p),
     s\<lparr>s_last_activity_ns := ta\<rparr>)"
proof -
  let ?h = "obs_header 2 s now nid did tier sq (length p) ch"
  have wf: "wf_obs_header ?h"
    using wf_obs_header_built assms(1) command_hash_length [OF assms(2) ch]
    by (simp add: session_shape_def)
  have l: "length sig = 32" "length (obs_header_bytes ?h) = 88"
    using sig assms(3) length_obs_header_bytes [OF wf] by (auto simp: hmac_len_def)
  have "poke (88 + length p) sig (poke 88 p (obs_header_bytes ?h @ drop 88 buf)) =
      obs_v2_message ?h p sig @ drop (120 + length p) buf"
    using l by (simp add: poke_def obs_v2_message_def add.commute)
  then show ?thesis
    using sign_v2_succeeds [OF assms(1,2,4,5) ch _ sig, of ta] n
      virp_obs_header_v2_serialize_layout [OF wf, of buf]
    by (simp add: virp_build_observation_v2_def Let_def add.commute)
qed

section \<open>What the v2 verifier accepts\<close>

definition fresh :: "u64 \<Rightarrow> u64 \<Rightarrow> bool" where
  "fresh now ts \<longleftrightarrow> (if now > ts then now - ts else ts - now) \<le> VIRP_OBS_V2_FRESHNESS_WINDOW_NS"

text \<open>The header gate in one line; \<open>trailer\<close> is the size of what follows the payload.\<close>

lemma sanity_ok_iff:
  "virp_obs_header_sanity (Some h) v n trailer = VIRP_OK \<longleftrightarrow>
     oh_version h = v \<and> oh_channel h = VIRP_CHANNEL_OC \<and> oh_tier h \<le> VIRP_TIER_RED \<and>
     oh_reserved h = 0 \<and> n = 88 + unat (oh_payload_len h) + trailer"
  by (auto simp: virp_obs_header_sanity_def)

lemma accept_Inr:
  "(case z of (err, st1) \<Rightarrow> if err \<noteq> VIRP_OK then (Inl err, st1) else (Inr v, st1)) = (Inr r, st') \<longleftrightarrow>
   z = (VIRP_OK, st') \<and> v = r"
  by (cases z) auto

lemmas chain_Inr = guard_Inr bind_Inr accept_Inr

lemma verify_v2_Inr_iff:
  assumes sid: "length (s_session_id s) = 16" and sha: "sha_len C" and hm: "hmac_len C"
  shows "virp_verify_observation_v2 C io clock s did (Some cmd) tp (Some m) now st = (Inr (h, p), st') \<longleftrightarrow>
    120 \<le> length m \<and> length m \<le> 65536 \<and> s_state s = VIRP_SESSION_ACTIVE \<and> s_session_key_valid s \<and>
    HMAC C (s_session_key s) (take (length m - 32) m) = Some (drop (length m - 32) m) \<and>
    virp_obs_header_v2_deserialize (Some m) = Inr h \<and>
    virp_obs_header_sanity (Some h) 2 (length m) 32 = VIRP_OK \<and>
    oh_session_id h = s_session_id s \<and> oh_device_id h = did \<and>
    command_hash C cmd tp = Inr (oh_command_hash h) \<and>
    fresh (if now = 0 then clock else now) (oh_timestamp_ns h) \<and>
    virp_seqstore_accept io st (Some (oh_session_id h)) (oh_node_id h) (oh_seq_num h) = (VIRP_OK, st') \<and>
    p = bslice 88 (unat (oh_payload_len h)) m"
proof -
  have des: "length (oh_session_id x) = 16" "length (oh_command_hash x) = 32"
    if "virp_obs_header_v2_deserialize (Some m) = Inr x" for x
    using that by (auto simp: virp_obs_header_v2_deserialize_def split: if_splits)
  have ch: "virp_consttime_eq (oh_command_hash x) t 32 \<longleftrightarrow> oh_command_hash x = t"
    if "virp_obs_header_v2_deserialize (Some m) = Inr x" "command_hash C cmd tp = Inr t" for x t
    using des(2) [OF that(1)] command_hash_length [OF sha that(2)] by simp
  have si: "virp_consttime_eq (oh_session_id x) (s_session_id s) 16 \<longleftrightarrow> oh_session_id x = s_session_id s"
    if "virp_obs_header_v2_deserialize (Some m) = Inr x" for x
    using des(1) [OF that] sid by simp
  have mac: "(\<exists>t. virp_hmac_sha256 C k d = Inr t \<and> virp_consttime_eq (drop (length m - 32) m) t 32 \<and> Q) \<longleftrightarrow>
      HMAC C k d = Some (drop (length m - 32) m) \<and> Q" if "120 \<le> length m" for k d Q
    using that hm by (auto simp: virp_hmac_sha256_Inr_iff hmac_len_def)
  have act: "virp_session_require_active s = VIRP_OK \<longleftrightarrow> s_state s = VIRP_SESSION_ACTIVE"
    by (simp add: virp_session_require_active_def)
  have "virp_verify_observation_v2 C io clock s did (Some cmd) tp (Some m) now st = (Inr (h, p), st') \<longleftrightarrow>
    120 \<le> length m \<and> length m \<le> 65536 \<and> s_state s = VIRP_SESSION_ACTIVE \<and> s_session_key_valid s \<and>
    (\<exists>t. virp_hmac_sha256 C (s_session_key s) (take (length m - 32) m) = Inr t \<and>
      virp_consttime_eq (drop (length m - 32) m) t 32 \<and>
    (virp_obs_header_v2_deserialize (Some m) = Inr h \<and>
    virp_obs_header_sanity (Some h) 2 (length m) 32 = VIRP_OK \<and>
    virp_consttime_eq (oh_session_id h) (s_session_id s) 16 \<and> oh_device_id h = did \<and>
    (\<exists>x. command_hash C cmd tp = Inr x \<and> virp_consttime_eq (oh_command_hash h) x 32 \<and>
    fresh (if now = 0 then clock else now) (oh_timestamp_ns h) \<and>
    virp_seqstore_accept io st (Some (oh_session_id h)) (oh_node_id h) (oh_seq_num h) = (VIRP_OK, st') \<and>
    p = bslice 88 (unat (oh_payload_len h)) m)))"
    unfolding virp_verify_observation_v2_def Let_def option.case prod.case chain_Inr act fresh_def
    by (simp only: VIRP_OBS_V2_MIN_SIZE_def VIRP_MAX_MESSAGE_SIZE_def VIRP_OBS_V2_SIG_SIZE_def
        VIRP_OBS_V2_HEADER_SIZE_def VIRP_VERSION_2_def not_less simp_thms prod.inject
        sum.inject act ex_simps conj_assoc) blast
  also have "\<dots> \<longleftrightarrow> 120 \<le> length m \<and> length m \<le> 65536 \<and> s_state s = VIRP_SESSION_ACTIVE \<and>
    s_session_key_valid s \<and>
    HMAC C (s_session_key s) (take (length m - 32) m) = Some (drop (length m - 32) m) \<and>
    virp_obs_header_v2_deserialize (Some m) = Inr h \<and>
    virp_obs_header_sanity (Some h) 2 (length m) 32 = VIRP_OK \<and>
    oh_session_id h = s_session_id s \<and> oh_device_id h = did \<and>
    command_hash C cmd tp = Inr (oh_command_hash h) \<and>
    fresh (if now = 0 then clock else now) (oh_timestamp_ns h) \<and>
    virp_seqstore_accept io st (Some (oh_session_id h)) (oh_node_id h) (oh_seq_num h) = (VIRP_OK, st') \<and>
    p = bslice 88 (unat (oh_payload_len h)) m" (is "?l \<longleftrightarrow> ?r")
  proof
    assume l: ?l
    then obtain t x where t: "virp_hmac_sha256 C (s_session_key s) (take (length m - 32) m) = Inr t"
        "virp_consttime_eq (drop (length m - 32) m) t 32"
      and x: "command_hash C cmd tp = Inr x" "virp_consttime_eq (oh_command_hash h) x 32"
      by blast
    have "HMAC C (s_session_key s) (take (length m - 32) m) = Some (drop (length m - 32) m)"
      using t l mac [of "s_session_key s" "take (length m - 32) m" True] by blast
    then show ?r
      using l ch [OF _ x(1)] x si [of h] by blast
  next
    assume r: ?r
    then have "\<exists>t. virp_hmac_sha256 C (s_session_key s) (take (length m - 32) m) = Inr t \<and>
        virp_consttime_eq (drop (length m - 32) m) t 32 \<and> True"
      using mac [of "s_session_key s" "take (length m - 32) m" True] by blast
    moreover have "virp_consttime_eq (oh_command_hash h) (oh_command_hash h) 32"
      using r ch [of h "oh_command_hash h"] by blast
    ultimately show ?l
      using r si [of h] by blast
  qed
  finally show ?thesis .
qed

text \<open>The verifier is its first six checks followed by the replay store.\<close>

definition verify_checks ::
    "crypto_lib \<Rightarrow> u64 \<Rightarrow> virp_session_t \<Rightarrow> u64 \<Rightarrow> string ptr \<Rightarrow> string ptr \<Rightarrow> bytes ptr \<Rightarrow> u64 \<Rightarrow>
     virp_error_t + virp_obs_header_v2_t \<times> bytes" where
  "verify_checks C clock s did cmd tp msg now =
     (case virp_verify_observation_v2 C (\<lambda>_. True) clock s did cmd tp msg now empty_store of
        (Inl e, _) \<Rightarrow> Inl e
      | (Inr r, _) \<Rightarrow> Inr r)"

lemma accept_empty: "virp_seqstore_accept (\<lambda>_. True) empty_store (Some sid) n q =
    (VIRP_OK, put_entry 0 (fresh_entry empty_store sid n q) 1 empty_store)"
proof -
  have "find_mark empty_store sid n = None"
    by (simp add: find_mark_def empty_store_def)
  then show ?thesis
    by (simp add: virp_seqstore_accept_def empty_store_def VIRP_SEQSTORE_MAX_ENTRIES_def Let_def
        seqstore_save_def put_entry_def fresh_entry_def)
qed

lemma verify_v2_split:
  "virp_verify_observation_v2 C io clock s did cmd tp msg now st =
     (case verify_checks C clock s did cmd tp msg now of
        Inl e \<Rightarrow> (Inl e, st)
      | Inr (h, p) \<Rightarrow>
          (case virp_seqstore_accept io st (Some (oh_session_id h)) (oh_node_id h) (oh_seq_num h) of
             (err, st1) \<Rightarrow> if err \<noteq> VIRP_OK then (Inl err, st1) else (Inr (h, p), st1)))"
  unfolding verify_checks_def virp_verify_observation_v2_def Let_def accept_empty
  by (auto split: option.splits sum.splits prod.splits)

lemma verify_checks_session:
  assumes "length (s_session_id s) = 16"
    and "verify_checks C clock s did cmd tp msg now = Inr (h, p)"
  shows "oh_session_id h = s_session_id s"
proof -
  have des: "length (oh_session_id x) = 16"
    if "virp_obs_header_v2_deserialize (Some m) = Inr x" for x m
    using that by (auto simp: virp_obs_header_v2_deserialize_def split: if_splits)
  show ?thesis
    using assms(2) assms(1) unfolding verify_checks_def virp_verify_observation_v2_def Let_def accept_empty
    by (auto simp: des split: option.splits sum.splits prod.splits if_splits)
qed

text \<open>A verifier processing a list of requests in one session.\<close>

record verify_request =
  vr_clock :: u64
  vr_device :: u64
  vr_command :: "string ptr"
  vr_profile :: "string ptr"
  vr_msg :: "bytes ptr"
  vr_now :: u64

definition verify_request_step ::
    "crypto_lib \<Rightarrow> (string \<Rightarrow> bool) \<Rightarrow> virp_session_t \<Rightarrow> verify_request \<Rightarrow> virp_seqstore_t \<Rightarrow>
     (virp_error_t + virp_obs_header_v2_t \<times> bytes) \<times> virp_seqstore_t" where
  "verify_request_step C io s r st =
     virp_verify_observation_v2 C io (vr_clock r) s (vr_device r) (vr_command r) (vr_profile r)
       (vr_msg r) (vr_now r) st"

fun verify_run ::
    "crypto_lib \<Rightarrow> (string \<Rightarrow> bool) \<Rightarrow> virp_session_t \<Rightarrow> verify_request list \<Rightarrow> virp_seqstore_t \<Rightarrow>
     virp_obs_header_v2_t list" where
  "verify_run C io s [] st = []"
| "verify_run C io s (r # rs) st =
     (case verify_request_step C io s r st of
        (Inl e, st1) \<Rightarrow> verify_run C io s rs st1
      | (Inr (h, p), st1) \<Rightarrow> h # verify_run C io s rs st1)"

definition request_call :: "crypto_lib \<Rightarrow> virp_session_t \<Rightarrow> verify_request \<Rightarrow> (u64 \<times> u64) option" where
  "request_call C s r =
     (case verify_checks C (vr_clock r) s (vr_device r) (vr_command r) (vr_profile r) (vr_msg r) (vr_now r) of
        Inl e \<Rightarrow> None
      | Inr (h, p) \<Rightarrow> Some (oh_node_id h, oh_seq_num h))"

lemma verify_run_accepts:
  assumes "length (s_session_id s) = 16"
  shows "map (\<lambda>h. (oh_node_id h, oh_seq_num h)) (verify_run C io s rs st) =
    fst (accept_run (\<lambda>st sid n q. virp_seqstore_accept io st (Some sid) n q) st (s_session_id s)
          (List.map_filter (request_call C s) rs))"
proof (induction rs arbitrary: st)
  case Nil
  then show ?case by simp
next
  case (Cons r rs)
  show ?case
  proof (cases "verify_checks C (vr_clock r) s (vr_device r) (vr_command r) (vr_profile r) (vr_msg r) (vr_now r)")
    case (Inl e)
    then show ?thesis
      using Cons by (simp add: verify_request_step_def verify_v2_split request_call_def)
  next
    case (Inr hp)
    obtain h p where hp: "hp = (h, p)"
      by (cases hp)
    have sid: "oh_session_id h = s_session_id s"
      using verify_checks_session [OF assms Inr [unfolded hp]] .
    show ?thesis
      using Cons Inr
      by (auto simp: verify_request_step_def verify_v2_split request_call_def hp sid
          split: prod.splits)
  qed
qed

section \<open>Round trips\<close>

lemma unat_payload_len: "n \<le> 65536 \<Longrightarrow> unat (of_nat n :: u32) = n"
  by (rule unat_of_nat_u32) simp

lemma obs_v2_message_parts:
  assumes "wf_obs_header h" "length sig = 32"
  shows "length (obs_v2_message h p sig) = 120 + length p"
    "take (length (obs_v2_message h p sig) - 32) (obs_v2_message h p sig) = obs_header_bytes h @ p"
    "drop (length (obs_v2_message h p sig) - 32) (obs_v2_message h p sig) = sig"
    "virp_obs_header_v2_deserialize (Some (obs_v2_message h p sig)) = Inr h"
    "bslice 88 (length p) (obs_v2_message h p sig) = p"
  using assms length_obs_header_bytes [OF assms(1)] hdr2.dec_enc [OF assms(1), of "p @ sig"]
  by (simp_all add: obs_v2_message_def bslice_def)

text \<open>What the builder makes, a verifier in the same session accepts.\<close>

lemma verify_built_v2:
  assumes s: "session_shape s" and C: "sha_len C" "hmac_len C"
    and st: "s_state s = VIRP_SESSION_ACTIVE" "s_session_key_valid s"
    and ch: "command_hash C cmd tp = Inr ch" and n: "120 + length p \<le> 65536"
    and tier: "tier \<le> VIRP_TIER_RED"
    and sig: "HMAC C (s_session_key s) (obs_header_bytes h @ p) = Some sig"
    and h: "h = obs_header 2 s now nid did tier sq (length p) ch"
    and fr: "fresh (if now' = 0 then clock else now') now"
    and acc: "virp_seqstore_accept io store (Some (s_session_id s)) nid sq = (VIRP_OK, store')"
  shows "virp_verify_observation_v2 C io clock s did (Some cmd) tp (Some (obs_v2_message h p sig)) now' store =
    (Inr (h, p), store')"
proof -
  have sid: "length (s_session_id s) = 16"
    using s by (simp add: session_shape_def)
  have wf: "wf_obs_header h"
    using wf_obs_header_built sid command_hash_length [OF C(1) ch] unfolding h by blast
  have l: "length sig = 32"
    using sig C(2) by (auto simp: hmac_len_def)
  note m = obs_v2_message_parts [OF wf l, of p]
  have pl: "unat (oh_payload_len h) = length p"
    using n by (simp add: h obs_header_def unat_payload_len)
  have f: "oh_version h = 2" "oh_channel h = VIRP_CHANNEL_OC" "oh_tier h = tier" "oh_reserved h = 0"
    "oh_session_id h = s_session_id s" "oh_device_id h = did" "oh_command_hash h = ch"
    "oh_timestamp_ns h = now" "oh_node_id h = nid" "oh_seq_num h = sq"
    by (simp_all add: h obs_header_def)
  show ?thesis
    unfolding verify_v2_Inr_iff [OF sid C]
    using m n st sig f tier ch fr acc unfolding sanity_ok_iff pl by simp
qed

definition obs_v3_message :: "virp_obs_header_v2_t \<Rightarrow> bytes \<Rightarrow> bytes \<Rightarrow> bytes \<Rightarrow> bytes" where
  "obs_v3_message hdr p mac sig = obs_v2_message hdr p mac @ sig"

lemma verify_v3_Inr_iff:
  "virp_verify_observation_ed25519 C (Some pk) (Some m) = Inr (h, p) \<longleftrightarrow>
     184 \<le> length m \<and> length m \<le> 65536 \<and> virp_obs_header_v2_deserialize (Some m) = Inr h \<and>
     virp_obs_header_sanity (Some h) 3 (length m) 96 = VIRP_OK \<and>
     crypto_sign_verify_detached C pk (take (length m - 64) m) (drop (length m - 64) m) \<and>
     p = bslice 88 (length m - 184) m"
proof -
  have "take (88 + unat (oh_payload_len x) + 32) m = take (length m - 64) m"
    "bslice (88 + unat (oh_payload_len x) + 32) 64 m = drop (length m - 64) m"
    "unat (oh_payload_len x) = length m - 184"
    if "virp_obs_header_sanity (Some x) 3 (length m) 96 = VIRP_OK" for x
    using that unfolding sanity_ok_iff bslice_def by (simp_all add: add.commute)
  then show ?thesis
    unfolding virp_verify_observation_ed25519_def Let_def
    by (auto split: sum.splits if_splits)
qed

lemma build_v3_succeeds:
  assumes s: "session_shape s" and C: "sha_len C" "hmac_len C" "ed_len C"
    and st: "s_state s = VIRP_SESSION_ACTIVE" "s_session_key_valid s"
    and ch: "command_hash C cmd tp = Inr ch" and k: "ok_loaded k"
    and n: "184 + length p \<le> 65536" "184 + length p \<le> length buf"
    and h: "h = obs_header 3 s now nid did tier sq (length p) ch"
    and mac: "HMAC C (s_session_key s) (obs_header_bytes h @ p) = Some mac"
    and sig: "crypto_sign_detached C (ok_secret_key k) (obs_v2_message h p mac) = Some sig"
  shows "virp_build_observation_ed25519 C ta now s (Some k) nid did tier sq (Some cmd) tp (Some p) (Some buf) =
    (Inr (obs_v3_message h p mac sig @ drop (184 + length p) buf, 184 + length p),
     s\<lparr>s_last_activity_ns := ta\<rparr>)"
proof -
  have wf: "wf_obs_header h"
    using wf_obs_header_built s command_hash_length [OF C(1) ch] unfolding h
    by (simp add: session_shape_def)
  have l: "length mac = 32" "length sig = 64" "length (obs_header_bytes h) = 88"
    using mac sig C length_obs_header_bytes [OF wf] by (auto simp: hmac_len_def ed_len_def)
  have p1: "poke 88 p (obs_header_bytes h @ drop 88 buf) = obs_header_bytes h @ p @ drop (88 + length p) buf"
    using l by (simp add: poke_def add.commute)
  have p2: "poke (88 + length p) mac (obs_header_bytes h @ p @ r) = obs_v2_message h p mac @ drop 32 r" for r
    using l by (simp add: poke_def obs_v2_message_def)
  have lm: "length (obs_v2_message h p mac) = 88 + length p + 32"
    using l by (simp add: obs_v2_message_def)
  have p3: "poke (88 + length p + 32) sig (obs_v2_message h p mac @ r) =
      obs_v3_message h p mac sig @ drop 64 r" for r
    unfolding lm [symmetric] using l by (simp add: poke_def obs_v3_message_def)
  have t1: "take (88 + length p) (obs_header_bytes h @ p @ r) = obs_header_bytes h @ p" for r
    using l by simp
  have t2: "take (88 + length p + 32) (obs_v2_message h p mac @ r) = obs_v2_message h p mac" for r
    unfolding lm [symmetric] by simp
  have ser: "virp_obs_header_v2_serialize (Some h) (Some buf) = Inr (obs_header_bytes h @ drop 88 buf)"
    using virp_obs_header_v2_serialize_layout [OF wf, of buf] n by simp
  have dr: "drop 64 (drop 32 (drop (88 + length p) buf)) = drop (184 + length p) buf"
    by (simp add: add.commute)
  have tot: "88 + length p + 32 + 64 = 184 + length p"
    by simp
  have key: "s_session_key (s\<lparr>s_last_activity_ns := ta\<rparr>) = s_session_key s"
    by simp
  have c: "\<not> 65536 < length p" "\<not> 65536 < 184 + length p" "\<not> length buf < 184 + length p"
    using n by simp_all
  show ?thesis
    unfolding virp_build_observation_ed25519_def virp_session_require_active_def Let_def
      option.case prod.case VIRP_OBS_V2_HEADER_SIZE_def VIRP_OBS_V2_SIG_SIZE_def
      VIRP_OBS_ED25519_SIG_SIZE_def VIRP_MAX_MESSAGE_SIZE_def VIRP_VERSION_3_def tot
    by (simp only: c st k ch if_False if_True simp_thms sum.case obs_header_activity
        h [symmetric] ser p1 t1 mac option.case p2 t2 p3 sig dr key)
qed

lemma obs_v3_message_parts:
  assumes "wf_obs_header h" "length mac = 32" "length sig = 64"
  shows "length (obs_v3_message h p mac sig) = 184 + length p"
    "take (length (obs_v3_message h p mac sig) - 64) (obs_v3_message h p mac sig) = obs_v2_message h p mac"
    "drop (length (obs_v3_message h p mac sig) - 64) (obs_v3_message h p mac sig) = sig"
    "virp_obs_header_v2_deserialize (Some (obs_v3_message h p mac sig)) = Inr h"
    "bslice 88 (length p) (obs_v3_message h p mac sig) = p"
  using assms length_obs_header_bytes [OF assms(1)] hdr2.dec_enc [OF assms(1), of "p @ mac @ sig"]
  by (simp_all add: obs_v3_message_def obs_v2_message_def bslice_def)

lemma verify_built_v3:
  assumes wf: "wf_obs_header h" and l: "length mac = 32" "length sig = 64"
    and h: "oh_version h = 3" "oh_channel h = VIRP_CHANNEL_OC" "oh_tier h \<le> VIRP_TIER_RED"
      "oh_reserved h = 0" "oh_payload_len h = of_nat (length p)"
    and n: "184 + length p \<le> 65536"
    and sig: "crypto_sign_verify_detached C pk (obs_v2_message h p mac) sig"
  shows "virp_verify_observation_ed25519 C (Some pk) (Some (obs_v3_message h p mac sig)) = Inr (h, p)"
proof -
  note m = obs_v3_message_parts [OF wf l, of p]
  have "unat (oh_payload_len h) = length p"
    using n h(5) by (simp add: unat_payload_len)
  then show ?thesis
    unfolding verify_v3_Inr_iff sanity_ok_iff using m n h sig by simp
qed

text \<open>The verifiers of the two formats share no message: one demands version 2, the other
  version 3.\<close>

lemma v2_v3_disjoint:
  assumes "length (s_session_id s) = 16" "sha_len C" "hmac_len C"
    and "virp_verify_observation_v2 C io clock s did (Some cmd) tp (Some m) now st = (Inr (h, p), st')"
    and "take 88 m' = take 88 m"
  shows "virp_verify_observation_ed25519 C' (Some pk) (Some m') \<noteq> Inr r"
proof
  assume a: "virp_verify_observation_ed25519 C' (Some pk) (Some m') = Inr r"
  obtain x q where r: "r = (x, q)"
    by (cases r)
  have v2: "virp_obs_header_v2_deserialize (Some m) = Inr h" "oh_version h = 2"
    using assms(4) unfolding verify_v2_Inr_iff [OF assms(1-3)] sanity_ok_iff by simp_all
  have v3: "virp_obs_header_v2_deserialize (Some m') = Inr x" "oh_version x = 3"
    using a unfolding r verify_v3_Inr_iff sanity_ok_iff by simp_all
  have "oh_version h = m ! 0" "oh_version x = m' ! 0"
    using v2(1) v3(1) by (auto simp: virp_obs_header_v2_deserialize_def split: if_splits)
  moreover have "m ! 0 = m' ! 0"
    using assms(5) by (metis nth_take zero_less_numeral)
  ultimately show False
    using v2(2) v3(2) by simp
qed

end
