(* ===== verification/Virp_Json.thy ===== *)
theory Virp_Json
  imports Complex_Main Virp_Text
begin

text \<open>
  JSON documents as the components see them through cJSON (\<open>src/third_party/cJSON.c\<close>): the
  tree, the type tests, and the lookup of a member. Parsing and printing text are arguments of
  the definitions that call them (\<open>cJSON_Parse\<close>, \<open>cJSON_PrintUnformatted\<close>). A number is its
  value; the infinities an overlong literal turns into lie outside every range the code
  tests for and are represented by numbers that do.
\<close>

datatype json =
    JNull
  | JFalse
  | JTrue
  | JNumber rat
  | JString string
  | JArray "json list"
  | JObject "(string \<times> json) list"

fun cJSON_GetObjectItemCaseSensitive :: "json option \<Rightarrow> string \<Rightarrow> json option" where
  "cJSON_GetObjectItemCaseSensitive (Some (JObject ms)) name = map_of ms name"
| "cJSON_GetObjectItemCaseSensitive _ name = None"

fun cJSON_IsArray :: "json option \<Rightarrow> bool" where
  "cJSON_IsArray (Some (JArray xs)) = True"
| "cJSON_IsArray _ = False"

fun cJSON_IsObject :: "json option \<Rightarrow> bool" where
  "cJSON_IsObject (Some (JObject ms)) = True"
| "cJSON_IsObject _ = False"

text \<open>The elements \<open>cJSON_ArrayForEach\<close> visits: the children of an array or object.\<close>

fun json_children :: "json option \<Rightarrow> json list" where
  "json_children (Some (JArray xs)) = xs"
| "json_children (Some (JObject ms)) = map snd ms"
| "json_children _ = []"

text \<open>\<open>cJSON_IsString\<close> together with \<open>valuestring\<close>, \<open>cJSON_IsNumber\<close> with \<open>valuedouble\<close>.\<close>

fun json_string :: "json option \<Rightarrow> string option" where
  "json_string (Some (JString s)) = Some s"
| "json_string _ = None"

fun json_number :: "json option \<Rightarrow> rat option" where
  "json_number (Some (JNumber q)) = Some q"
| "json_number _ = None"

text \<open>A field printed between quotes determines itself when it contains none.\<close>

definition quote_free :: "string \<Rightarrow> bool" where
  "quote_free s \<longleftrightarrow> CHR 0x22 \<notin> set s"

lemma quoted_inject:
  assumes "quote_free a" and "quote_free b"
  shows "a @ CHR 0x22 # r = b @ CHR 0x22 # s \<longleftrightarrow> a = b \<and> r = s"
proof
  assume e: "a @ CHR 0x22 # r = b @ CHR 0x22 # s"
  have tw: "takeWhile (\<lambda>c. c \<noteq> CHR 0x22) (x @ CHR 0x22 # y) = x" if "quote_free x" for x y
    using that by (intro takeWhile_digits) (auto simp: list_all_iff quote_free_def)
  have "a = b"
    using arg_cong [OF e, of "takeWhile (\<lambda>c. c \<noteq> CHR 0x22)"] unfolding tw [OF assms(1)] tw [OF assms(2)] .
  then show "a = b \<and> r = s"
    using e by simp
qed simp

text \<open>A number is ended by a character that is no digit.\<close>

lemma dec_end_inject:
  assumes "\<not> is_digit 10 c" and "\<not> is_digit 10 d"
  shows "dec n @ c # r = dec m @ d # s \<longleftrightarrow> n = m \<and> c = d \<and> r = s"
proof
  assume e: "dec n @ c # r = dec m @ d # s"
  have tw: "takeWhile (is_digit 10) (dec k @ x # y) = dec k" if "\<not> is_digit 10 x" for k x y
    using dec_digits(1) that by (intro takeWhile_digits) (auto simp: list_all_iff)
  have "dec n = dec m"
    using arg_cong [OF e, of "takeWhile (is_digit 10)"] unfolding tw [OF assms(1)] tw [OF assms(2)] .
  then show "n = m \<and> c = d \<and> r = s"
    using e by (simp add: dec_inject)
qed simp

end
