(* ===== verification/Virp_Validator.thy ===== *)
theory Virp_Validator
  imports Virp_Crypto Virp_Json
begin

text \<open>
  The response validator (\<open>src/virp_validator.c\<close>): a manifest of assertions about devices is
  parsed, every assertion is checked against the evidence of the turn and of the chain, and
  the decision is committed as a chain artifact. The JSON parser, the chain query and the
  chain append are arguments. C strings in fixed arrays are \<open>string\<close>s; the sizes are the
  bounds the parser enforces.
\<close>

section \<open>Data\<close>

definition VALIDATOR_MAX_ASSERTIONS :: nat where "VALIDATOR_MAX_ASSERTIONS = 1024"
definition VALIDATOR_MAX_TOOL_CALL_REFS :: nat where "VALIDATOR_MAX_TOOL_CALL_REFS = 512"
definition VALIDATOR_DEVICE_MAX :: nat where "VALIDATOR_DEVICE_MAX = 64"
definition VALIDATOR_HASH_HEX_LEN :: nat where [simp]: "VALIDATOR_HASH_HEX_LEN = 64"
definition VALIDATOR_SESSION_ID_MAX :: nat where "VALIDATOR_SESSION_ID_MAX = 64"

datatype validator_claim_type_t =
    VALIDATOR_CLAIM_UNKNOWN
  | VALIDATOR_CLAIM_STATE_READ
  | VALIDATOR_CLAIM_STATE_CHANGE
  | VALIDATOR_CLAIM_CONFIG_CHANGE

datatype validator_decision_t =
    VALIDATOR_DECISION_PASS
  | VALIDATOR_DECISION_WARN
  | VALIDATOR_DECISION_BLOCK

datatype validator_violation_code_t =
    VALIDATOR_VIOLATION_NONE
  | VALIDATOR_VIOLATION_NO_EVIDENCE_STATE_READ
  | VALIDATOR_VIOLATION_NO_EVIDENCE_STATE_CHANGE
  | VALIDATOR_VIOLATION_EVIDENCE_NOT_IN_TURN
  | VALIDATOR_VIOLATION_EVIDENCE_NOT_IN_CHAIN
  | VALIDATOR_VIOLATION_UNKNOWN_CLAIM_TYPE
  | VALIDATOR_VIOLATION_PROSE_HASH_MISMATCH
  | VALIDATOR_VIOLATION_MANIFEST_MALFORMED
  | VALIDATOR_VIOLATION_MANIFEST_TOO_LARGE
  | VALIDATOR_VIOLATION_MANIFEST_MISSING

fun decision_code :: "validator_decision_t \<Rightarrow> nat" where
  "decision_code VALIDATOR_DECISION_PASS = 0"
| "decision_code VALIDATOR_DECISION_WARN = 1"
| "decision_code VALIDATOR_DECISION_BLOCK = 2"

fun violation_code :: "validator_violation_code_t \<Rightarrow> nat" where
  "violation_code VALIDATOR_VIOLATION_NONE = 0"
| "violation_code VALIDATOR_VIOLATION_NO_EVIDENCE_STATE_READ = 1"
| "violation_code VALIDATOR_VIOLATION_NO_EVIDENCE_STATE_CHANGE = 2"
| "violation_code VALIDATOR_VIOLATION_EVIDENCE_NOT_IN_TURN = 3"
| "violation_code VALIDATOR_VIOLATION_EVIDENCE_NOT_IN_CHAIN = 4"
| "violation_code VALIDATOR_VIOLATION_UNKNOWN_CLAIM_TYPE = 5"
| "violation_code VALIDATOR_VIOLATION_PROSE_HASH_MISMATCH = 6"
| "violation_code VALIDATOR_VIOLATION_MANIFEST_MALFORMED = 7"
| "violation_code VALIDATOR_VIOLATION_MANIFEST_TOO_LARGE = 8"
| "violation_code VALIDATOR_VIOLATION_MANIFEST_MISSING = 9"

record validator_assertion_t =
  va_device :: string
  va_claim_type :: validator_claim_type_t
  va_has_evidence :: bool
  va_evidence_ref :: string

record validator_manifest_t =
  vm_session_id :: string
  vm_prose_hash :: string
  vm_tool_call_refs :: "string list"
  vm_assertions :: "validator_assertion_t list"

record validator_assertion_result_t =
  ar_decision :: validator_decision_t
  ar_violation :: validator_violation_code_t

record validator_result_t =
  vr_decision :: validator_decision_t
  vr_turn_violation :: validator_violation_code_t
  vr_per_assertion :: "validator_assertion_result_t list"
  vr_chain_entry_hash :: string
  vr_chain_sequence :: int
  vr_artifact_hash :: string

section \<open>Helpers\<close>

definition is_hex64 :: "string ptr \<Rightarrow> bool" where
  "is_hex64 s =
     (case s of
        None \<Rightarrow> False
      | Some t \<Rightarrow> length t = VALIDATOR_HASH_HEX_LEN \<and>
          list_all (\<lambda>c. is_dec c \<or> (CHR ''a'' = c \<or> CHR ''b'' = c \<or> CHR ''c'' = c \<or>
                                     CHR ''d'' = c \<or> CHR ''e'' = c \<or> CHR ''f'' = c)) t)"

definition token_char :: "char \<Rightarrow> bool" where
  "token_char c \<longleftrightarrow> is_upper c \<or> is_lower c \<or> is_dec c \<or> c = CHR ''.'' \<or> c = CHR ''_'' \<or> c = CHR ''-''"

fun token_loop :: "nat \<Rightarrow> string \<Rightarrow> bool" where
  "token_loop 0 s = False"
| "token_loop (Suc n) [] = True"
| "token_loop (Suc n) (c # s) = (token_char c \<and> token_loop n s)"

definition is_safe_token :: "string ptr \<Rightarrow> nat \<Rightarrow> bool" where
  "is_safe_token s max_len =
     (case s of None \<Rightarrow> False | Some t \<Rightarrow> t \<noteq> [] \<and> token_loop max_len t)"

definition sha256_hex :: "crypto_lib \<Rightarrow> bytes \<Rightarrow> string" where
  "sha256_hex C d = bytes_hex (SHA256 C d)"

definition parse_claim_type :: "string \<Rightarrow> validator_claim_type_t" where
  "parse_claim_type s =
     (if s = ''state_read'' then VALIDATOR_CLAIM_STATE_READ
      else if s = ''state_change'' then VALIDATOR_CLAIM_STATE_CHANGE
      else if s = ''config_change'' then VALIDATOR_CLAIM_CONFIG_CHANGE
      else VALIDATOR_CLAIM_UNKNOWN)"

definition decision_max :: "validator_decision_t \<Rightarrow> validator_decision_t \<Rightarrow> validator_decision_t" where
  "decision_max a b = (if decision_code a > decision_code b then a else b)"

fun validator_decision_str :: "validator_decision_t \<Rightarrow> string" where
  "validator_decision_str VALIDATOR_DECISION_PASS = ''pass''"
| "validator_decision_str VALIDATOR_DECISION_WARN = ''warn''"
| "validator_decision_str VALIDATOR_DECISION_BLOCK = ''block''"

fun validator_violation_str :: "validator_violation_code_t \<Rightarrow> string" where
  "validator_violation_str VALIDATOR_VIOLATION_NONE = ''none''"
| "validator_violation_str VALIDATOR_VIOLATION_NO_EVIDENCE_STATE_READ = ''no_evidence_state_read''"
| "validator_violation_str VALIDATOR_VIOLATION_NO_EVIDENCE_STATE_CHANGE = ''no_evidence_state_change''"
| "validator_violation_str VALIDATOR_VIOLATION_EVIDENCE_NOT_IN_TURN = ''evidence_not_in_turn''"
| "validator_violation_str VALIDATOR_VIOLATION_EVIDENCE_NOT_IN_CHAIN = ''evidence_not_in_chain''"
| "validator_violation_str VALIDATOR_VIOLATION_UNKNOWN_CLAIM_TYPE = ''unknown_claim_type''"
| "validator_violation_str VALIDATOR_VIOLATION_PROSE_HASH_MISMATCH = ''prose_hash_mismatch''"
| "validator_violation_str VALIDATOR_VIOLATION_MANIFEST_MALFORMED = ''manifest_malformed''"
| "validator_violation_str VALIDATOR_VIOLATION_MANIFEST_TOO_LARGE = ''manifest_too_large''"
| "validator_violation_str VALIDATOR_VIOLATION_MANIFEST_MISSING = ''manifest_missing''"

fun validator_claim_type_str :: "validator_claim_type_t \<Rightarrow> string" where
  "validator_claim_type_str VALIDATOR_CLAIM_STATE_READ = ''state_read''"
| "validator_claim_type_str VALIDATOR_CLAIM_STATE_CHANGE = ''state_change''"
| "validator_claim_type_str VALIDATOR_CLAIM_CONFIG_CHANGE = ''config_change''"
| "validator_claim_type_str VALIDATOR_CLAIM_UNKNOWN = ''unknown''"

section \<open>The manifest parser\<close>

type_synonym parse_failure = "validator_violation_code_t \<times> virp_error_t"

abbreviation malformed :: parse_failure where
  "malformed \<equiv> (VALIDATOR_VIOLATION_MANIFEST_MALFORMED, VIRP_ERR_INVALID_LENGTH)"

abbreviation too_large :: parse_failure where
  "too_large \<equiv> (VALIDATOR_VIOLATION_MANIFEST_TOO_LARGE, VIRP_ERR_INVALID_LENGTH)"

fun refs_loop :: "json list \<Rightarrow> nat \<Rightarrow> string list \<Rightarrow> parse_failure + string list" where
  "refs_loop [] n acc = Inr acc"
| "refs_loop (item # items) n acc =
     (if n \<ge> VALIDATOR_MAX_TOOL_CALL_REFS then Inl too_large
      else (case json_string (Some item) of
              None \<Rightarrow> Inl malformed
            | Some s \<Rightarrow> if \<not> is_hex64 (Some s) then Inl malformed
                        else refs_loop items (Suc n) (acc @ [s])))"

definition parse_tool_call_refs :: "json \<Rightarrow> parse_failure + string list" where
  "parse_tool_call_refs arr =
     (if \<not> cJSON_IsArray (Some arr) then Inl malformed
      else refs_loop (json_children (Some arr)) 0 [])"

definition parse_one_assertion :: "json \<Rightarrow> parse_failure + validator_assertion_t" where
  "parse_one_assertion obj =
     (if \<not> cJSON_IsObject (Some obj) then Inl malformed
      else (case json_string (cJSON_GetObjectItemCaseSensitive (Some obj) ''device'') of
        None \<Rightarrow> Inl malformed
      | Some dev \<Rightarrow>
          if \<not> is_safe_token (Some dev) VALIDATOR_DEVICE_MAX then Inl malformed
          else (case json_string (cJSON_GetObjectItemCaseSensitive (Some obj) ''claim_type'') of
            None \<Rightarrow> Inl malformed
          | Some ct \<Rightarrow>
              let a = \<lparr>va_device = dev, va_claim_type = parse_claim_type ct,
                       va_has_evidence = False, va_evidence_ref = []\<rparr>
              in (case cJSON_GetObjectItemCaseSensitive (Some obj) ''evidence_ref'' of
                    None \<Rightarrow> Inr a
                  | Some JNull \<Rightarrow> Inr a
                  | Some (JString ev) \<Rightarrow>
                      if \<not> is_hex64 (Some ev) then Inl malformed
                      else Inr (a\<lparr>va_has_evidence := True, va_evidence_ref := ev\<rparr>)
                  | Some _ \<Rightarrow> Inl malformed))))"

fun asserts_loop :: "json list \<Rightarrow> nat \<Rightarrow> validator_assertion_t list \<Rightarrow> parse_failure + validator_assertion_t list" where
  "asserts_loop [] n acc = Inr acc"
| "asserts_loop (it # items) n acc =
     (if n \<ge> VALIDATOR_MAX_ASSERTIONS then Inl too_large
      else (case parse_one_assertion it of
              Inl e \<Rightarrow> Inl e
            | Inr a \<Rightarrow> asserts_loop items (Suc n) (acc @ [a])))"

definition validator_parse_manifest ::
    "(string \<Rightarrow> json option) \<Rightarrow> string ptr \<Rightarrow> parse_failure + validator_manifest_t" where
  "validator_parse_manifest cJSON_ParseWithLength json =
     (case json of
        None \<Rightarrow> Inl (VALIDATOR_VIOLATION_MANIFEST_MISSING, VIRP_ERR_NULL_PTR)
      | Some text \<Rightarrow>
          if text = [] then Inl (VALIDATOR_VIOLATION_MANIFEST_MISSING, VIRP_ERR_NULL_PTR)
          else (case cJSON_ParseWithLength text of
            None \<Rightarrow> Inl malformed
          | Some doc \<Rightarrow>
              (case json_string (cJSON_GetObjectItemCaseSensitive (Some doc) ''session_id'') of
                None \<Rightarrow> Inl malformed
              | Some sid \<Rightarrow>
                  if \<not> is_safe_token (Some sid) VALIDATOR_SESSION_ID_MAX then Inl malformed
                  else (case json_string (cJSON_GetObjectItemCaseSensitive (Some doc) ''prose_hash'') of
                    None \<Rightarrow> Inl malformed
                  | Some ph \<Rightarrow>
                      if \<not> is_hex64 (Some ph) then Inl malformed
                      else (case (case cJSON_GetObjectItemCaseSensitive (Some doc) ''tool_call_refs'' of
                                    None \<Rightarrow> Inr []
                                  | Some refs \<Rightarrow> parse_tool_call_refs refs) of
                        Inl e \<Rightarrow> Inl e
                      | Inr trefs \<Rightarrow>
                          let asserts = cJSON_GetObjectItemCaseSensitive (Some doc) ''assertions''
                          in if \<not> cJSON_IsArray asserts then Inl malformed
                             else (case asserts_loop (json_children asserts) 0 [] of
                               Inl e \<Rightarrow> Inl e
                             | Inr as \<Rightarrow>
                                 Inr \<lparr>vm_session_id = sid, vm_prose_hash = ph,
                                      vm_tool_call_refs = trefs, vm_assertions = as\<rparr>))))))"

section \<open>Evaluation\<close>

definition ref_in_turn :: "validator_manifest_t \<Rightarrow> string \<Rightarrow> bool" where
  "ref_in_turn m hex \<longleftrightarrow> list_ex (\<lambda>r. r = hex) (vm_tool_call_refs m)"

text \<open>\<open>chain_query session hash\<close> is the result of the SELECT: whether a row exists, or \<open>None\<close> when
  a database call fails.\<close>

definition ref_in_chain :: "(string \<Rightarrow> string \<Rightarrow> bool option) \<Rightarrow> string \<Rightarrow> string \<Rightarrow> virp_error_t \<times> bool" where
  "ref_in_chain chain_query session_id hash =
     (case chain_query session_id hash of
        None \<Rightarrow> (VIRP_ERR_CHAIN_DB, False)
      | Some found \<Rightarrow> (VIRP_OK, found))"

definition evaluate_assertion ::
    "(string \<Rightarrow> string \<Rightarrow> bool option) \<Rightarrow> validator_manifest_t \<Rightarrow> validator_assertion_t \<Rightarrow>
     validator_assertion_result_t" where
  "evaluate_assertion chain_query m a =
     (if va_claim_type a = VALIDATOR_CLAIM_UNKNOWN
      then \<lparr>ar_decision = VALIDATOR_DECISION_BLOCK, ar_violation = VALIDATOR_VIOLATION_UNKNOWN_CLAIM_TYPE\<rparr>
      else if \<not> va_has_evidence a
      then (if va_claim_type a = VALIDATOR_CLAIM_STATE_READ
            then \<lparr>ar_decision = VALIDATOR_DECISION_WARN, ar_violation = VALIDATOR_VIOLATION_NO_EVIDENCE_STATE_READ\<rparr>
            else \<lparr>ar_decision = VALIDATOR_DECISION_BLOCK, ar_violation = VALIDATOR_VIOLATION_NO_EVIDENCE_STATE_CHANGE\<rparr>)
      else if \<not> ref_in_turn m (va_evidence_ref a)
      then \<lparr>ar_decision = VALIDATOR_DECISION_BLOCK, ar_violation = VALIDATOR_VIOLATION_EVIDENCE_NOT_IN_TURN\<rparr>
      else (case ref_in_chain chain_query (vm_session_id m) (va_evidence_ref a) of
              (err, in_chain) \<Rightarrow>
                if err \<noteq> VIRP_OK \<or> \<not> in_chain
                then \<lparr>ar_decision = VALIDATOR_DECISION_BLOCK, ar_violation = VALIDATOR_VIOLATION_EVIDENCE_NOT_IN_CHAIN\<rparr>
                else \<lparr>ar_decision = VALIDATOR_DECISION_PASS, ar_violation = VALIDATOR_VIOLATION_NONE\<rparr>))"

definition zero_result :: validator_result_t where
  "zero_result = \<lparr>vr_decision = VALIDATOR_DECISION_PASS, vr_turn_violation = VALIDATOR_VIOLATION_NONE,
     vr_per_assertion = [], vr_chain_entry_hash = [], vr_chain_sequence = - 1, vr_artifact_hash = []\<rparr>"

definition validator_evaluate ::
    "crypto_lib \<Rightarrow> (string \<Rightarrow> string \<Rightarrow> bool option) \<Rightarrow> validator_manifest_t \<Rightarrow> bytes \<Rightarrow> validator_result_t" where
  "validator_evaluate C chain_query m prose =
     (let mismatch = (sha256_hex C prose \<noteq> vm_prose_hash m);
          roll = (if mismatch then decision_max VALIDATOR_DECISION_PASS VALIDATOR_DECISION_BLOCK
                  else VALIDATOR_DECISION_PASS);
          rs = map (evaluate_assertion chain_query m) (vm_assertions m)
      in zero_result\<lparr>vr_turn_violation := (if mismatch then VALIDATOR_VIOLATION_PROSE_HASH_MISMATCH
                                          else VALIDATOR_VIOLATION_NONE),
                     vr_per_assertion := rs,
                     vr_decision := foldl (\<lambda>d r. decision_max d (ar_decision r)) roll rs\<rparr>)"

section \<open>Committing a decision\<close>

text \<open>One \<open>snprintf\<close> at the current end of the buffer: \<open>None\<close> when it does not fit.\<close>

definition emit :: "nat \<Rightarrow> string option \<Rightarrow> string \<Rightarrow> string option" where
  "emit cap out piece =
     (case out of
        None \<Rightarrow> None
      | Some s \<Rightarrow> if length piece \<ge> cap - length s then None else Some (s @ piece))"

definition Q :: string where "Q = [CHR 0x22]"

definition decision_head :: "validator_manifest_t \<Rightarrow> validator_result_t \<Rightarrow> string" where
  "decision_head m r =
     ''{'' @ Q @ ''session_id'' @ Q @ '':'' @ Q @ vm_session_id m @ Q @ '','' @
     Q @ ''decision'' @ Q @ '':'' @ Q @ validator_decision_str (vr_decision r) @ Q @ '','' @
     Q @ ''turn_violation'' @ Q @ '':'' @ dec (violation_code (vr_turn_violation r)) @ '','' @
     Q @ ''prose_hash'' @ Q @ '':'' @ Q @ vm_prose_hash m @ Q @ '','' @
     Q @ ''assertions'' @ Q @ '':[''"

definition decision_item :: "nat \<Rightarrow> validator_assertion_t \<Rightarrow> validator_assertion_result_t \<Rightarrow> string" where
  "decision_item i a ar =
     (if i = 0 then '''' else '','') @ ''{'' @ Q @ ''device'' @ Q @ '':'' @ Q @ va_device a @ Q @ '','' @
     Q @ ''claim_type'' @ Q @ '':'' @ Q @ validator_claim_type_str (va_claim_type a) @ Q @ '','' @
     Q @ ''decision'' @ Q @ '':'' @ Q @ validator_decision_str (ar_decision ar) @ Q @ '','' @
     Q @ ''violation'' @ Q @ '':'' @ dec (violation_code (ar_violation ar)) @ ''}''"

definition build_canonical_decision ::
    "validator_manifest_t \<Rightarrow> validator_result_t \<Rightarrow> nat \<Rightarrow> string option" where
  "build_canonical_decision m r buf_len =
     (let out1 = emit buf_len (Some []) (decision_head m r);
          out2 = foldl (\<lambda>out i. emit buf_len out (decision_item i (vm_assertions m ! i) (vr_per_assertion r ! i)))
                   out1 [0..<length (vr_per_assertion r)]
      in emit buf_len out2 '']}'')"

text \<open>\<open>chain_append session type id hash\<close> is \<open>virp_chain_append\<close>; its result is the hash and the
  sequence number of the new entry.\<close>

definition validator_commit_decision ::
    "crypto_lib \<Rightarrow> (string \<Rightarrow> string \<Rightarrow> string \<Rightarrow> string \<Rightarrow> virp_error_t + string \<times> int) \<Rightarrow>
     validator_manifest_t \<Rightarrow> validator_result_t \<Rightarrow> virp_error_t \<times> validator_result_t" where
  "validator_commit_decision C chain_append m r =
     (case build_canonical_decision m r 8192 of
        None \<Rightarrow> (VIRP_ERR_BUFFER_TOO_SMALL, r)
      | Some canonical \<Rightarrow>
          let h = sha256_hex C (string_bytes canonical); r1 = r\<lparr>vr_artifact_hash := h\<rparr>
          in (case chain_append (vm_session_id m) ''validation'' (''val-'' @ take 16 h) h of
                Inl e \<Rightarrow> (e, r1)
              | Inr (entry_hash, seq) \<Rightarrow>
                  (VIRP_OK, r1\<lparr>vr_chain_entry_hash := entry_hash, vr_chain_sequence := seq\<rparr>)))"

definition validator_run_turn ::
    "crypto_lib \<Rightarrow> (string \<Rightarrow> json option) \<Rightarrow> (string \<Rightarrow> string \<Rightarrow> bool option) \<Rightarrow>
     (string \<Rightarrow> string \<Rightarrow> string \<Rightarrow> string \<Rightarrow> virp_error_t + string \<times> int) \<Rightarrow>
     string ptr \<Rightarrow> bytes \<Rightarrow> string ptr \<Rightarrow> virp_error_t \<times> validator_result_t" where
  "validator_run_turn C cJSON_ParseWithLength chain_query chain_append manifest_json prose fallback_session_id =
     (case fallback_session_id of
        None \<Rightarrow> (VIRP_ERR_NULL_PTR, zero_result)
      | Some fb \<Rightarrow>
          (case validator_parse_manifest cJSON_ParseWithLength manifest_json of
             Inl (reason, _) \<Rightarrow>
               validator_commit_decision C chain_append
                 \<lparr>vm_session_id = take (VALIDATOR_SESSION_ID_MAX - 1) fb, vm_prose_hash = replicate 64 (CHR ''0''),
                  vm_tool_call_refs = [], vm_assertions = []\<rparr>
                 (zero_result\<lparr>vr_decision := VALIDATOR_DECISION_BLOCK,
                    vr_turn_violation := (if reason \<noteq> VALIDATOR_VIOLATION_NONE then reason
                                          else VALIDATOR_VIOLATION_MANIFEST_MALFORMED)\<rparr>)
           | Inr m \<Rightarrow> validator_commit_decision C chain_append m (validator_evaluate C chain_query m prose)))"

section \<open>What a decision means\<close>

lemma token_loop_iff: "token_loop n s \<longleftrightarrow> length s < n \<and> list_all token_char s"
  by (induction n s rule: token_loop.induct) auto

lemma decision_max_simps [simp]:
  "decision_max VALIDATOR_DECISION_PASS d = d" "decision_max d VALIDATOR_DECISION_PASS = d"
  "decision_max VALIDATOR_DECISION_BLOCK d = VALIDATOR_DECISION_BLOCK"
  "decision_max d VALIDATOR_DECISION_BLOCK = VALIDATOR_DECISION_BLOCK"
  by (cases d; simp add: decision_max_def)+

lemma decision_max_PASS: "decision_max a b = VALIDATOR_DECISION_PASS \<longleftrightarrow>
    a = VALIDATOR_DECISION_PASS \<and> b = VALIDATOR_DECISION_PASS"
  by (cases a; cases b; simp add: decision_max_def)

lemma decision_max_BLOCK: "decision_max a b = VALIDATOR_DECISION_BLOCK \<longleftrightarrow>
    a = VALIDATOR_DECISION_BLOCK \<or> b = VALIDATOR_DECISION_BLOCK"
  by (cases a; cases b; simp add: decision_max_def)

lemma rollup:
  "foldl (\<lambda>d r. decision_max d (ar_decision r)) d0 rs = VALIDATOR_DECISION_PASS \<longleftrightarrow>
     d0 = VALIDATOR_DECISION_PASS \<and> (\<forall>r \<in> set rs. ar_decision r = VALIDATOR_DECISION_PASS)"
  "foldl (\<lambda>d r. decision_max d (ar_decision r)) d0 rs = VALIDATOR_DECISION_BLOCK \<longleftrightarrow>
     d0 = VALIDATOR_DECISION_BLOCK \<or> (\<exists>r \<in> set rs. ar_decision r = VALIDATOR_DECISION_BLOCK)"
  by (induction rs arbitrary: d0) (auto simp: decision_max_PASS decision_max_BLOCK)

text \<open>An assertion is backed when it cites evidence of this turn that the chain holds for this
  session; it is bare when it only reads state and cites nothing.\<close>

definition backed :: "(string \<Rightarrow> string \<Rightarrow> bool option) \<Rightarrow> validator_manifest_t \<Rightarrow> validator_assertion_t \<Rightarrow> bool" where
  "backed chain_query m a \<longleftrightarrow> va_claim_type a \<noteq> VALIDATOR_CLAIM_UNKNOWN \<and> va_has_evidence a \<and>
     va_evidence_ref a \<in> set (vm_tool_call_refs m) \<and>
     chain_query (vm_session_id m) (va_evidence_ref a) = Some True"

definition bare_read :: "validator_assertion_t \<Rightarrow> bool" where
  "bare_read a \<longleftrightarrow> va_claim_type a = VALIDATOR_CLAIM_STATE_READ \<and> \<not> va_has_evidence a"

lemma evaluate_assertion_iff:
  "ar_decision (evaluate_assertion chain_query m a) = VALIDATOR_DECISION_PASS \<longleftrightarrow> backed chain_query m a"
  "ar_decision (evaluate_assertion chain_query m a) = VALIDATOR_DECISION_BLOCK \<longleftrightarrow>
     \<not> backed chain_query m a \<and> \<not> bare_read a"
  by (auto simp: evaluate_assertion_def backed_def bare_read_def ref_in_turn_def ref_in_chain_def list_ex_iff
      split: option.splits)

lemma validator_evaluate_iff:
  "vr_decision (validator_evaluate C chain_query m prose) = VALIDATOR_DECISION_PASS \<longleftrightarrow>
     sha256_hex C prose = vm_prose_hash m \<and> (\<forall>a \<in> set (vm_assertions m). backed chain_query m a)"
  "vr_decision (validator_evaluate C chain_query m prose) = VALIDATOR_DECISION_BLOCK \<longleftrightarrow>
     sha256_hex C prose \<noteq> vm_prose_hash m \<or>
     (\<exists>a \<in> set (vm_assertions m). \<not> backed chain_query m a \<and> \<not> bare_read a)"
  by (auto simp: validator_evaluate_def Let_def zero_result_def rollup evaluate_assertion_iff)

section \<open>What a parsed manifest holds\<close>

definition lower_hex64 :: "string \<Rightarrow> bool" where
  "lower_hex64 s \<longleftrightarrow> is_hex64 (Some s)"

definition wf_assertion :: "validator_assertion_t \<Rightarrow> bool" where
  "wf_assertion a \<longleftrightarrow> va_device a \<noteq> [] \<and> length (va_device a) < 64 \<and> list_all token_char (va_device a) \<and>
     (if va_has_evidence a then lower_hex64 (va_evidence_ref a) else va_evidence_ref a = [])"

definition wf_manifest :: "validator_manifest_t \<Rightarrow> bool" where
  "wf_manifest m \<longleftrightarrow> vm_session_id m \<noteq> [] \<and> length (vm_session_id m) < 64 \<and>
     list_all token_char (vm_session_id m) \<and> lower_hex64 (vm_prose_hash m) \<and>
     length (vm_tool_call_refs m) \<le> VALIDATOR_MAX_TOOL_CALL_REFS \<and> list_all lower_hex64 (vm_tool_call_refs m) \<and>
     length (vm_assertions m) \<le> VALIDATOR_MAX_ASSERTIONS \<and> list_all wf_assertion (vm_assertions m)"

lemma hex_digit_lower:
  assumes "n < 16"
  shows "is_dec (hex_digit n) \<or> hex_digit n \<in> set ''abcdef''"
proof -
  have "n < 10 \<or> n = 10 \<or> n = 11 \<or> n = 12 \<or> n = 13 \<or> n = 14 \<or> n = 15"
    using assms by linarith
  then show ?thesis
    by (auto simp: is_dec_def of_char_hex_digit) (auto simp: hex_digit_def char_of_def bit_0)
qed

lemma bytes_hex_hex64:
  assumes "length d = 32"
  shows "lower_hex64 (bytes_hex d)"
proof -
  have "is_dec c \<or> c \<in> set ''abcdef''" if "c \<in> set (bytes_hex d)" for c
    using that hex_digit_lower [of "k mod 16" for k] unfolding bytes_hex_def hex2_def by fastforce
  then show ?thesis
    using assms by (auto simp: lower_hex64_def is_hex64_def list_all_iff)
qed

lemma refs_loop_wf:
  "refs_loop items n acc = Inr xs \<Longrightarrow> n = length acc \<Longrightarrow> length acc \<le> VALIDATOR_MAX_TOOL_CALL_REFS \<Longrightarrow>
   list_all lower_hex64 acc \<Longrightarrow>
   length xs \<le> VALIDATOR_MAX_TOOL_CALL_REFS \<and> list_all lower_hex64 xs"
  by (induction items n acc rule: refs_loop.induct)
     (auto simp: lower_hex64_def split: if_splits option.splits)

lemma parse_one_assertion_wf: "parse_one_assertion obj = Inr a \<Longrightarrow> wf_assertion a"
  by (auto simp: parse_one_assertion_def wf_assertion_def is_safe_token_def token_loop_iff lower_hex64_def
      VALIDATOR_DEVICE_MAX_def Let_def split: if_splits option.splits json.splits)

lemma asserts_loop_wf:
  "asserts_loop items n acc = Inr xs \<Longrightarrow> n = length acc \<Longrightarrow> length acc \<le> VALIDATOR_MAX_ASSERTIONS \<Longrightarrow>
   list_all wf_assertion acc \<Longrightarrow>
   length xs \<le> VALIDATOR_MAX_ASSERTIONS \<and> list_all wf_assertion xs"
  by (induction items n acc rule: asserts_loop.induct)
     (auto simp: parse_one_assertion_wf split: if_splits sum.splits)

lemma parse_manifest_wf:
  assumes "validator_parse_manifest parse json = Inr m"
  shows "wf_manifest m"
proof -
  have "list_all lower_hex64 xs \<and> length xs \<le> VALIDATOR_MAX_TOOL_CALL_REFS" if "parse_tool_call_refs j = Inr xs" for j xs
    using that refs_loop_wf [of "json_children (Some j)" 0 "[]" xs]
    by (auto simp: parse_tool_call_refs_def split: if_splits)
  moreover have "list_all wf_assertion xs \<and> length xs \<le> VALIDATOR_MAX_ASSERTIONS" if "asserts_loop ys 0 [] = Inr xs" for ys xs
    using that asserts_loop_wf [of ys 0 "[]" xs] by simp
  ultimately show ?thesis
    using assms
    by (auto simp: validator_parse_manifest_def wf_manifest_def is_safe_token_def token_loop_iff
        VALIDATOR_SESSION_ID_MAX_def lower_hex64_def Let_def
        split: if_splits option.splits sum.splits)
qed

section \<open>The canonical text of a decision\<close>

lemma emit_Some: "emit cap (Some s) p = Some t \<longleftrightarrow> t = s @ p \<and> length t < cap"
  by (auto simp: emit_def)

lemma emit_None [simp]: "emit cap None p = None"
  by (simp add: emit_def)

lemma emit_fold_None: "foldl (\<lambda>out i. emit cap out (f i)) None is = None"
  by (induction "is") simp_all

lemma emit_fold:
  "length s < cap \<Longrightarrow>
   foldl (\<lambda>out i. emit cap out (f i)) (Some s) is =
     (if length (s @ concat (map f is)) < cap then Some (s @ concat (map f is)) else None)"
proof (induction "is" arbitrary: s)
  case Nil
  then show ?case by simp
next
  case (Cons i "is")
  show ?case
  proof (cases "length (s @ f i) < cap")
    case True
    then have "emit cap (Some s) (f i) = Some (s @ f i)"
      by (simp add: emit_Some)
    then show ?thesis
      using Cons.IH [OF True] by simp
  next
    case False
    then have "emit cap (Some s) (f i) = None"
      by (simp add: emit_def)
    then show ?thesis
      using False by (simp add: emit_fold_None)
  qed
qed

fun canon_items :: "nat \<Rightarrow> (validator_assertion_t \<times> validator_assertion_result_t) list \<Rightarrow> string" where
  "canon_items i [] = '']}''"
| "canon_items i ((a, ar) # xs) = decision_item i a ar @ canon_items (Suc i) xs"

lemma canon_items_concat:
  "length as = length rs \<Longrightarrow>
   canon_items k (zip as rs) = concat (map (\<lambda>i. decision_item (k + i) (as ! i) (rs ! i)) [0..<length rs]) @ '']}''"
proof (induction as rs arbitrary: k rule: list_induct2)
  case Nil
  then show ?case by simp
next
  case (Cons a as r rs)
  have "[0..<length (r # rs)] = 0 # map Suc [0..<length rs]"
    by (simp add: map_Suc_upt upt_rec [of 0 "Suc (length rs)"] del: upt_Suc)
  then show ?case
    using Cons.IH [of "Suc k"] by (simp add: comp_def)
qed

definition canonical_text :: "validator_manifest_t \<Rightarrow> validator_result_t \<Rightarrow> string" where
  "canonical_text m r = decision_head m r @ canon_items 0 (zip (vm_assertions m) (vr_per_assertion r))"

lemma build_canonical_iff:
  assumes "length (vm_assertions m) = length (vr_per_assertion r)"
  shows "build_canonical_decision m r cap =
    (if length (canonical_text m r) < cap then Some (canonical_text m r) else None)"
proof -
  let ?items = "concat (map (\<lambda>i. decision_item i (vm_assertions m ! i) (vr_per_assertion r ! i))
    [0..<length (vr_per_assertion r)])"
  have t: "canonical_text m r = decision_head m r @ ?items @ '']}''"
    using canon_items_concat [OF assms, of 0] by (simp add: canonical_text_def)
  show ?thesis
  proof (cases "length (decision_head m r) < cap")
    case True
    then have "emit cap (Some []) (decision_head m r) = Some (decision_head m r)"
      by (simp add: emit_Some)
    then show ?thesis
      using emit_fold [OF True, of "\<lambda>i. decision_item i (vm_assertions m ! i) (vr_per_assertion r ! i)"]
      by (auto simp: build_canonical_decision_def Let_def t emit_def)
  next
    case False
    then have "emit cap (Some []) (decision_head m r) = None"
      by (simp add: emit_def)
    then show ?thesis
      using False by (simp add: build_canonical_decision_def Let_def emit_fold_None t)
  qed
qed

lemma token_quote_free: "list_all token_char s \<Longrightarrow> quote_free s"
  by (auto simp: quote_free_def list_all_iff token_char_def is_upper_def is_lower_def is_dec_def)

lemma decision_str_inject:
  "validator_decision_str a = validator_decision_str b \<longleftrightarrow> a = b" "quote_free (validator_decision_str a)"
  by (cases a; cases b; simp add: quote_free_def)+

lemma claim_str_inject:
  "validator_claim_type_str a = validator_claim_type_str b \<longleftrightarrow> a = b" "quote_free (validator_claim_type_str a)"
  by (cases a; cases b; simp add: quote_free_def)+

lemma violation_code_inject: "violation_code a = violation_code b \<longleftrightarrow> a = b"
  by (cases a; cases b; simp)

lemma decision_item_inject:
  assumes "quote_free (va_device a)" and "quote_free (va_device b)"
    and "decision_item i a ar @ r = decision_item i b br @ s"
  shows "va_device a = va_device b \<and> va_claim_type a = va_claim_type b \<and> ar = br \<and> r = s"
proof -
  have d: "\<not> is_digit 10 (CHR ''}'')"
    by (simp add: is_digit_def hexval_def)
  have "va_device a = va_device b \<and> va_claim_type a = va_claim_type b \<and>
      ar_decision ar = ar_decision br \<and> ar_violation ar = ar_violation br \<and> r = s"
    using assms(3) unfolding decision_item_def Q_def append_assoc append_Cons append_Nil same_append_eq list.inject
    by (simp add: quoted_inject [OF assms(1,2)] quoted_inject [OF claim_str_inject(2) claim_str_inject(2)]
        quoted_inject [OF decision_str_inject(2) decision_str_inject(2)] dec_end_inject [OF d d]
        claim_str_inject(1) decision_str_inject(1) violation_code_inject)
  then show ?thesis by simp
qed

lemma decision_item_start: "decision_item i a ar @ r \<noteq> '']}''"
  by (simp add: decision_item_def)

lemma canon_items_inject:
  assumes "canon_items i xs = canon_items i ys"
    and "\<forall>x \<in> set xs. quote_free (va_device (fst x))" and "\<forall>x \<in> set ys. quote_free (va_device (fst x))"
  shows "map (\<lambda>(a, ar). (va_device a, va_claim_type a, ar)) xs =
    map (\<lambda>(a, ar). (va_device a, va_claim_type a, ar)) ys"
  using assms
proof (induction xs arbitrary: i ys)
  case Nil
  then show ?case
    using decision_item_start by (cases ys) (auto simp: eq_commute [of "'']}''"])
next
  case (Cons x xs)
  obtain a ar where x: "x = (a, ar)"
    by (cases x)
  show ?case
  proof (cases ys)
    case Nil
    then show ?thesis
      using Cons.prems(1) decision_item_start by (simp add: x)
  next
    case (Cons y ys')
    obtain b br where y: "y = (b, br)"
      by (cases y)
    have e: "va_device a = va_device b \<and> va_claim_type a = va_claim_type b \<and> ar = br \<and>
        canon_items (Suc i) xs = canon_items (Suc i) ys'"
      using Cons.prems by (intro decision_item_inject [of a b i]) (simp_all add: x y Cons)
    then show ?thesis
      using Cons.IH [of "Suc i" ys'] Cons.prems(2,3) by (simp add: x y Cons)
  qed
qed

lemma lower_hex64_quote_free: "lower_hex64 s \<Longrightarrow> quote_free s"
  by (auto simp: lower_hex64_def is_hex64_def quote_free_def list_all_iff is_dec_def)

text \<open>The canonical text determines everything the decision says.\<close>

lemma canonical_text_inject:
  assumes "canonical_text m r = canonical_text m' r'"
    and "quote_free (vm_session_id m)" "quote_free (vm_session_id m')"
    and "quote_free (vm_prose_hash m)" "quote_free (vm_prose_hash m')"
    and "\<forall>a \<in> set (vm_assertions m). quote_free (va_device a)"
    and "\<forall>a \<in> set (vm_assertions m'). quote_free (va_device a)"
  shows "vm_session_id m = vm_session_id m' \<and> vm_prose_hash m = vm_prose_hash m' \<and>
    vr_decision r = vr_decision r' \<and> vr_turn_violation r = vr_turn_violation r' \<and>
    map (\<lambda>(a, ar). (va_device a, va_claim_type a, ar)) (zip (vm_assertions m) (vr_per_assertion r)) =
    map (\<lambda>(a, ar). (va_device a, va_claim_type a, ar)) (zip (vm_assertions m') (vr_per_assertion r'))"
proof -
  have d: "\<not> is_digit 10 (CHR '','')"
    by (simp add: is_digit_def hexval_def)
  have h: "vm_session_id m = vm_session_id m' \<and> vm_prose_hash m = vm_prose_hash m' \<and>
      vr_decision r = vr_decision r' \<and> vr_turn_violation r = vr_turn_violation r' \<and>
      canon_items 0 (zip (vm_assertions m) (vr_per_assertion r)) =
      canon_items 0 (zip (vm_assertions m') (vr_per_assertion r'))"
    using assms(1) unfolding canonical_text_def decision_head_def Q_def append_assoc append_Cons append_Nil
    by (simp add: quoted_inject [OF assms(2,3)] quoted_inject [OF assms(4,5)]
        quoted_inject [OF decision_str_inject(2) decision_str_inject(2)] dec_end_inject [OF d d]
        decision_str_inject(1) violation_code_inject)
  have q: "\<forall>x \<in> set (zip as rs). quote_free (va_device (fst x))"
    if "\<forall>a \<in> set as. quote_free (va_device a)" for as :: "validator_assertion_t list" and rs :: "validator_assertion_result_t list"
    using that by (auto dest: set_zip_leftD)
  show ?thesis
    using h canon_items_inject [OF _ q [OF assms(6)] q [OF assms(7)]] by blast
qed

text \<open>Every assertion takes at least 66 characters of the text.\<close>

lemma decision_item_length: "66 \<le> length (decision_item i a ar)" if "va_device a \<noteq> []"
proof -
  have "1 \<le> length (va_device a)" "7 \<le> length (validator_claim_type_str (va_claim_type a))"
    "4 \<le> length (validator_decision_str (ar_decision ar))" "1 \<le> length (dec (violation_code (ar_violation ar)))"
    using that dec_digits(2) [of "violation_code (ar_violation ar)"]
    by (cases "va_device a"; cases "va_claim_type a"; cases "ar_decision ar"; simp add: Suc_leI)+
  then show ?thesis
    by (simp add: decision_item_def Q_def)
qed

lemma canon_items_length:
  "\<forall>x \<in> set xs. va_device (fst x) \<noteq> [] \<Longrightarrow> 66 * length xs + 2 \<le> length (canon_items i xs)"
proof (induction i xs rule: canon_items.induct)
  case (2 i a ar xs)
  then show ?case
    using decision_item_length [of a i ar] by simp
qed simp

section \<open>What a commit records\<close>

lemma decision_head_length:
  assumes "vm_session_id m \<noteq> []" and "length (vm_prose_hash m) = 64"
  shows "149 \<le> length (decision_head m r)"
proof -
  have "1 \<le> length (vm_session_id m)" "4 \<le> length (validator_decision_str (vr_decision r))"
    "1 \<le> length (dec (violation_code (vr_turn_violation r)))"
    using assms(1) dec_digits(2) [of "violation_code (vr_turn_violation r)"]
    by (cases "vm_session_id m"; cases "vr_decision r"; simp add: Suc_leI)+
  then show ?thesis
    using assms(2) by (simp add: decision_head_def Q_def)
qed

lemma evaluate_length: "length (vr_per_assertion (validator_evaluate C q m prose)) = length (vm_assertions m)"
  by (simp add: validator_evaluate_def Let_def)

lemma canonical_text_update [simp]:
  "canonical_text m (r\<lparr>vr_artifact_hash := x\<rparr>) = canonical_text m r"
  "canonical_text m (r\<lparr>vr_chain_entry_hash := x\<rparr>) = canonical_text m r"
  "canonical_text m (r\<lparr>vr_chain_sequence := i\<rparr>) = canonical_text m r"
  by (simp_all add: canonical_text_def decision_head_def)

lemma commit_outcome:
  assumes "validator_commit_decision C chain_append m r = (err, r')"
    and "length (vm_assertions m) = length (vr_per_assertion r)"
    and "\<And>s t i x. chain_append s t i x \<noteq> Inl VIRP_OK"
  defines "h \<equiv> sha256_hex C (string_bytes (canonical_text m r))"
  shows "vr_decision r' = vr_decision r" "vr_turn_violation r' = vr_turn_violation r"
    "vr_per_assertion r' = vr_per_assertion r" "canonical_text m' r' = canonical_text m' r"
    "err = VIRP_OK \<Longrightarrow> length (canonical_text m r) < 8192 \<and> vr_artifact_hash r' = h \<and>
       chain_append (vm_session_id m) ''validation'' (''val-'' @ take 16 h) h =
         Inr (vr_chain_entry_hash r', vr_chain_sequence r')"
  using assms(1,3) unfolding validator_commit_decision_def build_canonical_iff [OF assms(2)] h_def
  by (auto simp: Let_def split: if_splits sum.splits prod.splits)

lemma commit_too_large:
  assumes "length (vm_assertions m) = length (vr_per_assertion r)" and "8192 \<le> length (canonical_text m r)"
  shows "validator_commit_decision C chain_append m r = (VIRP_ERR_BUFFER_TOO_SMALL, r)"
  using assms(2) unfolding validator_commit_decision_def build_canonical_iff [OF assms(1)] by simp

lemma canonical_text_length:
  assumes "wf_manifest m" and "length (vm_assertions m) = length (vr_per_assertion r)"
  shows "151 + 66 * length (vm_assertions m) \<le> length (canonical_text m r)"
proof -
  have "\<forall>x \<in> set (zip (vm_assertions m) (vr_per_assertion r)). va_device (fst x) \<noteq> []"
    using assms(1) by (auto simp: wf_manifest_def wf_assertion_def list_all_iff dest: set_zip_leftD)
  from canon_items_length [OF this, of 0] show ?thesis
    using decision_head_length [of m r] assms
    by (auto simp: canonical_text_def wf_manifest_def lower_hex64_def is_hex64_def)
qed

end
