(* ===== verification/Virp_Body_Filter.thy ===== *)
theory Virp_Body_Filter
  imports Virp_Crypto Virp_Json
begin

text \<open>
  Collector-side filtering of response bodies (\<open>src/virp_body_filter.c\<close>): a rule set keyed by
  driver and endpoint lists the JSON members that may pass, everything else is removed before
  the body is hashed or chained, and a body that cannot be understood is withheld. Reading
  files, the environment, and cJSON's parser and printer are arguments. The output buffer is
  modelled to its full size, because what is left behind the new length matters. Allocation is
  taken to succeed, and so is \<open>EVP_Digest\<close>, whose result the code does not look at.
\<close>

section \<open>Rules\<close>

definition VIRP_OUTPUT_MAX :: nat where "VIRP_OUTPUT_MAX = 65536"
definition VBF_CONFIG_MAX :: nat where "VBF_CONFIG_MAX = 1024 * 1024"
definition VBF_DEFAULT_CONFIG_PATH :: string where "VBF_DEFAULT_CONFIG_PATH = ''/etc/virp/body-filters.json''"
definition VBF_ANNOTATION_KEY :: string where "VBF_ANNOTATION_KEY = ''_virp_filtered''"

definition NUL :: char where [simp]: "NUL = CHR 0x00"

definition parse_rules :: "(string \<Rightarrow> json option) \<Rightarrow> string \<Rightarrow> json option" where
  "parse_rules cJSON_Parse text =
     (let r = cJSON_Parse (takeWhile (\<lambda>c. c \<noteq> NUL) text)
      in if cJSON_IsObject r \<and> cJSON_IsArray (cJSON_GetObjectItemCaseSensitive r ''rules'') then r else None)"

text \<open>\<open>files path\<close> is the content of a file that can be opened. One \<open>fread\<close> of at most
  VBF_CONFIG_MAX - 1 octets that does not meet the end of the file counts as truncated.\<close>

definition load_rules_file :: "(string \<Rightarrow> json option) \<Rightarrow> (string \<Rightarrow> string option) \<Rightarrow> string \<Rightarrow> json option" where
  "load_rules_file cJSON_Parse files path =
     (case files path of
        None \<Rightarrow> None
      | Some text \<Rightarrow> if length text \<ge> VBF_CONFIG_MAX - 1 then None else parse_rules cJSON_Parse text)"

text \<open>The built-in rules as the tree their text denotes, and the text as an argument of the parser:
  \<open>builtin\<close> is the octets of \<open>VBF_BUILTIN_RULES\<close>.\<close>

definition builtin_rules :: json where
  "builtin_rules = JObject [(''version'', JNumber 1), (''rules'', JArray [JObject [
     (''name'', JString ''librenms-devices-v1''),
     (''driver'', JString ''librenms''),
     (''path'', JString ''/api/v0/devices''),
     (''envelope_allow'', JArray [JString ''status'', JString ''count'', JString ''message'']),
     (''array_key'', JString ''devices''),
     (''item_allow'', JArray [JString ''device_id'', JString ''hostname'', JString ''sysName'', JString ''ip'',
        JString ''os'', JString ''type'', JString ''hardware'', JString ''version'', JString ''serial'',
        JString ''status'', JString ''status_reason'', JString ''ignore'', JString ''disabled'', JString ''uptime'',
        JString ''last_polled'', JString ''last_discovered'', JString ''last_ping'',
        JString ''last_ping_timetaken'', JString ''location_id'', JString ''dependency_parent_id''])]])]"

definition vbf_load_locked ::
    "(string \<Rightarrow> json option) \<Rightarrow> string \<Rightarrow> (string \<Rightarrow> string option) \<Rightarrow> string option \<Rightarrow> string ptr \<Rightarrow> json option" where
  "vbf_load_locked cJSON_Parse builtin files env config_path =
     (let path = (case config_path of None \<Rightarrow> env | Some p \<Rightarrow> Some p);
          r = (case path of
                 Some (c # cs) \<Rightarrow> load_rules_file cJSON_Parse files (c # cs)
               | _ \<Rightarrow> load_rules_file cJSON_Parse files VBF_DEFAULT_CONFIG_PATH)
      in case r of Some x \<Rightarrow> Some x | None \<Rightarrow> parse_rules cJSON_Parse builtin)"

definition virp_body_filter_init ::
    "(string \<Rightarrow> json option) \<Rightarrow> string \<Rightarrow> (string \<Rightarrow> string option) \<Rightarrow> string option \<Rightarrow> string ptr \<Rightarrow>
     virp_error_t \<times> json option" where
  "virp_body_filter_init cJSON_Parse builtin files env config_path =
     (let r = vbf_load_locked cJSON_Parse builtin files env config_path
      in (if r \<noteq> None then VIRP_OK else VIRP_ERR_NULL_PTR, r))"

text \<open>\<open>loaded\<close> is the static rule set before the call.\<close>

definition vbf_rules ::
    "(string \<Rightarrow> json option) \<Rightarrow> string \<Rightarrow> (string \<Rightarrow> string option) \<Rightarrow> string option \<Rightarrow> json option \<Rightarrow> json option" where
  "vbf_rules cJSON_Parse builtin files env loaded =
     (if loaded = None then vbf_load_locked cJSON_Parse builtin files env None else loaded)"

definition virp_body_filter_reset_for_tests :: "json option" where
  "virp_body_filter_reset_for_tests = None"

section \<open>Matching\<close>

definition command_path :: "string ptr \<Rightarrow> string option" where
  "command_path command =
     (case command of
        None \<Rightarrow> None
      | Some cmd \<Rightarrow>
          let c1 = dropWhile (\<lambda>c. c = CHR '' '') cmd;
              c2 = (if take 1 c1 \<noteq> ''/''
                    then (if CHR '' '' \<in> set c1
                          then Some (dropWhile (\<lambda>c. c = CHR '' '') (dropWhile (\<lambda>c. c \<noteq> CHR '' '') c1))
                          else None)
                    else Some c1)
          in (case c2 of
                None \<Rightarrow> None
              | Some p \<Rightarrow>
                  if take 1 p \<noteq> ''/'' then None
                  else Some (takeWhile (\<lambda>c. c \<notin> {CHR ''?'', CHR '' '', TAB, CR, LF}) p)))"

definition rule_matches :: "string \<Rightarrow> string \<Rightarrow> json \<Rightarrow> bool" where
  "rule_matches driver path rule \<longleftrightarrow>
     (case (json_string (cJSON_GetObjectItemCaseSensitive (Some rule) ''driver''),
            json_string (cJSON_GetObjectItemCaseSensitive (Some rule) ''path'')) of
        (Some rd, Some rp) \<Rightarrow> rd = driver \<and> rp = path
      | _ \<Rightarrow> False)"

definition match_rule :: "json option \<Rightarrow> string ptr \<Rightarrow> string ptr \<Rightarrow> json option" where
  "match_rule rules_root driver_name command =
     (case (rules_root, driver_name, command_path command) of
        (Some r, Some d, Some path) \<Rightarrow>
          find (rule_matches d path) (json_children (cJSON_GetObjectItemCaseSensitive (Some r) ''rules''))
      | _ \<Rightarrow> None)"

section \<open>Filtering a tree\<close>

definition allow_has :: "json option \<Rightarrow> string \<Rightarrow> bool" where
  "allow_has allow key \<longleftrightarrow> list_ex (\<lambda>a. json_string (Some a) = Some key) (json_children allow)"

definition removed_add :: "json list \<Rightarrow> string \<Rightarrow> json list" where
  "removed_add removed key =
     (if \<not> allow_has (Some (JArray removed)) key then removed @ [JString key] else removed)"

text \<open>\<open>cJSON_DeleteItemFromObjectCaseSensitive\<close> removes the first member with the key.\<close>

fun delete_member :: "string \<Rightarrow> (string \<times> json) list \<Rightarrow> (string \<times> json) list" where
  "delete_member key [] = []"
| "delete_member key (m # ms) = (if fst m = key then ms else m # delete_member key ms)"

text \<open>The loop visits the members \<open>ms\<close> the object had; \<open>obj\<close> is what it still has.\<close>

fun filter_loop :: "json option \<Rightarrow> string option \<Rightarrow> (string \<times> json) list \<Rightarrow> (string \<times> json) list \<Rightarrow> json list \<Rightarrow>
    (string \<times> json) list \<times> json list" where
  "filter_loop allow extra [] obj removed = (obj, removed)"
| "filter_loop allow extra ((key, v) # ms) obj removed =
     (if \<not> allow_has allow key \<and> extra \<noteq> Some key
      then filter_loop allow extra ms (delete_member key obj) (removed_add removed key)
      else filter_loop allow extra ms obj removed)"

definition filter_object :: "json option \<Rightarrow> string option \<Rightarrow> (string \<times> json) list \<Rightarrow> json list \<Rightarrow>
    (string \<times> json) list \<times> json list" where
  "filter_object allow extra ms removed = filter_loop allow extra ms ms removed"

fun filter_items :: "json option \<Rightarrow> json list \<Rightarrow> json list \<Rightarrow> json list \<times> json list" where
  "filter_items item_allow [] removed = ([], removed)"
| "filter_items item_allow (item # items) removed =
     (case item of
        JObject ms \<Rightarrow>
          let (ms1, rem1) = filter_object item_allow None ms removed;
              (items1, rem2) = filter_items item_allow items rem1
          in (JObject ms1 # items1, rem2)
      | _ \<Rightarrow> let (items1, rem1) = filter_items item_allow items removed in (item # items1, rem1))"

text \<open>Changing the value of the first member with a key, in place.\<close>

fun update_member :: "string \<Rightarrow> json \<Rightarrow> (string \<times> json) list \<Rightarrow> (string \<times> json) list" where
  "update_member key v [] = []"
| "update_member key v (m # ms) = (if fst m = key then (key, v) # ms else m # update_member key v ms)"

definition filter_root :: "json \<Rightarrow> (string \<times> json) list \<Rightarrow> (string \<times> json) list \<times> json list" where
  "filter_root rule ms =
     (let env_allow = cJSON_GetObjectItemCaseSensitive (Some rule) ''envelope_allow'';
          item_allow = cJSON_GetObjectItemCaseSensitive (Some rule) ''item_allow'';
          array_key = json_string (cJSON_GetObjectItemCaseSensitive (Some rule) ''array_key'');
          (ms1, rem1) = filter_object env_allow array_key ms []
      in case array_key of
           None \<Rightarrow> (ms1, rem1)
         | Some k \<Rightarrow>
             (case map_of ms1 k of
                Some (JArray items) \<Rightarrow>
                  let (items1, rem2) = filter_items item_allow items rem1
                  in (update_member k (JArray items1) ms1, rem2)
              | _ \<Rightarrow> (ms1, rem1)))"

section \<open>The output buffer\<close>

record virp_exec_result_t =
  er_output :: string
  er_output_len :: nat

datatype virp_bf_outcome_t = VIRP_BF_UNTOUCHED | VIRP_BF_FILTERED | VIRP_BF_WITHHELD

definition replace_payload :: "virp_exec_result_t \<Rightarrow> nat \<Rightarrow> string \<Rightarrow> virp_exec_result_t" where
  "replace_payload result prefix_len payload =
     (let new_len = prefix_len + length payload;
          out1 = poke prefix_len (payload @ [NUL]) (er_output result);
          out2 = (if er_output_len result > new_len
                  then poke new_len (replicate (er_output_len result - new_len) NUL) out1 else out1)
      in result\<lparr>er_output := out2, er_output_len := new_len\<rparr>)"

definition body_of :: "virp_exec_result_t \<Rightarrow> nat \<Rightarrow> string" where
  "body_of result prefix_len = bslice prefix_len (er_output_len result - prefix_len) (er_output result)"

definition QT :: string where "QT = [CHR 0x22]"

definition withhold_stub :: "crypto_lib \<Rightarrow> string \<Rightarrow> string \<Rightarrow> string \<Rightarrow> string" where
  "withhold_stub C body rule_name reason =
     take 511
       (''{'' @ QT @ VBF_ANNOTATION_KEY @ QT @ '':{'' @ QT @ ''profile'' @ QT @ '':'' @ QT @ rule_name @ QT @ '','' @
        QT @ ''mode'' @ QT @ '':'' @ QT @ ''withheld'' @ QT @ '','' @ QT @ ''reason'' @ QT @ '':'' @ QT @ reason @ QT @ '','' @
        QT @ ''original_len'' @ QT @ '':'' @ dec (length body) @ '','' @
        QT @ ''original_sha256'' @ QT @ '':'' @ QT @ bytes_hex (SHA256 C (string_bytes body)) @ QT @ ''}}'')"

definition withhold :: "crypto_lib \<Rightarrow> virp_exec_result_t \<Rightarrow> nat \<Rightarrow> string \<Rightarrow> string \<Rightarrow> virp_exec_result_t" where
  "withhold C result prefix_len rule_name reason =
     (let stub = withhold_stub C (body_of result prefix_len) rule_name reason
      in replace_payload result (if prefix_len + length stub \<ge> VIRP_OUTPUT_MAX then 0 else prefix_len) stub)"

definition annotated :: "string \<Rightarrow> (string \<times> json) list \<Rightarrow> json list \<Rightarrow> json" where
  "annotated rule_name ms removed =
     JObject (ms @ [(VBF_ANNOTATION_KEY, JObject [(''profile'', JString rule_name),
        (''mode'', JString ''allowlist''), (''removed'', JArray removed)])])"

definition prefix_length :: "virp_exec_result_t \<Rightarrow> nat" where
  "prefix_length result =
     (let out = take (er_output_len result) (er_output result)
      in if LF \<in> set out then length (takeWhile (\<lambda>c. c \<noteq> LF) out) + 1 else 0)"

definition rule_label :: "json \<Rightarrow> string" where
  "rule_label rule =
     (case json_string (cJSON_GetObjectItemCaseSensitive (Some rule) ''name'') of
        None \<Rightarrow> ''unnamed'' | Some n \<Rightarrow> n)"

text \<open>\<open>rules\<close> is the active rule set, that is the value of \<open>vbf_rules\<close>.\<close>

definition virp_body_filter_apply ::
    "crypto_lib \<Rightarrow> (string \<Rightarrow> json option) \<Rightarrow> (json \<Rightarrow> string option) \<Rightarrow> json option \<Rightarrow> string ptr \<Rightarrow> string ptr \<Rightarrow>
     virp_exec_result_t \<Rightarrow> virp_bf_outcome_t \<times> virp_exec_result_t" where
  "virp_body_filter_apply C cJSON_ParseWithLength cJSON_PrintUnformatted rules driver_name command result =
     (if er_output_len result = 0 then (VIRP_BF_UNTOUCHED, result)
      else (case match_rule rules driver_name command of
        None \<Rightarrow> (VIRP_BF_UNTOUCHED, result)
      | Some rule \<Rightarrow>
          let prefix_len = prefix_length result
          in if er_output_len result = prefix_len then (VIRP_BF_UNTOUCHED, result)
             else (case cJSON_ParseWithLength (body_of result prefix_len) of
               Some (JObject ms) \<Rightarrow>
                 let (ms1, removed) = filter_root rule ms
                 in if removed = [] then (VIRP_BF_UNTOUCHED, result)
                    else (case cJSON_PrintUnformatted (annotated (rule_label rule) ms1 removed) of
                      None \<Rightarrow> (VIRP_BF_WITHHELD, withhold C result prefix_len (rule_label rule)
                                ''filtered payload could not be stored; withheld'')
                    | Some out \<Rightarrow>
                        if prefix_len + length out \<ge> VIRP_OUTPUT_MAX
                        then (VIRP_BF_WITHHELD, withhold C result prefix_len (rule_label rule)
                               ''filtered payload could not be stored; withheld'')
                        else (VIRP_BF_FILTERED, replace_payload result prefix_len out))
             | _ \<Rightarrow> (VIRP_BF_WITHHELD, withhold C result prefix_len (rule_label rule)
                       ''payload did not parse as a JSON object; withheld unfiltered''))))"

section \<open>The loop is a filter\<close>

definition keeps :: "json option \<Rightarrow> string option \<Rightarrow> string \<times> json \<Rightarrow> bool" where
  "keeps allow extra m \<longleftrightarrow> allow_has allow (fst m) \<or> extra = Some (fst m)"

definition removed_names :: "json list \<Rightarrow> string list \<Rightarrow> json list" where
  "removed_names removed ks = foldl removed_add removed ks"

lemma delete_member_skip:
  "\<forall>m \<in> set pre. fst m \<noteq> key \<Longrightarrow> delete_member key (pre @ (key, v) # ms) = pre @ ms"
  by (induction pre) auto

lemma filter_loop_spec:
  assumes "\<forall>m \<in> set pre. keeps allow extra m"
  shows "filter_loop allow extra ms (pre @ ms) removed =
    (pre @ filter (keeps allow extra) ms, removed_names removed (map fst (filter (Not \<circ> keeps allow extra) ms)))"
  using assms
proof (induction ms arbitrary: pre removed)
  case Nil
  then show ?case by (simp add: removed_names_def)
next
  case (Cons m ms)
  obtain key v where m: "m = (key, v)"
    by (cases m)
  show ?case
  proof (cases "keeps allow extra m")
    case True
    then show ?thesis
      using Cons.IH [of "pre @ [m]" removed] Cons.prems by (auto simp: m keeps_def)
  next
    case False
    then have "\<forall>x \<in> set pre. fst x \<noteq> key"
      using Cons.prems by (auto simp: m keeps_def)
    then have "delete_member key (pre @ m # ms) = pre @ ms"
      unfolding m by (rule delete_member_skip)
    then show ?thesis
      using False Cons.IH [of pre "removed_add removed key"] Cons.prems
      by (simp add: m keeps_def removed_names_def)
  qed
qed

lemma filter_object_spec:
  "filter_object allow extra ms removed =
    (filter (keeps allow extra) ms, removed_names removed (map fst (filter (Not \<circ> keeps allow extra) ms)))"
  using filter_loop_spec [of "[]"] by (simp add: filter_object_def)

lemma removed_add_set: "set (removed_add removed k) = insert (JString k) (set removed)"
  by (auto simp: removed_add_def allow_has_def list_ex_iff elim!: json_string.elims)

lemma removed_names_set: "set (removed_names removed ks) = set removed \<union> JString ` set ks"
  unfolding removed_names_def by (induction ks arbitrary: removed) (auto simp: removed_add_set)

text \<open>What an item of the array becomes, and the keys it loses.\<close>

fun filter_item :: "json option \<Rightarrow> json \<Rightarrow> json" where
  "filter_item allow (JObject ms) = JObject (filter (keeps allow None) ms)"
| "filter_item allow j = j"

fun lost_keys :: "json option \<Rightarrow> json \<Rightarrow> string list" where
  "lost_keys allow (JObject ms) = map fst (filter (Not \<circ> keeps allow None) ms)"
| "lost_keys allow j = []"

lemma filter_items_spec:
  "filter_items allow items removed =
     (map (filter_item allow) items, removed_names removed (concat (map (lost_keys allow) items)))"
proof (induction items arbitrary: removed)
  case Nil
  then show ?case by (simp add: removed_names_def)
next
  case (Cons j items)
  then show ?case
    by (cases j) (auto simp: filter_object_spec removed_names_def)
qed

text \<open>Every member of an object is on the list.\<close>

fun only_allowed :: "json option \<Rightarrow> json \<Rightarrow> bool" where
  "only_allowed allow (JObject ms) = list_all (\<lambda>m. allow_has allow (fst m)) ms"
| "only_allowed allow j = True"

lemma filter_item_allowed: "only_allowed allow (filter_item allow j)"
  by (cases j) (auto simp: keeps_def list_all_iff)

lemma lost_none: "lost_keys allow j = [] \<longleftrightarrow> only_allowed allow j"
  by (cases j) (auto simp: keeps_def list_all_iff filter_empty_conv)

lemma filter_item_same: "only_allowed allow j \<Longrightarrow> filter_item allow j = j"
  by (cases j) (auto simp: keeps_def list_all_iff filter_id_conv)

lemma update_member_map_of:
  "map_of ms k \<noteq> None \<Longrightarrow> map_of (update_member k v ms) k = Some v"
  by (induction ms) auto

lemma update_member_keys: "map fst (update_member k v ms) = map fst ms"
  by (induction ms) auto

lemma update_member_set: "set (update_member k v ms) \<subseteq> insert (k, v) (set ms)"
  by (induction ms) auto

lemma update_member_same: "map_of ms k = Some v \<Longrightarrow> update_member k v ms = ms"
  by (induction ms) auto

lemma map_of_filter_key:
  "(\<And>v. P (k, v)) \<Longrightarrow> map_of (filter P ms) k = map_of ms k"
  by (induction ms) auto

section \<open>What may leave\<close>

abbreviation env_allow :: "json \<Rightarrow> json option" where
  "env_allow rule \<equiv> cJSON_GetObjectItemCaseSensitive (Some rule) ''envelope_allow''"

abbreviation item_allow :: "json \<Rightarrow> json option" where
  "item_allow rule \<equiv> cJSON_GetObjectItemCaseSensitive (Some rule) ''item_allow''"

abbreviation array_key :: "json \<Rightarrow> string option" where
  "array_key rule \<equiv> json_string (cJSON_GetObjectItemCaseSensitive (Some rule) ''array_key'')"

text \<open>The members of the envelope are named by the rule, and so are the members of the objects in
  the array the lookup of the array key finds.\<close>

definition within_rule :: "json \<Rightarrow> (string \<times> json) list \<Rightarrow> bool" where
  "within_rule rule ms \<longleftrightarrow>
     (\<forall>m \<in> set ms. allow_has (env_allow rule) (fst m) \<or> array_key rule = Some (fst m)) \<and>
     (\<forall>k items. array_key rule = Some k \<longrightarrow> map_of ms k = Some (JArray items) \<longrightarrow>
        list_all (only_allowed (item_allow rule)) items)"

lemma filter_root_spec:
  fixes rule ms
  defines "ms0 \<equiv> filter (keeps (env_allow rule) (array_key rule)) ms"
  defines "rem0 \<equiv> removed_names [] (map fst (filter (Not \<circ> keeps (env_allow rule) (array_key rule)) ms))"
  shows "filter_root rule ms =
    (case array_key rule of
       None \<Rightarrow> (ms0, rem0)
     | Some k \<Rightarrow>
         (case map_of ms k of
            Some (JArray items) \<Rightarrow>
              (update_member k (JArray (map (filter_item (item_allow rule)) items)) ms0,
               removed_names rem0 (concat (map (lost_keys (item_allow rule)) items)))
          | _ \<Rightarrow> (ms0, rem0)))"
proof -
  have "map_of ms0 k = map_of ms k" if "array_key rule = Some k" for k
    unfolding ms0_def using that by (intro map_of_filter_key) (simp add: keeps_def)
  then show ?thesis
    unfolding filter_root_def Let_def filter_object_spec filter_items_spec prod.case
      ms0_def [symmetric] rem0_def [symmetric]
    by (simp split: option.splits json.splits)
qed

lemma filter_root_within:
  assumes "filter_root rule ms = (ms', removed)"
  shows "within_rule rule ms'"
proof -
  let ?ms0 = "filter (keeps (env_allow rule) (array_key rule)) ms"
  have keys: "map fst ms' = map fst ?ms0"
    using assms unfolding filter_root_spec
    by (auto simp: update_member_keys split: option.splits json.splits)
  have "allow_has (env_allow rule) (fst m) \<or> array_key rule = Some (fst m)" if "m \<in> set ms'" for m
  proof -
    have "fst m \<in> set (map fst ?ms0)"
      using that unfolding keys [symmetric] by simp
    then show ?thesis
      by (auto simp: keeps_def)
  qed
  moreover have "list_all (only_allowed (item_allow rule)) items"
    if "array_key rule = Some k" "map_of ms' k = Some (JArray items)" for k items
  proof -
    have m0: "map_of ?ms0 k = map_of ms k"
      using that(1) by (intro map_of_filter_key) (simp add: keeps_def)
    show ?thesis
    proof (cases "\<exists>xs. map_of ms k = Some (JArray xs)")
      case True
      then obtain xs where xs: "map_of ms k = Some (JArray xs)"
        by blast
      then have "ms' = update_member k (JArray (map (filter_item (item_allow rule)) xs)) ?ms0"
        using assms that(1) unfolding filter_root_spec by simp
      then have "items = map (filter_item (item_allow rule)) xs"
        using that(2) update_member_map_of [of ?ms0 k] m0 xs by simp
      then show ?thesis
        by (simp add: list_all_iff filter_item_allowed)
    next
      case False
      then have "ms' = ?ms0"
        using assms that(1) unfolding filter_root_spec by (auto split: option.splits json.splits)
      then show ?thesis
        using that(2) m0 False by simp
    qed
  qed
  ultimately show ?thesis
    unfolding within_rule_def by blast
qed

lemma removed_names_Nil: "removed_names removed ks = [] \<longleftrightarrow> removed = [] \<and> ks = []"
  using removed_names_set [of removed ks] by auto

text \<open>Nothing is reported as removed exactly when nothing had to be.\<close>

lemma filter_root_untouched:
  assumes "filter_root rule ms = (ms', removed)"
  shows "removed = [] \<longleftrightarrow> within_rule rule ms" "removed = [] \<Longrightarrow> ms' = ms"
proof -
  have e: "filter (Not \<circ> keeps (env_allow rule) (array_key rule)) ms = [] \<longleftrightarrow>
      (\<forall>m \<in> set ms. allow_has (env_allow rule) (fst m) \<or> array_key rule = Some (fst m))"
    by (auto simp: filter_empty_conv keeps_def)
  have same: "filter (keeps (env_allow rule) (array_key rule)) ms = ms"
    if "filter (Not \<circ> keeps (env_allow rule) (array_key rule)) ms = []"
    using that by (auto simp: filter_empty_conv filter_id_conv)
  show "removed = [] \<longleftrightarrow> within_rule rule ms"
    using assms e unfolding filter_root_spec within_rule_def
    by (auto simp: removed_names_Nil lost_none list_all_iff split: option.splits json.splits)
  show "ms' = ms" if "removed = []"
    using assms that same unfolding filter_root_spec
    by (auto simp: removed_names_Nil lost_none map_idI filter_item_same update_member_same
        split: option.splits json.splits)
qed

section \<open>What stays in the buffer\<close>

lemma replace_payload_shape:
  assumes "pl + length p < length (er_output r)" and "er_output_len r \<le> length (er_output r)"
  shows "length (er_output (replace_payload r pl p)) = length (er_output r)"
    "take (er_output_len (replace_payload r pl p)) (er_output (replace_payload r pl p)) =
       take pl (er_output r) @ p"
    "er_output_len (replace_payload r pl p) = pl + length p"
    "\<And>i. pl + length p \<le> i \<Longrightarrow> i < er_output_len r \<Longrightarrow> er_output (replace_payload r pl p) ! i = NUL"
proof -
  let ?n = "pl + length p" and ?o1 = "poke pl (p @ [NUL]) (er_output r)"
  have l1: "length ?o1 = length (er_output r)"
    using assms(1) by simp
  have t1: "take ?n ?o1 = take pl (er_output r) @ p"
    using assms(1) by (simp add: poke_def)
  have d: "replace_payload r pl p = r\<lparr>er_output := (if er_output_len r > ?n
      then poke ?n (replicate (er_output_len r - ?n) NUL) ?o1 else ?o1), er_output_len := ?n\<rparr>"
    by (simp add: replace_payload_def Let_def)
  show "length (er_output (replace_payload r pl p)) = length (er_output r)"
    "er_output_len (replace_payload r pl p) = ?n"
    using l1 assms(2) by (auto simp: d)
  show "take (er_output_len (replace_payload r pl p)) (er_output (replace_payload r pl p)) = take pl (er_output r) @ p"
    using t1 l1 assms(1) by (simp add: d poke_def [of ?n])
  show "er_output (replace_payload r pl p) ! i = NUL" if "?n \<le> i" "i < er_output_len r" for i
    using that l1 assms(1) by (auto simp: d poke_def [of ?n] nth_append)
qed

lemma withhold_stub_length: "length (withhold_stub C body name reason) \<le> 511"
  by (simp add: withhold_stub_def)

text \<open>\<open>exposes r r' vis\<close>: after the change from \<open>r\<close> to \<open>r'\<close> the buffer shows \<open>vis\<close>, and what the old
  output had beyond it is overwritten.\<close>

definition exposes :: "virp_exec_result_t \<Rightarrow> virp_exec_result_t \<Rightarrow> string \<Rightarrow> bool" where
  "exposes r r' vis \<longleftrightarrow> er_output_len r' = length vis \<and> take (length vis) (er_output r') = vis \<and>
     (\<forall>i. length vis \<le> i \<longrightarrow> i < er_output_len r \<longrightarrow> er_output r' ! i = NUL)"

lemma replace_payload_exposes:
  assumes "pl + length p < length (er_output r)" and "er_output_len r \<le> length (er_output r)"
  shows "exposes r (replace_payload r pl p) (take pl (er_output r) @ p)"
  using replace_payload_shape [OF assms] assms(1) by (simp add: exposes_def)

lemma withhold_exposes:
  assumes "length (er_output r) = VIRP_OUTPUT_MAX" and "er_output_len r \<le> length (er_output r)"
  shows "\<exists>pl \<in> {0, prefix_len}. exposes r (withhold C r prefix_len name reason)
    (take pl (er_output r) @ withhold_stub C (body_of r prefix_len) name reason)"
proof -
  let ?stub = "withhold_stub C (body_of r prefix_len) name reason"
  define pl where "pl = (if prefix_len + length ?stub \<ge> VIRP_OUTPUT_MAX then 0 else prefix_len)"
  have "pl + length ?stub < length (er_output r)"
    using withhold_stub_length [of C "body_of r prefix_len" name reason] assms(1)
    by (auto simp: pl_def VIRP_OUTPUT_MAX_def)
  from replace_payload_exposes [OF this assms(2)]
  have "exposes r (withhold C r prefix_len name reason) (take pl (er_output r) @ ?stub)"
    by (simp add: withhold_def Let_def pl_def)
  moreover have "pl \<in> {0, prefix_len}"
    by (simp add: pl_def)
  ultimately show ?thesis
    by blast
qed

section \<open>The rules in force\<close>

lemma load_falls_back:
  assumes "parse (takeWhile (\<lambda>c. c \<noteq> NUL) builtin) = Some builtin_rules"
  shows "\<exists>r. vbf_load_locked parse builtin files env path = Some r \<and>
    (r = builtin_rules \<or> (\<exists>p text. files p = Some text \<and> parse_rules parse text = Some r))"
proof -
  have b: "parse_rules parse builtin = Some builtin_rules"
    using assms by (simp add: parse_rules_def builtin_rules_def)
  show ?thesis
    using b by (auto simp: vbf_load_locked_def load_rules_file_def Let_def split: option.splits list.splits if_splits)
qed

end
