(* ===== verification/Virp_Policy.thy ===== *)
theory Virp_Policy
  imports Virp_Crypto Virp_Json
begin

text \<open>
  The operation policy (\<open>src/virp_policy.c\<close>): a closed grammar that turns a command into an
  action, a policy document that says who may do what to which device, and a journal that
  accounts for every action before it is dispatched. The document is the JSON tree; the
  journal is the two SQL tables with the effect of the statements the code issues; clocks,
  the results of the SQL calls and cJSON's parser are arguments.
\<close>

section \<open>The command grammar\<close>

type_synonym virp_vendor_t = nat

definition VIRP_VENDOR_CISCO_IOS :: virp_vendor_t where [simp]: "VIRP_VENDOR_CISCO_IOS = 1"
definition VIRP_VENDOR_FORTINET :: virp_vendor_t where [simp]: "VIRP_VENDOR_FORTINET = 2"
definition VIRP_VENDOR_LINUX :: virp_vendor_t where [simp]: "VIRP_VENDOR_LINUX = 3"
definition VIRP_VENDOR_JUNIPER :: virp_vendor_t where [simp]: "VIRP_VENDOR_JUNIPER = 4"
definition VIRP_VENDOR_PROXMOX :: virp_vendor_t where [simp]: "VIRP_VENDOR_PROXMOX = 7"
definition VIRP_VENDOR_CISCO_ASA :: virp_vendor_t where [simp]: "VIRP_VENDOR_CISCO_ASA = 8"
definition VIRP_VENDOR_CISCO_IOSXE :: virp_vendor_t where [simp]: "VIRP_VENDOR_CISCO_IOSXE = 10"
definition VIRP_VENDOR_MOCK :: virp_vendor_t where [simp]: "VIRP_VENDOR_MOCK = 99"

record virp_policy_action_t =
  pa_command :: string
  pa_operation :: string
  pa_resource :: string
  pa_effect :: nat
  pa_vlan :: nat
  pa_ceiling :: u8
  pa_uid :: nat
  pa_device_id :: u64

definition bad_char :: "char \<Rightarrow> bool" where
  "bad_char c \<longleftrightarrow> (of_char c :: nat) < 33 \<or> (of_char c :: nat) > 126 \<or>
     c \<in> set ([CHR '';'', CHR ''|'', CHR ''&'', CHR ''$'', CHR 0x60, CHR ''<'', CHR ''>'', CHR 0x5C,
              CHR 0x22, CHR 0x27, CHR ''{'', CHR ''}'', CHR ''['', CHR '']'', CHR ''!''])"

fun normalize_loop :: "string \<Rightarrow> bool \<Rightarrow> string \<Rightarrow> string option" where
  "normalize_loop [] space out = (if out = [] then None else Some out)"
| "normalize_loop (c # cs) space out =
     (if c = CHR '' '' \<or> c = TAB then normalize_loop cs (if out \<noteq> [] then True else space) out
      else if bad_char c then None
      else normalize_loop cs False ((if space then out @ '' '' else out) @ [c]))"

definition normalize :: "string ptr \<Rightarrow> string option" where
  "normalize inp =
     (case inp of
        None \<Rightarrow> None
      | Some s \<Rightarrow> if length s \<ge> 512 then None else normalize_loop s False [])"

fun number_loop :: "string \<Rightarrow> nat \<Rightarrow> nat option" where
  "number_loop [] x = Some x"
| "number_loop (c # cs) x =
     (if \<not> is_dec c then None
      else let x1 = x * 10 + (of_char c - 48)
           in if x1 > 100000000 then None else number_loop cs x1)"

definition number :: "string \<Rightarrow> nat option" where
  "number s = (if s = [] \<or> (hd s = CHR ''0'' \<and> length s > 1) then None else number_loop s 0)"

fun port_digits :: "string \<Rightarrow> bool \<Rightarrow> bool" where
  "port_digits [] digit = digit"
| "port_digits (c # cs) digit =
     (if is_dec c then port_digits cs True
      else if c = CHR ''/'' \<and> digit then port_digits cs False
      else False)"

definition physical :: "string \<Rightarrow> bool" where
  "physical s =
     (let after = (if strncaseeq 8 s ''Ethernet'' then Some (drop 8 s)
                   else if strncaseeq 15 s ''GigabitEthernet'' then Some (drop 15 s)
                   else None)
      in case after of
           None \<Rightarrow> False
         | Some t \<Rightarrow> t \<noteq> [] \<and> is_dec (hd t) \<and> port_digits t False)"

definition vendor_cisco :: "virp_vendor_t \<Rightarrow> bool" where
  "vendor_cisco v \<longleftrightarrow> v = VIRP_VENDOR_CISCO_IOS \<or> v = VIRP_VENDOR_CISCO_IOSXE"

definition vendor_cli :: "virp_vendor_t \<Rightarrow> bool" where
  "vendor_cli v \<longleftrightarrow> vendor_cisco v \<or> v = VIRP_VENDOR_CISCO_ASA \<or> v = VIRP_VENDOR_JUNIPER \<or> v = VIRP_VENDOR_FORTINET"

definition vendor_host :: "virp_vendor_t \<Rightarrow> bool" where
  "vendor_host v \<longleftrightarrow> v = VIRP_VENDOR_LINUX \<or> v = VIRP_VENDOR_PROXMOX \<or> v = VIRP_VENDOR_MOCK"

text \<open>Keywords to lower case up to and including \<open>description\<close>, then Cisco's \<open>do\<close> prefix dropped.\<close>

definition fold_keywords :: "virp_vendor_t \<Rightarrow> string \<Rightarrow> string" where
  "fold_keywords v command =
     (if \<not> vendor_cli v then command
      else
        let lower = map to_lower command;
            limit = (case strstr lower '' description '' of None \<Rightarrow> length lower | Some i \<Rightarrow> i + 13);
            c1 = take limit lower @ drop limit command
        in if vendor_cisco v \<and> starts_with ''do '' c1 then drop 3 c1 else c1)"

definition zero_action :: virp_policy_action_t where
  "zero_action = \<lparr>pa_command = [], pa_operation = [], pa_resource = [], pa_effect = 0, pa_vlan = 0,
     pa_ceiling = 0, pa_uid = 0, pa_device_id = 0\<rparr>"

definition op :: "virp_policy_action_t \<Rightarrow> string \<Rightarrow> nat \<Rightarrow> virp_policy_action_t option" where
  "op a name effect = Some (a\<lparr>pa_operation := name, pa_effect := effect\<rparr>)"

definition is_read :: "virp_vendor_t \<Rightarrow> string \<Rightarrow> bool" where
  "is_read v s \<longleftrightarrow>
     (vendor_cli v \<and> s \<in> {''show version'', ''show clock'', ''show interfaces'', ''show interfaces status'', ''show ip route''}) \<or>
     (v = VIRP_VENDOR_FORTINET \<and> s = ''get system status'') \<or>
     (vendor_host v \<and> s \<in> {''uptime'', ''hostname'', ''uname -sr''}) \<or>
     (v = VIRP_VENDOR_MOCK \<and> s = ''show version'')"

definition is_reboot :: "virp_vendor_t \<Rightarrow> string \<Rightarrow> bool" where
  "is_reboot v s \<longleftrightarrow>
     (vendor_cisco v \<and> s = ''reload'') \<or> (v = VIRP_VENDOR_CISCO_ASA \<and> s = ''reload noconfirm'') \<or>
     (v = VIRP_VENDOR_JUNIPER \<and> s = ''request system reboot'') \<or>
     (v = VIRP_VENDOR_FORTINET \<and> s = ''execute reboot'') \<or>
     (vendor_host v \<and> s \<in> {''reboot'', ''systemctl reboot''})"

text \<open>\<open>sscanf(s, "%7s %15s %15s %c", ...) == 3\<close>: three words and nothing after them.\<close>

definition scan_three :: "string \<Rightarrow> (string \<times> string \<times> string) option" where
  "scan_three s =
     (case scan_word 7 s of
        None \<Rightarrow> None
      | Some (tool, r1) \<Rightarrow>
          (case scan_word 15 r1 of
             None \<Rightarrow> None
           | Some (verb, r2) \<Rightarrow>
               (case scan_word 15 r2 of
                  None \<Rightarrow> None
                | Some (i, r3) \<Rightarrow> if dropWhile is_space r3 = [] then Some (tool, verb, i) else None)))"

text \<open>The virtual machine commands: \<open>Some\<close> a decision, or \<open>None\<close> when the code falls through.\<close>

definition classify_vm :: "virp_policy_action_t \<Rightarrow> virp_policy_action_t option" where
  "classify_vm a =
     (case scan_three (pa_command a) of
        None \<Rightarrow> None
      | Some (tool, verb, i) \<Rightarrow>
          (case number i of
             None \<Rightarrow> None
           | Some vmid \<Rightarrow>
               if (tool = ''qm'' \<or> tool = ''pct'') \<and> vmid \<ge> 100
               then
                 let a1 = a\<lparr>pa_resource := (if tool = ''qm'' then ''vm'' else ''ct'') @ '':'' @ dec vmid\<rparr>
                 in if verb = ''status'' then op a1 ''vm.read'' 0
                    else if verb = ''reboot'' then op a1 ''vm.reboot'' 2
                    else if verb = ''destroy'' then op a1 ''vm.delete'' 2
                    else if verb = ''start'' then op a1 ''vm.start'' 1
                    else None
               else None))"

definition classify_line :: "virp_policy_action_t \<Rightarrow> string \<Rightarrow> virp_policy_action_t option" where
  "classify_line a line =
     (if starts_with ''description '' line \<and> length line > 12 \<and> length (drop 12 line) \<le> 128
      then op a ''port.description'' 1
      else (case (if starts_with ''switchport access vlan '' line then number (drop 23 line) else None) of
              Some vlan \<Rightarrow>
                if 1 \<le> vlan \<and> vlan \<le> 4094 then op (a\<lparr>pa_vlan := vlan\<rparr>) ''port.vlan'' 1
                else if line = ''switchport mode access'' then op a ''port.access'' 1
                else None
            | None \<Rightarrow> if line = ''switchport mode access'' then op a ''port.access'' 1 else None))"

definition classify_port :: "virp_policy_action_t \<Rightarrow> virp_policy_action_t option" where
  "classify_port a =
     (let rest = drop 10 (pa_command a); port = takeWhile (\<lambda>c. c \<noteq> CHR '' '') rest
      in if CHR '' '' \<notin> set rest \<or> length port \<ge> 80 then None
         else if \<not> physical port then None
         else
           let line = take 383 (drop (length port + 1) rest);
               prefix = (if strncaseeq 14 port ''gigabitethernet'' then ''GigabitEthernet'' else ''Ethernet'');
               suffix = drop (length prefix) port
           in classify_line
                (a\<lparr>pa_resource := ''port:'' @ port,
                   pa_command := take 511 (''interface '' @ prefix @ suffix @ '' '' @ line)\<rparr>) line)"

definition virp_policy_classify :: "virp_vendor_t \<Rightarrow> string ptr \<Rightarrow> virp_policy_action_t option" where
  "virp_policy_classify v cmd =
     (case normalize cmd of
        None \<Rightarrow> None
      | Some c \<Rightarrow>
          let s = fold_keywords v c; a = zero_action\<lparr>pa_command := s, pa_resource := ''host''\<rparr>
          in if is_read v s then op a ''system.read'' 0
             else if is_reboot v s then op a ''host.reboot'' 2
             else (case (if v = VIRP_VENDOR_LINUX \<or> v = VIRP_VENDOR_PROXMOX then classify_vm a else None) of
                     Some x \<Rightarrow> Some x
                   | None \<Rightarrow> if vendor_cisco v \<and> starts_with ''interface '' s then classify_port a else None))"

section \<open>The policy document\<close>

definition get :: "json option \<Rightarrow> string \<Rightarrow> json option" where
  "get o1 key = cJSON_GetObjectItemCaseSensitive o1 key"

definition str :: "json option \<Rightarrow> string \<Rightarrow> string option" where
  "str o1 key = json_string (get o1 key)"

definition integer :: "json option \<Rightarrow> string \<Rightarrow> int \<Rightarrow> int \<Rightarrow> bool" where
  "integer o1 key lo hi \<longleftrightarrow>
     (case json_number (get o1 key) of
        None \<Rightarrow> False
      | Some q \<Rightarrow> of_int lo \<le> q \<and> q \<le> of_int hi \<and> q = of_int \<lfloor>q\<rfloor>)"

text \<open>The cast of \<open>valuedouble\<close> to \<open>int64_t\<close>, used on members \<open>integer\<close> has accepted.\<close>

definition num :: "json option \<Rightarrow> string \<Rightarrow> int" where
  "num o1 key =
     (case json_number (get o1 key) of
        None \<Rightarrow> 0
      | Some q \<Rightarrow> if q \<ge> 0 then \<lfloor>q\<rfloor> else \<lceil>q\<rceil>)"

fun field_names_ok :: "string \<Rightarrow> string list \<Rightarrow> bool" where
  "field_names_ok names [] = True"
| "field_names_ok names (k # ks) =
     (length (''|'' @ k @ ''|'') < 80 \<and> strstr names (''|'' @ k @ ''|'') \<noteq> None \<and> k \<notin> set ks \<and>
      field_names_ok names ks)"

fun fields :: "json option \<Rightarrow> string \<Rightarrow> bool" where
  "fields (Some (JObject ms)) names = field_names_ok names (map fst ms)"
| "fields _ names = False"

definition ident :: "string option \<Rightarrow> nat \<Rightarrow> bool" where
  "ident s mx =
     (case s of
        None \<Rightarrow> False
      | Some t \<Rightarrow> t \<noteq> [] \<and> length t < mx \<and>
          list_all (\<lambda>c. is_alnum c \<or> c \<in> {CHR ''.'', CHR ''_'', CHR '':'', CHR ''-'', CHR ''/''}) t)"

definition lower_hex_char :: "char \<Rightarrow> bool" where
  "lower_hex_char c \<longleftrightarrow> is_dec c \<or> (97 \<le> (of_char c :: nat) \<and> (of_char c :: nat) \<le> 102)"

definition device_id :: "string option \<Rightarrow> bool" where
  "device_id s =
     (case s of
        None \<Rightarrow> False
      | Some t \<Rightarrow> length t = 16 \<and> list_all lower_hex_char t \<and> t \<noteq> ''0000000000000000'')"

definition operations :: "string list" where
  "operations = [''system.read'', ''host.reboot'', ''vm.read'', ''vm.reboot'', ''vm.delete'', ''vm.start'',
     ''port.description'', ''port.vlan'', ''port.access'']"

definition valid_op :: "string option \<Rightarrow> bool" where
  "valid_op s = (case s of None \<Rightarrow> False | Some t \<Rightarrow> t \<in> set operations)"

definition valid_reason :: "string option \<Rightarrow> bool" where
  "valid_reason s =
     (case s of
        None \<Rightarrow> False
      | Some t \<Rightarrow> length t = 8 \<and> starts_with ''BLACK-'' t \<and> (t ! 6 = CHR ''0'' \<or> t ! 6 = CHR ''1'') \<and>
          is_dec (t ! 7) \<and> 1 \<le> digits_value 10 (drop 6 t) \<and> digits_value 10 (drop 6 t) \<le> 14)"

definition valid_protected :: "json \<Rightarrow> bool" where
  "valid_protected x \<longleftrightarrow>
     fields (Some x) ''|device_id||resource||reason|'' \<and> device_id (str (Some x) ''device_id'') \<and>
     (ident (str (Some x) ''resource'') 96 \<or> str (Some x) ''resource'' = Some ''*'') \<and>
     valid_reason (str (Some x) ''reason'')"

definition valid_rule :: "json \<Rightarrow> bool" where
  "valid_rule r \<longleftrightarrow>
     fields (Some r) ''|device_id||host||port||vendor||operation||resource||vlan_min||vlan_max|'' \<and>
     device_id (str (Some r) ''device_id'') \<and> ident (str (Some r) ''host'') 256 \<and>
     integer (Some r) ''port'' 1 65535 \<and> integer (Some r) ''vendor'' 1 99 \<and>
     valid_op (str (Some r) ''operation'') \<and> ident (str (Some r) ''resource'') 96 \<and>
     (if str (Some r) ''operation'' = Some ''port.vlan''
      then integer (Some r) ''vlan_min'' 1 4094 \<and> integer (Some r) ''vlan_max'' 1 4094 \<and>
           num (Some r) ''vlan_min'' \<le> num (Some r) ''vlan_max''
      else get (Some r) ''vlan_min'' = None \<and> get (Some r) ''vlan_max'' = None)"

definition same_uid_after :: "json \<Rightarrow> json list \<Rightarrow> bool" where
  "same_uid_after x ys \<longleftrightarrow>
     list_ex (\<lambda>y. json_number (get (Some y) ''uid'') \<noteq> None \<and> num (Some y) ''uid'' = num (Some x) ''uid'') ys"

definition valid_principal :: "json \<Rightarrow> json list \<Rightarrow> bool" where
  "valid_principal x later \<longleftrightarrow>
     fields (Some x) ''|uid||profile||expires||rules|'' \<and> integer (Some x) ''uid'' 1 4294967294 \<and>
     integer (Some x) ''expires'' 1 4102444800 \<and>
     (str (Some x) ''profile'' \<in> {Some ''observe'', Some ''supervised'', Some ''autonomous''}) \<and>
     \<not> same_uid_after x later \<and>
     cJSON_IsArray (get (Some x) ''rules'') \<and> length (json_children (get (Some x) ''rules'')) \<le> 512 \<and>
     list_all valid_rule (json_children (get (Some x) ''rules''))"

fun valid_principals :: "json list \<Rightarrow> bool" where
  "valid_principals [] = True"
| "valid_principals (x # xs) = (valid_principal x xs \<and> valid_principals xs)"

definition valid_appender :: "json list \<Rightarrow> json \<Rightarrow> json list \<Rightarrow> bool" where
  "valid_appender ps x later \<longleftrightarrow>
     fields (Some x) ''|uid||types|'' \<and> integer (Some x) ''uid'' 1 4294967294 \<and>
     get (Some x) ''types'' = Some (JArray [JString ''evidence_item'']) \<and>
     \<not> list_ex (\<lambda>p. num (Some p) ''uid'' = num (Some x) ''uid'') ps \<and>
     \<not> same_uid_after x later"

fun valid_appenders :: "json list \<Rightarrow> json list \<Rightarrow> bool" where
  "valid_appenders ps [] = True"
| "valid_appenders ps (x # xs) = (valid_appender ps x xs \<and> valid_appenders ps xs)"

definition valid_policy :: "json \<Rightarrow> bool" where
  "valid_policy r \<longleftrightarrow>
     fields (Some r) ''|version||max_calls||max_disruptive||max_inflight||principals||protected||trusted_appenders|'' \<and>
     integer (Some r) ''version'' 1 1 \<and> integer (Some r) ''max_calls'' 1 1000000 \<and>
     integer (Some r) ''max_disruptive'' 0 1000000 \<and> integer (Some r) ''max_inflight'' 1 64 \<and>
     cJSON_IsArray (get (Some r) ''principals'') \<and> length (json_children (get (Some r) ''principals'')) \<le> 64 \<and>
     cJSON_IsArray (get (Some r) ''protected'') \<and> length (json_children (get (Some r) ''protected'')) \<le> 512 \<and>
     list_all valid_protected (json_children (get (Some r) ''protected'')) \<and>
     valid_principals (json_children (get (Some r) ''principals'')) \<and>
     (get (Some r) ''trusted_appenders'' = None \<or>
      (cJSON_IsArray (get (Some r) ''trusted_appenders'') \<and>
       length (json_children (get (Some r) ''trusted_appenders'')) \<le> 16 \<and>
       valid_appenders (json_children (get (Some r) ''principals'')) (json_children (get (Some r) ''trusted_appenders''))))"

section \<open>Policies and their custody\<close>

record virp_policy =
  po_root :: json
  po_start_wall :: int
  po_start_mono :: int
  po_digest :: string

text \<open>\<open>schema_ok\<close> is whether the journal has its control row with version 1; \<open>wall\<close> and \<open>mclock\<close> are
  the clocks at the call.\<close>

definition virp_policy_parse ::
    "crypto_lib \<Rightarrow> (string \<Rightarrow> json option) \<Rightarrow> bool \<Rightarrow> int \<Rightarrow> int \<Rightarrow> string ptr \<Rightarrow> virp_policy option" where
  "virp_policy_parse C cJSON_ParseWithOpts schema_ok wall mclock json =
     (case json of
        None \<Rightarrow> None
      | Some text \<Rightarrow>
          if length text > 1024 * 1024 \<or> strstr text [CHR 0x5C, CHR ''u'', CHR ''0'', CHR ''0'', CHR ''0'', CHR ''0''] \<noteq> None
          then None
          else (case cJSON_ParseWithOpts text of
                  None \<Rightarrow> None
                | Some r \<Rightarrow>
                    if \<not> valid_policy r then None
                    else if \<not> schema_ok then None
                    else (case EVP_SHA256 C (string_bytes text) of
                            None \<Rightarrow> None
                          | Some md \<Rightarrow>
                              if length md \<noteq> 32 then None
                              else Some \<lparr>po_root = r, po_start_wall = wall, po_start_mono = mclock,
                                        po_digest = bytes_hex md\<rparr>)))"

text \<open>What \<open>openat\<close> and \<open>fstat\<close> see at a path, given as the list of its components: \<open>None\<close> when it
  cannot be opened without following a link.\<close>

record inode =
  in_dir :: bool
  in_regular :: bool
  in_uid :: nat
  in_mode :: u32
  in_nlink :: nat

definition path_parts :: "string \<Rightarrow> string list" where
  "path_parts path = filter (\<lambda>p. p \<noteq> [])
     (foldr (\<lambda>c acc. if c = CHR ''/'' then [] # acc
                      else (case acc of [] \<Rightarrow> [[c]] | p # ps \<Rightarrow> (c # p) # ps)) path [[]])"

definition custody_ok :: "nat \<Rightarrow> bool \<Rightarrow> bool \<Rightarrow> inode \<Rightarrow> bool" where
  "custody_ok euid runtime final n \<longleftrightarrow>
     (in_uid n = 0 \<or> (runtime \<and> in_uid n = euid)) \<and> in_mode n AND 0x12 = 0 \<and>
     (final \<longrightarrow> in_regular n \<and> in_nlink n = 1)"

fun secure_walk :: "(string list \<Rightarrow> inode option) \<Rightarrow> nat \<Rightarrow> bool \<Rightarrow> string list \<Rightarrow> string list \<Rightarrow> bool" where
  "secure_walk tree euid runtime done [] = True"
| "secure_walk tree euid runtime done (part # parts) =
     (part \<noteq> ''.'' \<and> part \<noteq> ''..'' \<and>
      (case tree (done @ [part]) of
         None \<Rightarrow> False
       | Some n \<Rightarrow>
           (parts \<noteq> [] \<longrightarrow> in_dir n) \<and> custody_ok euid runtime (parts = []) n \<and>
           secure_walk tree euid runtime (done @ [part]) parts))"

definition secure_open :: "(string list \<Rightarrow> inode option) \<Rightarrow> nat \<Rightarrow> bool \<Rightarrow> string ptr \<Rightarrow> bool" where
  "secure_open tree euid runtime path =
     (case path of
        None \<Rightarrow> False
      | Some p \<Rightarrow>
          take 1 p = ''/'' \<and> length p < 4096 \<and> path_parts (drop 1 p) \<noteq> [] \<and>
          secure_walk tree euid runtime [] (path_parts (drop 1 p)))"

definition virp_policy_secure_file :: "(string list \<Rightarrow> inode option) \<Rightarrow> nat \<Rightarrow> string ptr \<Rightarrow> bool" where
  "virp_policy_secure_file tree euid path = secure_open tree euid False path"

definition virp_policy_secure_runtime_file :: "(string list \<Rightarrow> inode option) \<Rightarrow> nat \<Rightarrow> string ptr \<Rightarrow> bool" where
  "virp_policy_secure_runtime_file tree euid path = secure_open tree euid True path"

definition virp_policy_can_append :: "virp_policy ptr \<Rightarrow> nat \<Rightarrow> string ptr \<Rightarrow> bool" where
  "virp_policy_can_append p uid type =
     (case (p, type) of
        (Some pol, Some t) \<Rightarrow>
          t = ''evidence_item'' \<and>
          list_ex (\<lambda>x. num (Some x) ''uid'' = int uid) (json_children (get (Some (po_root pol)) ''trusted_appenders''))
      | _ \<Rightarrow> False)"

section \<open>Checking an action\<close>

record virp_device_t =
  dv_enabled :: bool
  dv_vendor :: virp_vendor_t
  dv_device_id :: u64
  dv_host :: string
  dv_port :: nat

definition is_protected :: "string \<Rightarrow> virp_policy_action_t \<Rightarrow> json \<Rightarrow> bool" where
  "is_protected did a x \<longleftrightarrow>
     str (Some x) ''device_id'' = Some did \<and>
     (case str (Some x) ''resource'' of
        None \<Rightarrow> False
      | Some res \<Rightarrow> res = ''*'' \<or> strcaseeq res ''host'' \<or> strcaseeq (pa_resource a) res \<or>
          (pa_effect a = 2 \<and> pa_resource a = ''host''))"

definition rule_covers :: "string \<Rightarrow> virp_device_t \<Rightarrow> virp_policy_action_t \<Rightarrow> json \<Rightarrow> bool" where
  "rule_covers did d a r \<longleftrightarrow>
     str (Some r) ''device_id'' = Some did \<and> str (Some r) ''host'' = Some (dv_host d) \<and>
     num (Some r) ''port'' = int (dv_port d) \<and> num (Some r) ''vendor'' = int (dv_vendor d) \<and>
     str (Some r) ''operation'' = Some (pa_operation a) \<and>
     (case str (Some r) ''resource'' of None \<Rightarrow> False | Some res \<Rightarrow> strcaseeq (pa_resource a) res)"

definition profile_ceiling :: "string option \<Rightarrow> u8" where
  "profile_ceiling p =
     (if p = Some ''observe'' then VIRP_TIER_GREEN else if p = Some ''supervised'' then VIRP_TIER_YELLOW
      else VIRP_TIER_RED)"

text \<open>The principals are visited in order; \<open>Inl\<close> is the reason of a refusal.\<close>

fun check_principals ::
    "int \<Rightarrow> string \<Rightarrow> virp_device_t \<Rightarrow> virp_policy_action_t \<Rightarrow> json list \<Rightarrow> string + virp_policy_action_t" where
  "check_principals now did d a [] = Inl ''BLACK-13''"
| "check_principals now did d a (x # xs) =
     (if num (Some x) ''uid'' \<noteq> int (pa_uid a) then check_principals now did d a xs
      else if now \<ge> num (Some x) ''expires'' then Inl ''BLACK-13''
      else if str (Some x) ''profile'' = Some ''observe'' \<and> pa_effect a \<noteq> 0 then Inl ''BLACK-13''
      else
        let a1 = a\<lparr>pa_ceiling := profile_ceiling (str (Some x) ''profile'')\<rparr>
        in (case find (rule_covers did d a1) (json_children (get (Some x) ''rules'')) of
              Some r \<Rightarrow>
                if pa_vlan a1 \<noteq> 0 \<and> (int (pa_vlan a1) < num (Some r) ''vlan_min'' \<or>
                                     int (pa_vlan a1) > num (Some r) ''vlan_max'')
                then Inl ''BLACK-09'' else Inr a1
            | None \<Rightarrow> check_principals now did d a1 xs))"

definition virp_policy_check ::
    "int \<Rightarrow> virp_policy ptr \<Rightarrow> nat \<Rightarrow> virp_device_t ptr \<Rightarrow> string ptr \<Rightarrow> string + virp_policy_action_t" where
  "virp_policy_check now p uid d command =
     (case (p, d) of
        (Some pol, Some dev) \<Rightarrow>
          if \<not> dv_enabled dev \<or> uid = 4294967295 then Inl ''BLACK-13''
          else (case virp_policy_classify (dv_vendor dev) command of
                  None \<Rightarrow> Inl ''BLACK-13''
                | Some a0 \<Rightarrow>
                    let a = a0\<lparr>pa_uid := uid, pa_device_id := dv_device_id dev\<rparr>;
                        did = hex_padded 16 (unat (dv_device_id dev));
                        prot = (if pa_effect a \<noteq> 0
                                then find (is_protected did a) (json_children (get (Some (po_root pol)) ''protected''))
                                else None)
                    in (case prot of
                          Some x \<Rightarrow> Inl (case str (Some x) ''reason'' of None \<Rightarrow> [] | Some why \<Rightarrow> why)
                        | None \<Rightarrow> check_principals now did dev a (json_children (get (Some (po_root pol)) ''principals''))))
      | _ \<Rightarrow> Inl ''BLACK-13'')"

text \<open>The dispatch capability: the action the current thread is dispatching.\<close>

definition virp_policy_dispatch_enter :: "virp_policy_action_t ptr \<Rightarrow> virp_policy_action_t ptr" where
  "virp_policy_dispatch_enter a = a"

definition virp_policy_dispatch_leave :: "virp_policy_action_t ptr" where
  "virp_policy_dispatch_leave = None"

definition virp_policy_reboot_permitted :: "virp_policy_action_t ptr \<Rightarrow> string \<Rightarrow> bool" where
  "virp_policy_reboot_permitted dispatch_action command =
     (case dispatch_action of
        None \<Rightarrow> False
      | Some a \<Rightarrow> pa_operation a = ''host.reboot'' \<and> pa_command a = command)"

section \<open>The journal\<close>

datatype attempt_state = Pending | Done | Unknown | Reconciled

record attempt =
  at_id :: int
  at_uid :: nat
  at_device :: u64
  at_operation :: string
  at_resource :: string
  at_command :: string
  at_policy_hash :: string
  at_state :: attempt_state
  at_created :: int

record journal =
  jr_stopped :: bool
  jr_calls :: int
  jr_disruptive :: int
  jr_last_time :: int
  jr_attempts :: "attempt list"
  jr_next_id :: int

text \<open>The second SELECT of a reservation: an unknown mutation anywhere, or a pending attempt on the
  same device with the same resource, or either of them the whole host.\<close>

definition blocks_mutation :: "virp_policy_action_t \<Rightarrow> attempt \<Rightarrow> bool" where
  "blocks_mutation a t \<longleftrightarrow>
     (at_state t = Unknown \<and> at_operation t \<notin> {''system.read'', ''vm.read''}) \<or>
     (at_state t = Pending \<and> at_device t = pa_device_id a \<and>
      (strcaseeq (at_resource t) (pa_resource a) \<or> at_resource t = ''host'' \<or> pa_resource a = ''host''))"

definition pending_count :: "journal \<Rightarrow> nat" where
  "pending_count j = length (filter (\<lambda>t. at_state t = Pending) (jr_attempts j))"

definition principal_live :: "virp_policy \<Rightarrow> nat \<Rightarrow> int \<Rightarrow> bool" where
  "principal_live p uid now \<longleftrightarrow>
     list_ex (\<lambda>x. num (Some x) ''uid'' = int uid \<and> now < num (Some x) ''expires'')
       (json_children (get (Some (po_root p)) ''principals''))"

text \<open>\<open>sql k\<close> is whether the \<open>k\<close>-th database call of the transaction succeeds, \<open>mclock\<close> the monotonic
  clock (\<open>None\<close> when it cannot be read). Every exit before the commit rolls back.\<close>

definition virp_policy_reserve ::
    "(nat \<Rightarrow> bool) \<Rightarrow> int \<Rightarrow> int option \<Rightarrow> virp_policy ptr \<Rightarrow> virp_policy_action_t ptr \<Rightarrow> journal \<Rightarrow>
     (string + int) \<times> journal" where
  "virp_policy_reserve sql now mclock p a j =
     (case (p, a) of
        (Some pol, Some act) \<Rightarrow>
          if \<not> sql 0 \<or> \<not> sql 1 \<or> \<not> sql 2 then (Inl ''BLACK-10'', j)
          else if (case mclock of
                     None \<Rightarrow> True
                   | Some m \<Rightarrow> now < po_start_wall pol + (m - po_start_mono pol) - 1) then (Inl ''BLACK-13'', j)
          else if \<not> principal_live pol (pa_uid act) now \<or> now < jr_last_time j then (Inl ''BLACK-13'', j)
          else if jr_stopped j then (Inl ''BLACK-01'', j)
          else if jr_calls j \<ge> num (Some (po_root pol)) ''max_calls'' \<or>
                  (pa_effect act = 2 \<and> jr_disruptive j \<ge> num (Some (po_root pol)) ''max_disruptive'')
          then (Inl ''BLACK-12'', j)
          else if int (pending_count j) \<ge> num (Some (po_root pol)) ''max_inflight'' then (Inl ''BLACK-06'', j)
          else if pa_effect act \<noteq> 0 \<and> \<not> sql 3 then (Inl ''BLACK-10'', j)
          else if pa_effect act \<noteq> 0 \<and> (\<not> sql 4 \<or> list_ex (blocks_mutation act) (jr_attempts j))
          then (Inl ''BLACK-14'', j)
          else if \<not> sql 5 \<or> \<not> sql 6 \<or> \<not> sql 7 \<or> \<not> sql 8 \<or> \<not> sql 9 then (Inl ''BLACK-10'', j)
          else
            let t = \<lparr>at_id = jr_next_id j, at_uid = pa_uid act, at_device = pa_device_id act,
                     at_operation = pa_operation act, at_resource = pa_resource act, at_command = pa_command act,
                     at_policy_hash = po_digest pol, at_state = Pending, at_created = now\<rparr>
            in (Inr (jr_next_id j),
                j\<lparr>jr_attempts := jr_attempts j @ [t], jr_next_id := jr_next_id j + 1, jr_calls := jr_calls j + 1,
                  jr_disruptive := jr_disruptive j + (if pa_effect act = 2 then 1 else 0), jr_last_time := now\<rparr>)
      | _ \<Rightarrow> (Inl ''BLACK-10'', j))"

definition virp_policy_finish :: "bool \<Rightarrow> virp_policy ptr \<Rightarrow> int \<Rightarrow> bool \<Rightarrow> journal \<Rightarrow> bool \<times> journal" where
  "virp_policy_finish sql p i known j =
     (if p = None \<or> i \<le> 0 \<or> \<not> sql then (False, j)
      else
        let hit = (\<lambda>t. at_id t = i \<and> at_state t = Pending)
        in (length (filter hit (jr_attempts j)) = 1,
            j\<lparr>jr_attempts := map (\<lambda>t. if hit t then t\<lparr>at_state := (if known then Done else Unknown)\<rparr> else t)
                              (jr_attempts j)\<rparr>))"

text \<open>What \<open>virp_policy_load\<close> does to the journal it takes over: attempts a previous process left
  pending become unknown.\<close>

definition recover_journal :: "journal \<Rightarrow> journal" where
  "recover_journal j =
     j\<lparr>jr_attempts := map (\<lambda>t. if at_state t = Pending then t\<lparr>at_state := Unknown\<rparr> else t) (jr_attempts j)\<rparr>"

text \<open>Loading: \<open>content\<close> is what reading the policy file delivers, \<open>journal_ok\<close> whether the journal has
  private mode bits, could be locked and opened and is still the file that was checked,
  \<open>update_ok\<close> whether the recovery UPDATE succeeds.\<close>

definition virp_policy_load ::
    "crypto_lib \<Rightarrow> (string \<Rightarrow> json option) \<Rightarrow> (string list \<Rightarrow> inode option) \<Rightarrow> nat \<Rightarrow> bool \<Rightarrow> bool \<Rightarrow> bool \<Rightarrow>
     int \<Rightarrow> int \<Rightarrow> string ptr \<Rightarrow> string option \<Rightarrow> string ptr \<Rightarrow> journal \<Rightarrow> (virp_policy \<times> journal) option" where
  "virp_policy_load C cJSON_ParseWithOpts tree euid journal_ok schema_ok update_ok wall mclock path content journal j =
     (if \<not> secure_open tree euid False path then None
      else (case content of
        None \<Rightarrow> None
      | Some text \<Rightarrow>
          if length text < 2 \<or> length text > 1024 * 1024 \<or> CHR 0x00 \<in> set text then None
          else if \<not> secure_open tree euid True journal then None
          else if \<not> journal_ok then None
          else (case virp_policy_parse C cJSON_ParseWithOpts schema_ok wall mclock (Some text) of
                  None \<Rightarrow> None
                | Some p \<Rightarrow>
                    if list_ex (\<lambda>x. num (Some x) ''uid'' = int euid)
                         (json_children (get (Some (po_root p)) ''principals'')) then None
                    else if list_ex (\<lambda>x. num (Some x) ''uid'' = int euid)
                         (json_children (get (Some (po_root p)) ''trusted_appenders'')) then None
                    else if \<not> update_ok then None
                    else Some (p, recover_journal j))))"

section \<open>What the grammar admits\<close>

lemma normalize_blank:
  "normalize_loop (c # cs) space out = Some s \<Longrightarrow> c = CHR '' '' \<or> c = TAB \<Longrightarrow>
   normalize_loop cs (if out \<noteq> [] then True else space) out = Some s"
  by (simp del: TAB_def)

lemma normalize_copy:
  "normalize_loop (c # cs) space out = Some s \<Longrightarrow> \<not> (c = CHR '' '' \<or> c = TAB) \<Longrightarrow>
   \<not> bad_char c \<and> normalize_loop cs False ((if space then out @ '' '' else out) @ [c]) = Some s"
  by (cases "bad_char c") simp_all

lemma normalize_chars:
  assumes "normalize_loop cs space out = Some s" and "\<forall>c \<in> set out. c = CHR '' '' \<or> \<not> bad_char c"
  shows "(\<forall>c \<in> set s. c = CHR '' '' \<or> \<not> bad_char c) \<and> s \<noteq> [] \<and>
    length s \<le> length out + length cs + (if space then 1 else 0)"
  using assms
proof (induction cs arbitrary: space out)
  case Nil
  then show ?case by (cases "out = []") simp_all
next
  case (Cons c cs)
  show ?case
  proof (cases "c = CHR '' '' \<or> c = TAB")
    case True
    show ?thesis
      using Cons.IH [OF normalize_blank [OF Cons.prems(1) True] Cons.prems(2)] by (cases "out = []") simp_all
  next
    case False
    note n = normalize_copy [OF Cons.prems(1) False]
    have "\<forall>x \<in> set ((if space then out @ '' '' else out) @ [c]). x = CHR '' '' \<or> \<not> bad_char x"
      using Cons.prems(2) n by auto
    from Cons.IH [OF n [THEN conjunct2] this] show ?thesis
      by (cases space) simp_all
  qed
qed

text \<open>The nine operations with their effects.\<close>

definition op_effect :: "string \<Rightarrow> nat" where
  "op_effect name =
     (if name \<in> {''host.reboot'', ''vm.reboot'', ''vm.delete''} then 2
      else if name \<in> {''system.read'', ''vm.read''} then 0 else 1)"

lemma classify_vm_op:
  "classify_vm a = Some x \<Longrightarrow> pa_vlan x = pa_vlan a \<and> pa_command x = pa_command a \<and>
   pa_operation x \<in> {''vm.read'', ''vm.reboot'', ''vm.delete'', ''vm.start''} \<and> pa_effect x = op_effect (pa_operation x)"
  by (auto simp: classify_vm_def op_def Let_def op_effect_def split: option.splits if_splits prod.splits)

lemma classify_line_op:
  assumes "classify_line a line = Some x" and "pa_vlan a = 0"
  shows "pa_operation x \<in> {''port.description'', ''port.vlan'', ''port.access''} \<and> pa_effect x = op_effect (pa_operation x) \<and>
    (if pa_operation x = ''port.vlan'' then 1 \<le> pa_vlan x \<and> pa_vlan x \<le> 4094 else pa_vlan x = 0) \<and>
    pa_resource x = pa_resource a \<and> pa_command x = pa_command a"
proof -
  have "x = a\<lparr>pa_operation := ''port.description'', pa_effect := 1\<rparr> \<or>
      (\<exists>vlan. 1 \<le> vlan \<and> vlan \<le> 4094 \<and> x = a\<lparr>pa_vlan := vlan, pa_operation := ''port.vlan'', pa_effect := 1\<rparr>) \<or>
      x = a\<lparr>pa_operation := ''port.access'', pa_effect := 1\<rparr>"
    using assms(1) unfolding classify_line_def op_def
    by (simp only: option.inject option.distinct split: option.split_asm if_split_asm) blast+
  then show ?thesis
    using assms(2) by (auto simp: op_effect_def)
qed

lemma classify_port_line:
  assumes "classify_port a = Some x"
  shows "\<exists>port line. physical port \<and> length port < 80 \<and> set port \<subseteq> set (pa_command a) \<and> set line \<subseteq> set (pa_command a) \<and>
    classify_line (a\<lparr>pa_resource := ''port:'' @ port, pa_command := take 511 (''interface '' @
      (if strncaseeq 14 port ''gigabitethernet'' then ''GigabitEthernet'' else ''Ethernet'') @
      drop (length (if strncaseeq 14 port ''gigabitethernet'' then ''GigabitEthernet'' else ''Ethernet'')) port @
      '' '' @ line)\<rparr>) line = Some x"
proof -
  define rest where "rest = drop 10 (pa_command a)"
  define port where "port = takeWhile (\<lambda>c. c \<noteq> CHR '' '') rest"
  define line where "line = take 383 (drop (length port + 1) rest)"
  have "set rest \<subseteq> set (pa_command a)"
    unfolding rest_def by (rule set_drop_subset)
  then have "set port \<subseteq> set (pa_command a)" "set line \<subseteq> set (pa_command a)"
    unfolding port_def line_def by (auto dest: set_takeWhileD in_set_takeD in_set_dropD)
  then show ?thesis
    using assms [unfolded classify_port_def Let_def, folded rest_def, folded port_def, folded line_def]
    by (metis option.distinct(1) linorder_not_le)
qed

text \<open>Normalised text: printable, without quoting, shell operators or expansion.\<close>

definition plain :: "string \<Rightarrow> bool" where
  "plain s \<longleftrightarrow> (\<forall>c \<in> set s. c = CHR '' '' \<or> \<not> bad_char c)"

lemma plain_sub: "plain s \<Longrightarrow> set t \<subseteq> set s \<Longrightarrow> plain t"
  by (auto simp: plain_def)

lemma plain_append [simp]: "plain (s @ t) \<longleftrightarrow> plain s \<and> plain t"
  by (auto simp: plain_def)

lemma bad_char_code:
  "bad_char c \<longleftrightarrow> (of_char c :: nat) < 33 \<or> (of_char c :: nat) > 126 \<or>
     (of_char c :: nat) \<in> {59, 124, 38, 36, 96, 60, 62, 92, 34, 39, 123, 125, 91, 93, 33}"
proof -
  have e: "c = d \<longleftrightarrow> (of_char c :: nat) = of_char d" for d
    by simp
  show ?thesis
    unfolding bad_char_def list.set insert_iff empty_iff e by (simp del: of_char_eq_iff)
qed

lemma to_lower_plain: "\<not> bad_char c \<Longrightarrow> \<not> bad_char (to_lower c)"
  by (cases "is_upper c") (auto simp: bad_char_code to_lower_def is_upper_def)

lemma to_lower_blank: "to_lower (CHR '' '') = CHR '' ''"
  by (simp add: to_lower_def is_upper_def)

lemma fold_keywords_plain:
  assumes "plain c"
  shows "plain (fold_keywords v c)"
proof -
  have l: "plain (map to_lower c)"
    using assms to_lower_plain by (fastforce simp: plain_def to_lower_blank)
  have "plain (take n (map to_lower c) @ drop n c)" for n
    using plain_sub [OF l set_take_subset] plain_sub [OF assms set_drop_subset] by simp
  then show ?thesis
    using assms plain_sub [OF _ set_drop_subset] by (auto simp: fold_keywords_def Let_def)
qed

lemma classify_port_op:
  assumes "classify_port a = Some x" and "pa_vlan a = 0"
  shows "pa_operation x \<in> {''port.description'', ''port.vlan'', ''port.access''} \<and> pa_effect x = op_effect (pa_operation x) \<and>
    (if pa_operation x = ''port.vlan'' then 1 \<le> pa_vlan x \<and> pa_vlan x \<le> 4094 else pa_vlan x = 0)"
proof -
  obtain r c line where l: "classify_line (a\<lparr>pa_resource := r, pa_command := c\<rparr>) line = Some x"
    using classify_port_line [OF assms(1)] by blast
  have "pa_vlan (a\<lparr>pa_resource := r, pa_command := c\<rparr>) = 0"
    using assms(2) by simp
  from classify_line_op [OF l this] show ?thesis
    by blast
qed

lemma classify_op:
  assumes "virp_policy_classify v cmd = Some x"
  shows "pa_operation x \<in> set operations" "pa_effect x = op_effect (pa_operation x)"
    "if pa_operation x = ''port.vlan'' then 1 \<le> pa_vlan x \<and> pa_vlan x \<le> 4094 else pa_vlan x = 0"
proof -
  obtain c where c: "normalize cmd = Some c"
    using assms by (auto simp: virp_policy_classify_def split: option.splits)
  let ?s = "fold_keywords v c"
  let ?a = "zero_action\<lparr>pa_command := ?s, pa_resource := ''host''\<rparr>"
  have cases: "op ?a ''system.read'' 0 = Some x \<or> op ?a ''host.reboot'' 2 = Some x \<or> classify_vm ?a = Some x \<or>
      classify_port ?a = Some x"
    using assms unfolding virp_policy_classify_def c Let_def option.case
    by (auto split: if_splits option.splits)
  have z: "pa_vlan ?a = 0"
    by (simp add: zero_action_def)
  show "pa_operation x \<in> set operations" "pa_effect x = op_effect (pa_operation x)"
    "if pa_operation x = ''port.vlan'' then 1 \<le> pa_vlan x \<and> pa_vlan x \<le> 4094 else pa_vlan x = 0"
    using cases classify_vm_op [of ?a x] classify_port_op [of ?a x, OF _ z]
    by (auto simp: op_def operations_def op_effect_def zero_action_def)
qed

lemma keyword_plain: "plain ''interface ''" "plain ''GigabitEthernet''" "plain ''Ethernet''" "plain '' ''"
  by (simp_all add: plain_def bad_char_code)

lemma classify_port_plain:
  assumes "classify_port a = Some x" and "plain (pa_command a)" and "pa_vlan a = 0"
  shows "plain (pa_command x)"
proof -
  let ?p = "\<lambda>port. if strncaseeq 14 port ''gigabitethernet'' then ''GigabitEthernet'' else ''Ethernet''"
  obtain port line where p: "set port \<subseteq> set (pa_command a)" "set line \<subseteq> set (pa_command a)"
    "classify_line (a\<lparr>pa_resource := ''port:'' @ port, pa_command := take 511 (''interface '' @
      ?p port @ drop (length (?p port)) port @ '' '' @ line)\<rparr>) line = Some x"
    using classify_port_line [OF assms(1)] by blast
  have "pa_command x = take 511 (''interface '' @ ?p port @ drop (length (?p port)) port @ '' '' @ line)"
    using classify_line_op [OF p(3)] assms(3) by simp
  moreover have "plain (?p port)"
    by (simp add: keyword_plain)
  ultimately show ?thesis
    using keyword_plain plain_sub [OF assms(2) p(1)] plain_sub [OF assms(2) p(2)] plain_sub [OF _ set_drop_subset, of port]
    by (metis plain_append plain_sub set_take_subset)
qed

lemma classify_plain:
  assumes "virp_policy_classify v cmd = Some x"
  shows "plain (pa_command x)"
proof -
  obtain c where c: "normalize cmd = Some c"
    using assms by (auto simp: virp_policy_classify_def split: option.splits)
  let ?s = "fold_keywords v c"
  let ?a = "zero_action\<lparr>pa_command := ?s, pa_resource := ''host''\<rparr>"
  have "plain c"
    using c normalize_chars [of _ False "[]" c] by (auto simp: normalize_def plain_def split: option.splits if_splits)
  then have s: "plain ?s"
    by (rule fold_keywords_plain)
  have z: "pa_vlan ?a = 0" "pa_command ?a = ?s"
    by (simp_all add: zero_action_def)
  have "op ?a ''system.read'' 0 = Some x \<or> op ?a ''host.reboot'' 2 = Some x \<or> classify_vm ?a = Some x \<or>
      classify_port ?a = Some x"
    using assms unfolding virp_policy_classify_def c Let_def option.case
    by (auto split: if_splits option.splits)
  then show ?thesis
    using s z classify_vm_op [of ?a x] classify_port_plain [of ?a x] by (auto simp: op_def)
qed

section \<open>What a check grants\<close>

lemma check_principals_Inr:
  assumes "check_principals now did d a xs = Inr b"
  shows "\<exists>x \<in> set xs. \<exists>r \<in> set (json_children (get (Some x) ''rules'')).
    num (Some x) ''uid'' = int (pa_uid a) \<and> now < num (Some x) ''expires'' \<and>
    (str (Some x) ''profile'' = Some ''observe'' \<longrightarrow> pa_effect a = 0) \<and>
    b = a\<lparr>pa_ceiling := profile_ceiling (str (Some x) ''profile'')\<rparr> \<and> rule_covers did d a r \<and>
    (pa_vlan a \<noteq> 0 \<longrightarrow> num (Some r) ''vlan_min'' \<le> int (pa_vlan a) \<and> int (pa_vlan a) \<le> num (Some r) ''vlan_max'')"
  using assms
proof (induction now did d a xs rule: check_principals.induct)
  case (1 now did d a)
  then show ?case by simp
next
  case (2 now did d a x xs)
  have rc: "rule_covers did d (a\<lparr>pa_ceiling := t\<rparr>) = rule_covers did d a" for t
    by (intro ext) (simp add: rule_covers_def split: option.split)
  show ?case
  proof (cases "num (Some x) ''uid'' \<noteq> int (pa_uid a)")
    case True
    then show ?thesis
      using 2(1) [OF True] 2(3) by auto
  next
    case False
    show ?thesis
    proof (cases "find (rule_covers did d a) (json_children (get (Some x) ''rules''))")
      case None
      note g = 2(3) [unfolded check_principals.simps Let_def rc None]
      have e: "\<not> now \<ge> num (Some x) ''expires''"
        "\<not> (str (Some x) ''profile'' = Some ''observe'' \<and> pa_effect a \<noteq> 0)"
        using g False by (auto split: if_splits)
      have "check_principals now did d (a\<lparr>pa_ceiling := profile_ceiling (str (Some x) ''profile'')\<rparr>) xs = Inr b"
        using g unfolding if_not_P [OF False] if_not_P [OF e(1)] if_not_P [OF e(2)] option.case .
      then show ?thesis
        using 2(2) [OF False e refl] None by (auto simp: rc)
    next
      case (Some r)
      have "r \<in> set (json_children (get (Some x) ''rules''))" "rule_covers did d a r"
        using Some by (auto simp: find_Some_iff)
      then show ?thesis
        using 2(3) False unfolding check_principals.simps Let_def rc Some
        by (intro bexI [of _ x] bexI [of _ r]) (auto split: if_splits)
    qed
  qed
qed

lemma policy_check_Inr:
  assumes "virp_policy_check now (Some p) uid (Some d) command = Inr b"
  defines "did \<equiv> hex_padded 16 (unat (dv_device_id d))"
  shows "dv_enabled d \<and> pa_uid b = uid \<and> pa_device_id b = dv_device_id d \<and>
    (\<exists>a. virp_policy_classify (dv_vendor d) command = Some a \<and>
       pa_command b = pa_command a \<and> pa_operation b = pa_operation a \<and> pa_resource b = pa_resource a \<and>
       pa_effect b = pa_effect a \<and> pa_vlan b = pa_vlan a) \<and>
    (pa_effect b \<noteq> 0 \<longrightarrow> (\<forall>x \<in> set (json_children (get (Some (po_root p)) ''protected'')). \<not> is_protected did b x)) \<and>
    (\<exists>x \<in> set (json_children (get (Some (po_root p)) ''principals'')).
       \<exists>r \<in> set (json_children (get (Some x) ''rules'')).
       num (Some x) ''uid'' = int uid \<and> now < num (Some x) ''expires'' \<and>
       (str (Some x) ''profile'' = Some ''observe'' \<longrightarrow> pa_effect b = 0) \<and>
       pa_ceiling b = profile_ceiling (str (Some x) ''profile'') \<and> rule_covers did d b r \<and>
       (pa_vlan b \<noteq> 0 \<longrightarrow> num (Some r) ''vlan_min'' \<le> int (pa_vlan b) \<and> int (pa_vlan b) \<le> num (Some r) ''vlan_max''))"
proof -
  have en: "dv_enabled d" "uid \<noteq> 4294967295"
    using assms(1) by (auto simp: virp_policy_check_def split: if_splits)
  obtain a0 where a0: "virp_policy_classify (dv_vendor d) command = Some a0"
    using assms(1) en by (auto simp: virp_policy_check_def split: option.splits)
  define a where "a = a0\<lparr>pa_uid := uid, pa_device_id := dv_device_id d\<rparr>"
  let ?prot = "json_children (get (Some (po_root p)) ''protected'')"
  let ?ps = "json_children (get (Some (po_root p)) ''principals'')"
  have c: "(case (if pa_effect a \<noteq> 0 then find (is_protected did a) ?prot else None) of
      Some x \<Rightarrow> Inl (case str (Some x) ''reason'' of None \<Rightarrow> [] | Some why \<Rightarrow> why)
    | None \<Rightarrow> check_principals now did d a ?ps) = Inr b"
    using assms(1) en unfolding virp_policy_check_def did_def a_def by (simp add: a0 Let_def)
  then have prot: "(if pa_effect a \<noteq> 0 then find (is_protected did a) ?prot else None) = None"
    by (auto split: option.splits)
  then have "check_principals now did d a ?ps = Inr b"
    using c by simp
  from check_principals_Inr [OF this] obtain x r where
    x: "x \<in> set ?ps" "r \<in> set (json_children (get (Some x) ''rules''))"
      "num (Some x) ''uid'' = int (pa_uid a)" "now < num (Some x) ''expires''"
      "str (Some x) ''profile'' = Some ''observe'' \<longrightarrow> pa_effect a = 0" "rule_covers did d a r"
      "pa_vlan a \<noteq> 0 \<longrightarrow> num (Some r) ''vlan_min'' \<le> int (pa_vlan a) \<and> int (pa_vlan a) \<le> num (Some r) ''vlan_max''"
    and b: "b = a\<lparr>pa_ceiling := profile_ceiling (str (Some x) ''profile'')\<rparr>"
    by blast
  have same: "pa_uid b = uid" "pa_device_id b = dv_device_id d" "pa_command b = pa_command a0"
    "pa_operation b = pa_operation a0" "pa_resource b = pa_resource a0" "pa_effect b = pa_effect a0"
    "pa_vlan b = pa_vlan a0" "pa_ceiling b = profile_ceiling (str (Some x) ''profile'')"
    "pa_uid a = uid" "pa_effect a = pa_effect a0" "pa_vlan a = pa_vlan a0"
    by (simp_all add: b a_def)
  have cov: "rule_covers did d b r" "\<And>y. is_protected did b y = is_protected did a y"
    using x(6) unfolding b rule_covers_def is_protected_def by (simp_all split: option.splits)
  have np: "pa_effect b \<noteq> 0 \<longrightarrow> (\<forall>y \<in> set ?prot. \<not> is_protected did b y)"
    using prot same unfolding cov(2) by (auto simp: find_None_iff split: if_splits)
  show ?thesis
    using en(1) same(1,2) a0 same(3-7) np x(1,2,3,4,5,7) cov(1) same(8-) by metis
qed

section \<open>Custody and roles\<close>

lemma secure_walk_iff:
  "secure_walk tree euid runtime pre parts \<longleftrightarrow>
   (\<forall>k < length parts. parts ! k \<notin> {''.'', ''..''} \<and>
      (\<exists>n. tree (pre @ take (Suc k) parts) = Some n \<and> (Suc k < length parts \<longrightarrow> in_dir n) \<and>
           custody_ok euid runtime (Suc k = length parts) n))"
proof (induction parts arbitrary: pre)
  case Nil
  then show ?case by simp
next
  case (Cons part parts)
  show ?case
    unfolding secure_walk.simps Cons.IH
    by (auto simp: All_less_Suc2 split: option.splits)
qed

lemma appenders_no_principals:
  "valid_appenders ps xs \<Longrightarrow> x \<in> set xs \<Longrightarrow> y \<in> set ps \<Longrightarrow> num (Some y) ''uid'' \<noteq> num (Some x) ''uid''"
  by (induction ps xs rule: valid_appenders.induct) (auto simp: valid_appender_def list_ex_iff)

lemma policy_load_facts:
  assumes "virp_policy_load C parse tree euid jok sok uok wall mclock path content journal j = Some (p, j')"
  shows "secure_open tree euid False path" "secure_open tree euid True journal" "valid_policy (po_root p)"
    "\<forall>x \<in> set (json_children (get (Some (po_root p)) ''principals'')). num (Some x) ''uid'' \<noteq> int euid"
    "\<forall>x \<in> set (json_children (get (Some (po_root p)) ''trusted_appenders'')). num (Some x) ''uid'' \<noteq> int euid"
    "j' = recover_journal j"
  using assms unfolding virp_policy_load_def virp_policy_parse_def
  by (auto simp: list_ex_iff split: if_splits option.splits)

lemma roles_disjoint:
  assumes "valid_policy (po_root p)" and "virp_policy_can_append (Some p) uid type"
  shows "\<forall>x \<in> set (json_children (get (Some (po_root p)) ''principals'')). num (Some x) ''uid'' \<noteq> int uid"
proof -
  let ?as = "json_children (get (Some (po_root p)) ''trusted_appenders'')"
  let ?ps = "json_children (get (Some (po_root p)) ''principals'')"
  obtain x where x: "x \<in> set ?as" "num (Some x) ''uid'' = int uid"
    using assms(2) by (auto simp: virp_policy_can_append_def list_ex_iff split: option.splits)
  then have "get (Some (po_root p)) ''trusted_appenders'' \<noteq> None"
    by (cases "get (Some (po_root p)) ''trusted_appenders''") simp_all
  then have "valid_appenders ?ps ?as"
    using assms(1) unfolding valid_policy_def by - (elim conjE disjE, simp, assumption)
  from appenders_no_principals [OF this x(1)] show ?thesis
    unfolding x(2) by blast
qed

section \<open>Runs of the journal\<close>

datatype journal_event =
    EvReserve "nat \<Rightarrow> bool" int "int option" virp_policy_action_t
  | EvFinish bool int bool

fun journal_apply :: "virp_policy \<Rightarrow> journal \<Rightarrow> journal_event \<Rightarrow> journal" where
  "journal_apply p j (EvReserve sql now mclock a) = snd (virp_policy_reserve sql now mclock (Some p) (Some a) j)"
| "journal_apply p j (EvFinish sql i known) = snd (virp_policy_finish sql (Some p) i known j)"

definition max_of :: "virp_policy \<Rightarrow> string \<Rightarrow> int" where
  "max_of p key = num (Some (po_root p)) key"

definition new_attempt :: "virp_policy \<Rightarrow> int \<Rightarrow> virp_policy_action_t \<Rightarrow> journal \<Rightarrow> attempt" where
  "new_attempt p now a j =
     \<lparr>at_id = jr_next_id j, at_uid = pa_uid a, at_device = pa_device_id a, at_operation = pa_operation a,
      at_resource = pa_resource a, at_command = pa_command a, at_policy_hash = po_digest p,
      at_state = Pending, at_created = now\<rparr>"

text \<open>A reservation either changes nothing or passes every check and writes one pending attempt.\<close>

lemma reserve_outcome:
  assumes "virp_policy_reserve sql now mclock (Some p) (Some a) j = (res, j')"
  obtains (refused) why where "res = Inl why" "j' = j"
  | (reserved) "res = Inr (jr_next_id j)" "principal_live p (pa_uid a) now" "jr_last_time j \<le> now" "\<not> jr_stopped j"
      "jr_calls j < max_of p ''max_calls''" "pa_effect a = 2 \<longrightarrow> jr_disruptive j < max_of p ''max_disruptive''"
      "int (pending_count j) < max_of p ''max_inflight''"
      "pa_effect a \<noteq> 0 \<longrightarrow> \<not> list_ex (blocks_mutation a) (jr_attempts j)"
      "j' = j\<lparr>jr_attempts := jr_attempts j @ [new_attempt p now a j], jr_next_id := jr_next_id j + 1,
        jr_calls := jr_calls j + 1, jr_disruptive := jr_disruptive j + (if pa_effect a = 2 then 1 else 0),
        jr_last_time := now\<rparr>"
proof (cases res)
  case (Inl why)
  have "j' = j"
    using assms unfolding Inl virp_policy_reserve_def option.case prod.case Let_def
    by (elim guard_keep) simp
  then show thesis
    using refused Inl by blast
next
  case (Inr r)
  note c = assms [unfolded Inr virp_policy_reserve_def option.case prod.case Let_def max_of_def [symmetric]
      new_attempt_def [symmetric] guard_Inr de_Morgan_disj de_Morgan_conj not_not not_le not_less prod.inject
      sum.inject]
  have g: "principal_live p (pa_uid a) now" "jr_last_time j \<le> now" "\<not> jr_stopped j"
      "jr_calls j < max_of p ''max_calls''" "int (pending_count j) < max_of p ''max_inflight''"
      "r = jr_next_id j"
      "j' = j\<lparr>jr_attempts := jr_attempts j @ [new_attempt p now a j], jr_next_id := jr_next_id j + 1,
        jr_calls := jr_calls j + 1, jr_disruptive := jr_disruptive j + (if pa_effect a = 2 then 1 else 0),
        jr_last_time := now\<rparr>"
    using c by - (elim conjE, (assumption | (rule sym, assumption)))+
  have e: "pa_effect a = 2 \<longrightarrow> jr_disruptive j < max_of p ''max_disruptive''"
    "pa_effect a \<noteq> 0 \<longrightarrow> \<not> list_ex (blocks_mutation a) (jr_attempts j)"
    using c by - (elim conjE disjE; simp)+
  show thesis
    by (rule reserved) (use g e Inr in \<open>simp only:\<close>)+
qed

definition within_quota :: "virp_policy \<Rightarrow> journal \<Rightarrow> bool" where
  "within_quota p j \<longleftrightarrow> jr_calls j \<le> max_of p ''max_calls'' \<and> jr_disruptive j \<le> max_of p ''max_disruptive'' \<and>
     int (pending_count j) \<le> max_of p ''max_inflight''"

text \<open>Two attempts clash when both are pending on one device and name the same resource, or one of
  them the whole host. \<open>exclusive\<close>: no mutation was admitted against an earlier pending attempt.\<close>

definition clash :: "attempt \<Rightarrow> attempt \<Rightarrow> bool" where
  "clash s t \<longleftrightarrow> at_state s = Pending \<and> at_state t = Pending \<and> at_device s = at_device t \<and>
     (strcaseeq (at_resource s) (at_resource t) \<or> at_resource s = ''host'' \<or> at_resource t = ''host'')"

definition exclusive :: "journal \<Rightarrow> bool" where
  "exclusive j \<longleftrightarrow> sorted_wrt (\<lambda>s t. op_effect (at_operation t) \<noteq> 0 \<longrightarrow> \<not> clash s t) (jr_attempts j)"

definition ids_ok :: "journal \<Rightarrow> bool" where
  "ids_ok j \<longleftrightarrow> distinct (map at_id (jr_attempts j)) \<and> (\<forall>t \<in> set (jr_attempts j). at_id t < jr_next_id j)"

definition finished :: "int \<Rightarrow> bool \<Rightarrow> attempt \<Rightarrow> attempt" where
  "finished i known t =
     (if at_id t = i \<and> at_state t = Pending then t\<lparr>at_state := (if known then Done else Unknown)\<rparr> else t)"

lemma finish_outcome:
  assumes "virp_policy_finish sql (Some p) i known j = (ok, j')"
  shows "j' = j \<or> j' = j\<lparr>jr_attempts := map (finished i known) (jr_attempts j)\<rparr>"
  using assms by (auto simp: virp_policy_finish_def Let_def finished_def [abs_def] split: if_splits)

lemma finished_simps [simp]:
  "at_id (finished i k t) = at_id t" "at_device (finished i k t) = at_device t"
  "at_operation (finished i k t) = at_operation t" "at_resource (finished i k t) = at_resource t"
  by (auto simp: finished_def split: if_splits)

lemma finished_pending: "at_state (finished i k t) = Pending \<Longrightarrow> at_state t = Pending"
  by (auto simp: finished_def split: if_splits)

lemma pending_finished:
  "length (filter (\<lambda>t. at_state t = Pending) (map (finished i k) ts)) \<le> length (filter (\<lambda>t. at_state t = Pending) ts)"
  by (induction ts) (auto dest: finished_pending)

lemma quota_step:
  assumes "within_quota p j"
  shows "within_quota p (journal_apply p j e)"
proof (cases e)
  case (EvReserve sql now mclock a)
  obtain res j' where r: "virp_policy_reserve sql now mclock (Some p) (Some a) j = (res, j')"
    by fastforce
  show ?thesis
  proof (rule reserve_outcome [OF r])
    show ?thesis if "j' = j" for why :: string
      using assms r that by (simp add: EvReserve)
  next
    assume "jr_calls j < max_of p ''max_calls''" "pa_effect a = 2 \<longrightarrow> jr_disruptive j < max_of p ''max_disruptive''"
      "int (pending_count j) < max_of p ''max_inflight''"
      "j' = j\<lparr>jr_attempts := jr_attempts j @ [new_attempt p now a j], jr_next_id := jr_next_id j + 1,
        jr_calls := jr_calls j + 1, jr_disruptive := jr_disruptive j + (if pa_effect a = 2 then 1 else 0),
        jr_last_time := now\<rparr>"
    then show ?thesis
      using assms r by (auto simp: EvReserve within_quota_def pending_count_def new_attempt_def)
  qed
next
  case (EvFinish sql i known)
  obtain ok j' where r: "virp_policy_finish sql (Some p) i known j = (ok, j')"
    by fastforce
  then show ?thesis
    using finish_outcome [OF r] assms pending_finished [of i known "jr_attempts j"]
    by (auto simp: EvFinish within_quota_def pending_count_def)
qed

text \<open>The effect an action carries is the one of its operation, as \<open>virp_policy_classify\<close> makes it.\<close>

fun honest :: "journal_event \<Rightarrow> bool" where
  "honest (EvReserve sql now mclock a) = (pa_effect a = op_effect (pa_operation a))"
| "honest (EvFinish sql i known) = True"

lemma exclusive_step:
  assumes "exclusive j" and "honest e"
  shows "exclusive (journal_apply p j e)"
proof (cases e)
  case (EvReserve sql now mclock a)
  obtain res j' where r: "virp_policy_reserve sql now mclock (Some p) (Some a) j = (res, j')"
    by fastforce
  show ?thesis
  proof (rule reserve_outcome [OF r])
    show ?thesis if "j' = j" for why :: string
      using assms r that by (simp add: EvReserve)
  next
    assume b: "pa_effect a \<noteq> 0 \<longrightarrow> \<not> list_ex (blocks_mutation a) (jr_attempts j)"
      and j': "j' = j\<lparr>jr_attempts := jr_attempts j @ [new_attempt p now a j], jr_next_id := jr_next_id j + 1,
        jr_calls := jr_calls j + 1, jr_disruptive := jr_disruptive j + (if pa_effect a = 2 then 1 else 0),
        jr_last_time := now\<rparr>"
    have "\<not> clash t (new_attempt p now a j)" if "t \<in> set (jr_attempts j)" "op_effect (pa_operation a) \<noteq> 0" for t
      using b that assms(2) by (auto simp: EvReserve list_ex_iff blocks_mutation_def clash_def new_attempt_def)
    then show ?thesis
      using assms(1) r by (auto simp: EvReserve j' exclusive_def sorted_wrt_append new_attempt_def)
  qed
next
  case (EvFinish sql i known)
  obtain ok j' where r: "virp_policy_finish sql (Some p) i known j = (ok, j')"
    by fastforce
  have "exclusive (j\<lparr>jr_attempts := map (finished i known) (jr_attempts j)\<rparr>)"
    using assms(1) unfolding exclusive_def
    by (auto simp: sorted_wrt_map clash_def elim!: sorted_wrt_mono_rel [rotated] dest: finished_pending)
  then show ?thesis
    using finish_outcome [OF r] assms(1) r by (auto simp: EvFinish)
qed

lemma ids_step:
  assumes "ids_ok j"
  shows "ids_ok (journal_apply p j e)"
proof (cases e)
  case (EvReserve sql now mclock a)
  obtain res j' where r: "virp_policy_reserve sql now mclock (Some p) (Some a) j = (res, j')"
    by fastforce
  show ?thesis
    by (rule reserve_outcome [OF r])
       (use assms r in \<open>auto simp: EvReserve ids_ok_def new_attempt_def dest: less_imp_neq\<close>)
next
  case (EvFinish sql i known)
  obtain ok j' where r: "virp_policy_finish sql (Some p) i known j = (ok, j')"
    by fastforce
  then show ?thesis
    using finish_outcome [OF r] assms by (auto simp: EvFinish ids_ok_def comp_def)
qed

text \<open>After recovery an attempt that was pending is unknown, and no later event changes that.\<close>

definition stuck :: "journal \<Rightarrow> bool" where
  "stuck j \<longleftrightarrow> (\<exists>t \<in> set (jr_attempts j). at_state t = Unknown \<and> op_effect (at_operation t) \<noteq> 0)"

lemma stuckI: "t \<in> set (jr_attempts j) \<Longrightarrow> at_state t = Unknown \<Longrightarrow> op_effect (at_operation t) \<noteq> 0 \<Longrightarrow> stuck j"
  unfolding stuck_def by blast

lemma stuck_step:
  assumes "stuck j"
  shows "stuck (journal_apply p j e)"
proof -
  obtain t where t: "t \<in> set (jr_attempts j)" "at_state t = Unknown" "op_effect (at_operation t) \<noteq> 0"
    using assms unfolding stuck_def by blast
  show ?thesis
  proof (cases e)
    case (EvReserve sql now mclock a)
    obtain res j' where r: "virp_policy_reserve sql now mclock (Some p) (Some a) j = (res, j')"
      by fastforce
    have "t \<in> set (jr_attempts j')"
      by (rule reserve_outcome [OF r]) (use t(1) in simp_all)
    then show ?thesis
      using stuckI [OF _ t(2,3)] r by (simp add: EvReserve)
  next
    case (EvFinish sql i known)
    obtain ok j' where r: "virp_policy_finish sql (Some p) i known j = (ok, j')"
      by fastforce
    have "finished i known t = t"
      using t(2) by (simp add: finished_def)
    then have "t \<in> set (map (finished i known) (jr_attempts j))"
      using t(1) by (metis image_eqI set_map)
    then have "t \<in> set (jr_attempts j')"
      using finish_outcome [OF r] t(1) by auto
    then show ?thesis
      using stuckI [OF _ t(2,3)] r by (simp add: EvFinish)
  qed
qed

lemma mutation_no_read: "op_effect x \<noteq> 0 \<Longrightarrow> x \<notin> {''system.read'', ''vm.read''}"
  by (auto simp: op_effect_def)

lemma stuck_refuses:
  assumes "stuck j" and "pa_effect a \<noteq> 0"
  shows "\<exists>why. virp_policy_reserve sql now mclock (Some p) (Some a) j = (Inl why, j)"
proof -
  obtain res j' where r: "virp_policy_reserve sql now mclock (Some p) (Some a) j = (res, j')"
    by fastforce
  obtain t where t: "t \<in> set (jr_attempts j)" "at_state t = Unknown" "op_effect (at_operation t) \<noteq> 0"
    using assms(1) unfolding stuck_def by blast
  have "blocks_mutation a t"
    unfolding blocks_mutation_def using t(2) mutation_no_read [OF t(3)] by blast
  then have b: "list_ex (blocks_mutation a) (jr_attempts j)"
    using t(1) unfolding list_ex_iff by blast
  show ?thesis
  proof (rule reserve_outcome [OF r])
    show ?thesis if "res = Inl why" "j' = j" for why
      using r that by blast
  next
    assume "pa_effect a \<noteq> 0 \<longrightarrow> \<not> list_ex (blocks_mutation a) (jr_attempts j)"
    then show ?thesis
      using assms(2) b by blast
  qed
qed

end
