(* ===== verification/Virp_Artifact.thy ===== *)
theory Virp_Artifact
  imports Virp_Keys
begin

text \<open>
  Artifacts of the trust chain (\<open>src/virp_chain.c\<close>): the classes of artifact types, the stored
  form of a body (literal text or base64), its digest, and the hex forms of digests and MACs.
\<close>

section \<open>Artifact types\<close>

definition type_in :: "string ptr \<Rightarrow> string list \<Rightarrow> bool" where
  "type_in t S = (case t of None \<Rightarrow> False | Some x \<Rightarrow> x \<in> set S)"

definition RESERVED :: "string list" where
  "RESERVED = [''approval'', ''proposal'', ''outcome'', ''gate_rejection'', ''gate_execution'',
     ''gate_intent'', ''node_config'', ''validation'']"

definition INDIRECT :: "string list" where
  "INDIRECT = [''comparator_verdict'', ''comparator_verd'', ''chainwalk_summary'', ''chainwalk_summa'']"

definition EXTERNAL :: "string list" where
  "EXTERNAL = [''observation'', ''evidence_item'', ''no_drift'', ''baseline_set'', ''drift_alert'',
     ''fed_request'', ''fed_observation'', ''fed_outcome'', ''fed_error'']"

definition FEDERATION :: "string list" where
  "FEDERATION = [''fed_request'', ''fed_observation'', ''fed_outcome'', ''fed_error'']"

definition virp_chain_type_is_daemon_reserved :: "string ptr \<Rightarrow> bool" where
  "virp_chain_type_is_daemon_reserved t = type_in t RESERVED"

definition virp_chain_type_is_indirect :: "string ptr \<Rightarrow> bool" where
  "virp_chain_type_is_indirect t = type_in t INDIRECT"

definition virp_chain_type_is_external_allowed :: "string ptr \<Rightarrow> bool" where
  "virp_chain_type_is_external_allowed t =
     (if virp_chain_type_is_indirect t then True else type_in t EXTERNAL)"

definition virp_chain_type_is_federation :: "string ptr \<Rightarrow> bool" where
  "virp_chain_type_is_federation t = type_in t FEDERATION"

text \<open>
  No type a client may submit is a type the daemon mints, and truncation to the fifteen
  characters of the entry field keeps both classes.
\<close>

lemma external_types:
  "list_all (\<lambda>x. x \<notin> set RESERVED \<and> take 15 x \<notin> set RESERVED \<and> take 15 x \<in> set (INDIRECT @ EXTERNAL))
     (INDIRECT @ EXTERNAL)"
  by code_simp

lemma reserved_types: "list_all (\<lambda>x. length x \<le> 15) RESERVED"
  by code_simp

lemma external_iff:
  "virp_chain_type_is_external_allowed t \<longleftrightarrow> (\<exists>x \<in> set (INDIRECT @ EXTERNAL). t = Some x)"
  by (cases t) (auto simp: virp_chain_type_is_external_allowed_def virp_chain_type_is_indirect_def type_in_def)

lemma reserved_iff: "virp_chain_type_is_daemon_reserved t \<longleftrightarrow> (\<exists>x \<in> set RESERVED. t = Some x)"
  by (cases t) (auto simp: virp_chain_type_is_daemon_reserved_def type_in_def)

lemma type_classes:
  assumes "virp_chain_type_is_external_allowed t"
  shows "\<not> virp_chain_type_is_daemon_reserved t"
    and "virp_chain_type_is_external_allowed (map_option (take 15) t)"
    and "\<not> virp_chain_type_is_daemon_reserved (map_option (take 15) t)"
proof -
  obtain x where "x \<in> set (INDIRECT @ EXTERNAL)" and "t = Some x"
    using assms unfolding external_iff by blast
  moreover have "x \<notin> set RESERVED \<and> take 15 x \<notin> set RESERVED \<and> take 15 x \<in> set (INDIRECT @ EXTERNAL)"
    using external_types calculation(1) unfolding list_all_iff by blast
  ultimately show "\<not> virp_chain_type_is_daemon_reserved t"
    and "virp_chain_type_is_external_allowed (map_option (take 15) t)"
    and "\<not> virp_chain_type_is_daemon_reserved (map_option (take 15) t)"
    unfolding external_iff reserved_iff by auto
qed

lemma reserved_truncation:
  assumes "virp_chain_type_is_daemon_reserved t"
  shows "map_option (take 15) t = t"
  using assms reserved_types unfolding reserved_iff list_all_iff by auto

section \<open>Artifact bodies\<close>

definition artifact_b64_val :: "char \<Rightarrow> u32 option" where
  "artifact_b64_val c =
     (let n = of_char c :: nat
      in if 65 \<le> n \<and> n \<le> 90 then Some (of_nat (n - 65))
         else if 97 \<le> n \<and> n \<le> 122 then Some (of_nat (n - 97 + 26))
         else if 48 \<le> n \<and> n \<le> 57 then Some (of_nat (n - 48 + 52))
         else if n = 43 then Some 62
         else if n = 47 then Some 63
         else None)"

text \<open>One group of four characters; padding only in the tail of the last one.\<close>

definition b64_trip :: "u32 \<Rightarrow> u32 \<Rightarrow> u32 \<Rightarrow> u32 \<Rightarrow> u32" where
  "b64_trip a b c d = push_bit 18 a OR push_bit 12 b OR push_bit 6 c OR d"

definition trip_bytes :: "u32 \<Rightarrow> bytes" where
  "trip_bytes t = [ucast (drop_bit 16 t), ucast (drop_bit 8 t), ucast t]"

definition b64_quantum :: "bool \<Rightarrow> char \<Rightarrow> char \<Rightarrow> char \<Rightarrow> char \<Rightarrow> bytes option" where
  "b64_quantum final a b c d =
     (case (artifact_b64_val a, artifact_b64_val b) of
        (Some va, Some vb) \<Rightarrow>
          if c = CHR ''='' then
            (if final \<and> d = CHR ''='' then Some (take 1 (trip_bytes (b64_trip va vb 0 0))) else None)
          else (case artifact_b64_val c of
                  None \<Rightarrow> None
                | Some vc \<Rightarrow>
                    if d = CHR ''='' then
                      (if final then Some (take 2 (trip_bytes (b64_trip va vb vc 0))) else None)
                    else (case artifact_b64_val d of
                            None \<Rightarrow> None
                          | Some vd \<Rightarrow> Some (trip_bytes (b64_trip va vb vc vd))))
      | _ \<Rightarrow> None)"

fun artifact_b64_decode :: "nat \<Rightarrow> string \<Rightarrow> bytes option" where
  "artifact_b64_decode room [] = Some []"
| "artifact_b64_decode room (a # b # c # d # r) =
     (case b64_quantum (r = []) a b c d of
        None \<Rightarrow> None
      | Some bs \<Rightarrow>
          if length bs > room then None
          else map_option (\<lambda>x. bs @ x) (artifact_b64_decode (room - length bs) r))"
| "artifact_b64_decode room _ = None"

definition hexdigest_eq :: "string ptr \<Rightarrow> string ptr \<Rightarrow> bool" where
  "hexdigest_eq a b =
     (case (a, b) of
        (Some x, Some y) \<Rightarrow>
          length x = length y \<and> virp_consttime_eq (string_bytes x) (string_bytes y) (length x)
      | _ \<Rightarrow> False)"

lemma hexdigest_eq_iff [simp]: "hexdigest_eq (Some x) (Some y) \<longleftrightarrow> x = y"
  by (auto simp: hexdigest_eq_def)

definition sha256_hex :: "crypto_lib \<Rightarrow> bytes \<Rightarrow> string" where
  "sha256_hex C data = bytes_hex (SHA256 C data)"

definition hmac_sha256_hex :: "crypto_lib \<Rightarrow> bytes \<Rightarrow> bytes \<Rightarrow> virp_error_t + string" where
  "hmac_sha256_hex C key data =
     (case virp_hmac_sha256 C key data of Inl e \<Rightarrow> Inl e | Inr t \<Rightarrow> Inr (bytes_hex t))"

definition B64_PREFIX :: string where "B64_PREFIX = ''base64:''"

definition virp_chain_artifact_digest ::
    "crypto_lib \<Rightarrow> bool \<Rightarrow> string ptr \<Rightarrow> virp_error_t + string" where
  "virp_chain_artifact_digest C malloc_ok content =
     (case content of
        None \<Rightarrow> Inl VIRP_ERR_NULL_PTR
      | Some s \<Rightarrow>
          if starts_with B64_PREFIX s then
            let b64 = drop (length B64_PREFIX) s
            in if \<not> malloc_ok then Inl VIRP_ERR_BUFFER_TOO_SMALL
               else (case artifact_b64_decode (length b64 div 4 * 3 + 3) b64 of
                       None \<Rightarrow> Inl VIRP_ERR_INVALID_LENGTH
                     | Some raw \<Rightarrow> Inr (sha256_hex C raw))
          else Inr (sha256_hex C (string_bytes s)))"

definition virp_chain_artifact_bytes :: "nat \<Rightarrow> string ptr \<Rightarrow> virp_error_t + bytes" where
  "virp_chain_artifact_bytes out_max content =
     (case content of
        None \<Rightarrow> Inl VIRP_ERR_NULL_PTR
      | Some s \<Rightarrow>
          if starts_with B64_PREFIX s then
            (case artifact_b64_decode out_max (drop (length B64_PREFIX) s) of
               None \<Rightarrow> Inl VIRP_ERR_INVALID_LENGTH
             | Some raw \<Rightarrow> Inr raw)
          else if length s > out_max then Inl VIRP_ERR_BUFFER_TOO_SMALL
          else Inr (string_bytes s))"

lemma b64_decode_length:
  "artifact_b64_decode room s = Some bs \<Longrightarrow> length bs \<le> room \<and> length bs \<le> length s div 4 * 3"
proof (induction room s arbitrary: bs rule: artifact_b64_decode.induct)
  case (2 room a b c d r)
  obtain q x where q: "b64_quantum (r = []) a b c d = Some q" and x: "artifact_b64_decode (room - length q) r = Some x"
      and le: "length q \<le> room" and bs: "bs = q @ x"
    using 2(2) by (auto split: option.splits if_splits)
  have "length q \<le> 3"
    using q by (auto simp: b64_quantum_def trip_bytes_def split: option.splits if_splits)
  moreover have "\<not> room < length q"
    using le by simp
  moreover have "length (a # b # c # d # r) div 4 = 1 + length r div 4"
    by simp
  ultimately show ?case
    using 2(1) [OF q _ x] le bs by auto
qed simp_all

text \<open>A larger buffer decodes the same octets.\<close>

lemma b64_decode_room:
  "artifact_b64_decode room s = Some bs \<Longrightarrow> length bs \<le> room' \<Longrightarrow> artifact_b64_decode room' s = Some bs"
proof (induction room s arbitrary: bs room' rule: artifact_b64_decode.induct)
  case (2 room a b c d r)
  obtain q x where q: "b64_quantum (r = []) a b c d = Some q" and x: "artifact_b64_decode (room - length q) r = Some x"
      and le: "length q \<le> room" and bs: "bs = q @ x"
    using 2(2) by (auto split: option.splits if_splits)
  have nl: "\<not> room < length q" and len: "length x \<le> room' - length q"
    using le 2(3) bs by auto
  have "artifact_b64_decode (room' - length q) r = Some x"
    using 2(1) [OF q nl x len] .
  then show ?case
    using q bs 2(3) by simp
qed simp_all

text \<open>The encoding the bodies are stored in (RFC 4648), which the decoder inverts.\<close>

definition sextet :: "nat \<Rightarrow> u32 \<Rightarrow> u32" where
  "sextet k t = take_bit 6 (drop_bit k t)"

definition b64_char :: "u32 \<Rightarrow> char" where
  "b64_char v =
     (let n = unat v
      in if n < 26 then char_of (65 + n) else if n < 52 then char_of (97 + (n - 26))
         else if n < 62 then char_of (48 + (n - 52)) else if n = 62 then CHR ''+'' else CHR ''/'')"

definition octets_trip :: "byte \<Rightarrow> byte \<Rightarrow> byte \<Rightarrow> u32" where
  "octets_trip a b c = push_bit 16 (ucast a) OR push_bit 8 (ucast b) OR ucast c"

fun b64_encode :: "bytes \<Rightarrow> string" where
  "b64_encode [] = []"
| "b64_encode [a] = (let t = octets_trip a 0 0 in [b64_char (sextet 18 t), b64_char (sextet 12 t), CHR ''='', CHR ''=''])"
| "b64_encode [a, b] = (let t = octets_trip a b 0
     in [b64_char (sextet 18 t), b64_char (sextet 12 t), b64_char (sextet 6 t), CHR ''=''])"
| "b64_encode (a # b # c # r) = (let t = octets_trip a b c
     in [b64_char (sextet 18 t), b64_char (sextet 12 t), b64_char (sextet 6 t), b64_char (sextet 0 t)] @ b64_encode r)"

lemma b64_char_val:
  assumes "unat v < 64"
  shows "artifact_b64_val (b64_char v) = Some v" and "b64_char v \<noteq> CHR ''=''"
proof -
  consider "unat v < 26" | "26 \<le> unat v" "unat v < 52" | "52 \<le> unat v" "unat v < 62" | "unat v = 62" | "unat v = 63"
    using assms by linarith
  then have c: "(of_char (b64_char v) :: nat) = (if unat v < 26 then 65 + unat v else if unat v < 52 then 71 + unat v
      else if unat v < 62 then unat v - 4 else if unat v = 62 then 43 else 47)"
    by cases (auto simp: b64_char_def)
  have eq: "b64_char v = CHR ''='' \<Longrightarrow> (of_char (b64_char v) :: nat) = 61"
    by simp
  have n: "v = of_nat (unat v)"
    by simp
  then have big: "unat v = 62 \<Longrightarrow> v = 62" "unat v = 63 \<Longrightarrow> v = 63"
    by (metis of_nat_numeral)+
  show "artifact_b64_val (b64_char v) = Some v"
    using assms big unfolding artifact_b64_val_def Let_def c by auto
  show "b64_char v \<noteq> CHR ''=''"
    using c eq assms by (auto split: if_splits)
qed

lemma sextet_bound: "unat (sextet k t) < 64"
  by (simp add: sextet_def take_bit_eq_mod unat_mod)

lemma b64_char_sextet [simp]:
  "artifact_b64_val (b64_char (sextet k t)) = Some (sextet k t)" "b64_char (sextet k t) \<noteq> CHR ''=''"
  using b64_char_val [OF sextet_bound] by blast+

lemma sextets_trip:
  "b64_trip (sextet 18 t) (sextet 12 t) (sextet 6 t) (sextet 0 t) = take_bit 24 t"
proof (rule bit_word_eqI)
  fix n
  assume "n < LENGTH(32)"
  then show "bit (b64_trip (sextet 18 t) (sextet 12 t) (sextet 6 t) (sextet 0 t)) n = bit (take_bit 24 t) n"
    by (cases "18 \<le> n"; cases "12 \<le> n"; cases "6 \<le> n") (auto simp: b64_trip_def sextet_def bit_simps)
qed

lemma trip_octets [simp]: "trip_bytes (take_bit 24 (octets_trip a b c)) = [a, b, c]"
  by (auto simp: trip_bytes_def octets_trip_def bit_simps bit_byte_ge intro!: bit_word_eqI)

lemma sextet_zero:
  "sextet 0 (octets_trip a b 0) = 0" "sextet 6 (octets_trip a 0 0) = 0" "sextet 0 (octets_trip a 0 0) = 0"
  by (auto simp: sextet_def octets_trip_def bit_simps bit_byte_ge intro!: bit_word_eqI)

lemma b64_encode_eq_Nil [simp]: "b64_encode bs = [] \<longleftrightarrow> bs = []"
  by (cases bs rule: b64_encode.cases) (simp_all add: Let_def)

lemma b64_roundtrip:
  "length bs \<le> room \<Longrightarrow> artifact_b64_decode room (b64_encode bs) = Some bs"
proof (induction bs arbitrary: room rule: b64_encode.induct)
  case (2 a)
  then show ?case
    using sextets_trip [of "octets_trip a 0 0"] trip_octets [of a 0 0]
    by (simp add: Let_def b64_quantum_def sextet_zero)
next
  case (3 a b)
  then show ?case
    using sextets_trip [of "octets_trip a b 0"] trip_octets [of a b 0]
    by (simp add: Let_def b64_quantum_def sextet_zero)
next
  case (4 a b c r)
  then show ?case
    by (simp add: Let_def b64_quantum_def sextets_trip)
qed simp

text \<open>The one-decoder rule: the octets a caller obtains are the octets the digest is of.\<close>

lemma artifact_bytes_digest:
  assumes "virp_chain_artifact_bytes n content = Inr raw"
  shows "virp_chain_artifact_digest C True content = Inr (sha256_hex C raw)"
proof (cases content)
  case (Some s)
  show ?thesis
  proof (cases "starts_with B64_PREFIX s")
    case True
    then have d: "artifact_b64_decode n (drop (length B64_PREFIX) s) = Some raw"
      using assms Some by (auto simp: virp_chain_artifact_bytes_def split: option.splits)
    have "length raw \<le> length (drop (length B64_PREFIX) s) div 4 * 3 + 3"
      using b64_decode_length [OF d] by simp
    then show ?thesis
      using b64_decode_room [OF d] True Some by (simp add: virp_chain_artifact_digest_def)
  qed (use assms Some in \<open>auto simp: virp_chain_artifact_bytes_def virp_chain_artifact_digest_def split: if_splits\<close>)
qed (use assms in \<open>simp add: virp_chain_artifact_bytes_def\<close>)

end
