(* ===== verification/Virp_Chain.thy ===== *)
theory Virp_Chain
  imports Virp_Artifact Virp_Json "HOL-Library.List_Lexorder" "HOL-Library.Char_ord"
begin

text \<open>
  The trust chain (\<open>src/virp_chain.c\<close>), writing side: the canonical
  texts, the tables, the append transaction, the intent and artifact stores, and the queries.
  A database is a record of its tables; rows are in the order of their rowids. Whether a
  statement succeeds, the clock, and the memory behind a stack buffer are an argument, the
  environment of a call. NULL in a signature column is the empty string, which is how the code
  reads it.
\<close>

section \<open>Canonical strings\<close>

definition virp_chain_artifact_hash_ok :: "string ptr \<Rightarrow> bool" where
  "virp_chain_artifact_hash_ok s =
     (case s of
        None \<Rightarrow> False
      | Some x \<Rightarrow> length x = 64 \<and>
          list_all (\<lambda>c. (CHR ''0'' \<le> c \<and> c \<le> CHR ''9'') \<or> (CHR ''a'' \<le> c \<and> c \<le> CHR ''f'')) x)"

text \<open>The continuation octets of a UTF-8 sequence, accumulating the code point.\<close>

fun utf8_tail :: "nat \<Rightarrow> u32 \<Rightarrow> string \<Rightarrow> (u32 \<times> string) option" where
  "utf8_tail 0 cp p = Some (cp, p)"
| "utf8_tail (Suc n) cp [] = None"
| "utf8_tail (Suc n) cp (c # p) =
     (if (of_char c :: u32) AND 0xC0 \<noteq> 0x80 then None
      else utf8_tail n (push_bit 6 cp OR (of_char c AND 0x3F)) p)"

lemma utf8_tail_length: "utf8_tail n cp p = Some (cp', r) \<Longrightarrow> length r \<le> length p"
  by (induction n cp p rule: utf8_tail.induct) (auto split: if_splits)

definition utf8_lead :: "u32 \<Rightarrow> (nat \<times> u32) option" where
  "utf8_lead c =
     (if c AND 0xE0 = 0xC0 then Some (1, c AND 0x1F)
      else if c AND 0xF0 = 0xE0 then Some (2, c AND 0x0F)
      else if c AND 0xF8 = 0xF0 then Some (3, c AND 0x07)
      else None)"

definition utf8_cp_ok :: "nat \<Rightarrow> u32 \<Rightarrow> bool" where
  "utf8_cp_ok need cp =
     (if need = 1 \<and> cp < 0x80 then False
      else if need = 2 \<and> cp < 0x800 then False
      else if need = 3 \<and> cp < 0x10000 then False
      else if cp > 0x10FFFF then False
      else if cp \<ge> 0xD800 \<and> cp \<le> 0xDFFF then False
      else True)"

text \<open>The octets after a sequence that starts with \<open>c\<close>, when the sequence is well formed.\<close>

definition utf8_next :: "char \<Rightarrow> string \<Rightarrow> string option" where
  "utf8_next c p =
     (case utf8_lead (of_char c) of
        None \<Rightarrow> None
      | Some (need, cp) \<Rightarrow>
          (case utf8_tail need cp p of
             None \<Rightarrow> None
           | Some (cp', r) \<Rightarrow> if utf8_cp_ok need cp' then Some r else None))"

lemma utf8_next_length: "utf8_next c p = Some r \<Longrightarrow> length r \<le> length p"
  by (auto simp: utf8_next_def split: option.splits prod.splits if_splits dest: utf8_tail_length)

function canonical_chars :: "string \<Rightarrow> bool" where
  "canonical_chars [] = True"
| "canonical_chars (c # p) =
     (if c = CHR 0x22 \<or> c = CHR 0x5C \<or> (of_char c :: u32) < 0x20 \<or> (of_char c :: u32) = 0x7F then False
      else if (of_char c :: u32) < 0x80 then canonical_chars p
      else (case utf8_next c p of None \<Rightarrow> False | Some r \<Rightarrow> canonical_chars r))"
  by pat_completeness auto
termination
  by (relation "measure length") (auto dest: utf8_next_length)

definition virp_chain_canonical_string_ok :: "string ptr \<Rightarrow> bool" where
  "virp_chain_canonical_string_ok s = (case s of None \<Rightarrow> False | Some x \<Rightarrow> canonical_chars x)"

text \<open>A continuation octet is neither a quote nor a backslash nor a control character.\<close>

lemma continuation_octet:
  assumes "(of_char c :: u32) AND 0xC0 = 0x80"
  shows "c \<noteq> CHR 0x22"
proof
  assume "c = CHR 0x22"
  with assms show False
    by simp
qed

lemma utf8_tail_quote_free:
  "utf8_tail n cp p = Some (cp', r) \<Longrightarrow> quote_free r \<Longrightarrow> quote_free p"
  by (induction n cp p rule: utf8_tail.induct)
    (auto simp: quote_free_def split: if_splits dest: continuation_octet)

lemma canonical_chars_quote_free: "canonical_chars s \<Longrightarrow> quote_free s"
proof (induction s rule: canonical_chars.induct)
  case (2 c p)
  note cond = 2(3) [unfolded canonical_chars.simps(2)]
  have ctl: "\<not> (c = CHR 0x22 \<or> c = CHR 0x5C \<or> (of_char c :: u32) < 0x20 \<or> (of_char c :: u32) = 0x7F)"
    using cond by (rule contrapos_pn) simp
  have "quote_free p"
  proof (cases "(of_char c :: u32) < 0x80")
    case True
    then show ?thesis
      using 2(1) [OF ctl] cond ctl by simp
  next
    case False
    then obtain r where r: "utf8_next c p = Some r" "canonical_chars r"
      using cond ctl by (auto split: option.splits)
    have "quote_free r"
      using 2(2) [OF ctl False r] .
    then show ?thesis
      using r(1) by (auto simp: utf8_next_def split: option.splits prod.splits if_splits dest: utf8_tail_quote_free)
  qed
  then show ?case
    using ctl by (auto simp: quote_free_def)
qed (simp add: quote_free_def)

lemma quote_free_take: "quote_free s \<Longrightarrow> quote_free (take n s)"
  by (auto simp: quote_free_def dest: in_set_takeD)

section \<open>Entries, tables and state\<close>

record virp_chain_entry_t =
  ce_session_id :: string
  ce_sequence :: int
  ce_chain_entry_hash :: string
  ce_previous_entry_hash :: string
  ce_timestamp_ns :: u64
  ce_monotonic_ns :: u64
  ce_artifact_type :: string
  ce_artifact_id :: string
  ce_artifact_hash :: string
  ce_artifact_hash_alg :: string
  ce_artifact_schema_version :: string
  ce_signer_node_id :: u32
  ce_signer_org_id :: string
  ce_chain_hmac :: string
  ce_chain_sig :: string
  ce_chain_sig_key_id :: string

record chain_head =
  ch_last_sequence :: int
  ch_last_entry_hash :: string
  ch_head_hmac :: string
  ch_updated_at_ns :: u64
  ch_head_sig :: string
  ch_head_sig_key_id :: string

record artifact_row =
  ar_artifact_id :: string
  ar_artifact_type :: string
  ar_artifact_content :: string
  ar_artifact_hash :: string
  ar_session_id :: string
  ar_created_at_ns :: u64

record milestone_row =
  mi_entries_covered :: int
  mi_cumulative_hash :: string
  mi_chain_hmac :: string
  mi_created_at_ns :: u64

record virp_intent_entry_t =
  ie_intent_id :: string
  ie_intent_hash :: string
  ie_confidence :: string
  ie_expires_at_ns :: int
  ie_max_commands :: int
  ie_commands_executed :: int
  ie_signature_hmac :: string
  ie_signature_seq :: int
  ie_signature_timestamp_ns :: u64
  ie_created_at_ns :: u64
  ie_intent_json :: string
  ie_proposed_actions :: string
  ie_constraints :: string

text \<open>
  \<open>db_in_txn\<close> says that the connection has an open transaction; \<open>db_tables\<close>, \<open>db_columns\<close> and
  \<open>db_artifacts_sql\<close> (the text that created the artifacts table) are the part of the schema the
  code inspects.
\<close>

record chain_db =
  db_entries :: "virp_chain_entry_t list"
  db_heads :: "string \<Rightarrow> chain_head option"
  db_artifacts :: "artifact_row list"
  db_milestones :: "string \<times> int \<Rightarrow> milestone_row option"
  db_intents :: "string \<Rightarrow> virp_intent_entry_t option"
  db_tables :: "string list"
  db_columns :: "(string \<times> string) list"
  db_artifacts_sql :: string
  db_in_txn :: bool

text \<open>
  \<open>cs_reads_sig\<close> and \<open>cs_reads_head_sig\<close>: the prepared SELECTs on the entries and on the heads
  are the variants that fetch the signature columns.
\<close>

record virp_chain_state_t =
  cs_db :: "chain_db ptr"
  cs_chain_key :: virp_signing_key_t
  cs_node_id :: u32
  cs_org_id :: string
  cs_native_epoch :: string
  cs_sign_enabled :: bool
  cs_sign_key :: virp_chainsign_key_t
  cs_entry_sig_cols :: bool
  cs_head_sig_cols :: bool
  cs_reads_sig :: bool
  cs_reads_head_sig :: bool
  cs_verify_sig_enabled :: bool
  cs_verify_pub :: bytes
  cs_verify_key_id_hex :: string
  cs_have_chain_key :: bool
  cs_read_only :: bool
  cs_legacy_no_heads :: bool

text \<open>
  The environment of one call: the readings of the clocks in the order of the calls, the
  octets that lie behind a stack buffer, whether each statement (by name) runs without an
  error of the store, and whether a COMMIT that failed left its transaction open.
\<close>

record chain_env =
  ev_wall :: "nat \<Rightarrow> u64"
  ev_mono :: u64
  ev_stack :: "nat \<Rightarrow> bytes"
  ev_sql :: "string \<Rightarrow> bool"
  ev_commit_open :: bool

section \<open>Canonical texts\<close>

definition dec_int :: "int \<Rightarrow> string" where
  "dec_int i = (if i < 0 then CHR ''-'' # dec (nat (- i)) else dec (nat i))"

text \<open>
  The octets a callee reads when it is given a buffer of \<open>n\<close> octets, filled by
  \<open>snprintf\<close>, together with the length \<open>snprintf\<close> returned: past the terminator they are not
  part of the buffer.
\<close>

definition printed :: "(nat \<Rightarrow> bytes) \<Rightarrow> nat \<Rightarrow> string \<Rightarrow> bytes" where
  "printed stack n s =
     (if length s < n then string_bytes s
      else string_bytes (take (n - 1) s) @ [0] @ stack (length s - n))"

definition VIRP_CHAIN_GENESIS_PREFIX :: string where
  "VIRP_CHAIN_GENESIS_PREFIX = ''VIRP_CHAIN_GENESIS:''"

definition compute_genesis_hash :: "crypto_lib \<Rightarrow> (nat \<Rightarrow> bytes) \<Rightarrow> string \<Rightarrow> string" where
  "compute_genesis_hash C stack session =
     sha256_hex C (printed stack 256 (VIRP_CHAIN_GENESIS_PREFIX @ session))"

definition qfield :: "string \<Rightarrow> string \<Rightarrow> string" where
  "qfield key v = CHR 0x22 # key @ [CHR 0x22, CHR '':'', CHR 0x22] @ v @ [CHR 0x22]"

definition nfield :: "string \<Rightarrow> string \<Rightarrow> string" where
  "nfield key v = CHR 0x22 # key @ [CHR 0x22, CHR '':''] @ v"

definition build_canonical_json :: "virp_chain_entry_t \<Rightarrow> string" where
  "build_canonical_json e =
     ''{'' @ qfield ''artifact_hash'' (ce_artifact_hash e) @ '','' @
     qfield ''artifact_hash_alg'' (ce_artifact_hash_alg e) @ '','' @
     qfield ''artifact_id'' (ce_artifact_id e) @ '','' @
     qfield ''artifact_schema_version'' (ce_artifact_schema_version e) @ '','' @
     qfield ''artifact_type'' (ce_artifact_type e) @ '','' @
     nfield ''monotonic_ns'' (dec (unat (ce_monotonic_ns e))) @ '','' @
     qfield ''previous_entry_hash'' (ce_previous_entry_hash e) @ '','' @
     nfield ''sequence'' (dec_int (ce_sequence e)) @ '','' @
     qfield ''session_id'' (ce_session_id e) @ '','' @
     nfield ''signer_node_id'' (dec (unat (ce_signer_node_id e))) @ '','' @
     qfield ''signer_org_id'' (ce_signer_org_id e) @ '','' @
     nfield ''timestamp_ns'' (dec (unat (ce_timestamp_ns e))) @ ''}''"

definition head_canonical :: "string \<Rightarrow> int \<Rightarrow> string \<Rightarrow> string" where
  "head_canonical session last_sequence last_hash =
     ''{'' @ qfield ''last_entry_hash'' last_hash @ '','' @
     nfield ''last_sequence'' (dec_int last_sequence) @ '','' @
     qfield ''session_id'' session @ '','' @
     qfield ''v'' ''VIRP-CHAIN-HEAD-v1'' @ ''}''"

definition milestone_json :: "string \<Rightarrow> int \<Rightarrow> int \<Rightarrow> string \<Rightarrow> string" where
  "milestone_json session sequence entries_covered cumulative_hash =
     ''{'' @ qfield ''cumulative_hash'' cumulative_hash @ '','' @
     nfield ''entries_covered'' (dec_int entries_covered) @ '','' @
     nfield ''sequence'' (dec_int sequence) @ '','' @
     qfield ''session_id'' session @ ''}''"

text \<open>What the canonical text of an entry covers.\<close>

definition entry_core :: "virp_chain_entry_t \<Rightarrow> _" where
  "entry_core e = (ce_artifact_hash e, ce_artifact_hash_alg e, ce_artifact_id e, ce_artifact_schema_version e,
     ce_artifact_type e, ce_monotonic_ns e, ce_previous_entry_hash e, ce_sequence e, ce_session_id e,
     ce_signer_node_id e, ce_signer_org_id e, ce_timestamp_ns e)"

definition entry_strings :: "virp_chain_entry_t \<Rightarrow> string list" where
  "entry_strings e = [ce_artifact_hash e, ce_artifact_hash_alg e, ce_artifact_id e, ce_artifact_schema_version e,
     ce_artifact_type e, ce_previous_entry_hash e, ce_session_id e, ce_signer_org_id e]"

lemma dec_int_end_inject:
  assumes "\<not> is_digit 10 c" and "\<not> is_digit 10 d"
  shows "dec_int n @ c # r = dec_int m @ d # s \<longleftrightarrow> n = m \<and> c = d \<and> r = s"
proof -
  have neg: "x # y \<noteq> CHR ''-'' # z" if "is_digit 10 x" for x :: char and y z
    using that by (auto simp: is_digit_def hexval_def)
  have "dec k @ u \<noteq> CHR ''-'' # z" for k u z
    using dec_digits(1) [of "hd (dec k)" k] dec_digits(2) [of k] neg [of "hd (dec k)" "tl (dec k) @ u" z]
    by (cases "dec k") auto
  then show ?thesis
    using assms by (auto simp: dec_int_def dec_end_inject dest: sym)
qed

lemma not_digit_sep [simp]: "\<not> is_digit 10 (CHR '','')" "\<not> is_digit 10 (CHR ''}'')"
  by (simp_all add: is_digit_def hexval_def)

lemma canonical_json_inject:
  assumes "list_all quote_free (entry_strings e)" and "list_all quote_free (entry_strings f)"
    and "build_canonical_json e = build_canonical_json f"
  shows "entry_core e = entry_core f"
  using assms
  by (simp add: build_canonical_json_def entry_core_def entry_strings_def qfield_def nfield_def
      quoted_inject dec_end_inject dec_int_end_inject dec_inject word_unat_eq_iff)

text \<open>
  Counting the quotes shows that the text of an entry without quotes in its strings is not the
  text of an entry that has some, so only one of the two sides has to be known to be clean.
\<close>

abbreviation quotes :: "string \<Rightarrow> nat" where
  "quotes s \<equiv> count_list s (CHR 0x22)"

lemma quotes_zero_iff: "quotes s = 0 \<longleftrightarrow> quote_free s"
  by (simp add: quote_free_def count_list_0_iff)

lemma quotes_dec [simp]: "quotes (dec n) = 0" "quotes (dec_int i) = 0"
proof -
  show d: "quotes (dec n) = 0" for n
    using dec_digits(1) [of "CHR 0x22" n] by (auto simp: count_list_0_iff is_digit_def hexval_def)
  show "quotes (dec_int i) = 0"
    by (simp add: dec_int_def d)
qed

lemma quotes_field [simp]:
  "quotes (qfield k v) = 4 + quotes k + quotes v" "quotes (nfield k v) = 2 + quotes k + quotes v"
  by (simp_all add: qfield_def nfield_def)

lemma quotes_canonical:
  "quotes (build_canonical_json e) = 40 + sum_list (map quotes (entry_strings e))"
  by (simp add: build_canonical_json_def entry_strings_def)

lemma canonical_json_inject_clean:
  assumes "list_all quote_free (entry_strings e)" and "build_canonical_json f = build_canonical_json e"
  shows "entry_core f = entry_core e"
proof (rule canonical_json_inject [OF _ assms])
  have "sum_list (map quotes (entry_strings e)) = 0"
    using assms(1) by (auto simp: list_all_iff quotes_zero_iff)
  then have "sum_list (map quotes (entry_strings f)) = 0"
    using arg_cong [OF assms(2), of quotes] unfolding quotes_canonical by simp
  then show "list_all quote_free (entry_strings f)"
    by (auto simp: list_all_iff quotes_zero_iff)
qed

section \<open>Appending\<close>

definition virp_chain_set_native_epoch ::
    "virp_chain_state_t ptr \<Rightarrow> string ptr \<Rightarrow> virp_error_t + virp_chain_state_t" where
  "virp_chain_set_native_epoch state epoch =
     (case (state, epoch) of
        (Some st, Some ep) \<Rightarrow>
          if length ep = 0 \<or> length ep > 16 then Inl VIRP_ERR_INVALID_LENGTH
          else if \<not> list_all (\<lambda>c. is_alnum c \<or> c = CHR ''-'') ep then Inl VIRP_ERR_INVALID_LENGTH
          else if cs_sign_enabled st \<and> cs_native_epoch st = [] then Inr (st\<lparr>cs_native_epoch := ep\<rparr>)
          else Inl VIRP_ERR_INVALID_LENGTH
      | _ \<Rightarrow> Inl VIRP_ERR_NULL_PTR)"

definition session_rows :: "chain_db \<Rightarrow> string \<Rightarrow> virp_chain_entry_t list" where
  "session_rows db s = filter (\<lambda>e. ce_session_id e = s) (db_entries db)"

text \<open>The row \<open>ORDER BY sequence DESC LIMIT 1\<close> delivers.\<close>

fun max_sequence_row :: "virp_chain_entry_t list \<Rightarrow> virp_chain_entry_t option" where
  "max_sequence_row [] = None"
| "max_sequence_row (e # es) =
     (case max_sequence_row es of
        None \<Rightarrow> Some e
      | Some f \<Rightarrow> if ce_sequence f < ce_sequence e then Some e else Some f)"

definition native_epoch_destination_locked ::
    "chain_env \<Rightarrow> virp_chain_state_t \<Rightarrow> chain_db \<Rightarrow> string \<Rightarrow> virp_error_t" where
  "native_epoch_destination_locked ev st db session =
     (if \<not> ev_sql ev ''epoch'' then VIRP_ERR_CHAIN_DB
      else if list_ex (\<lambda>e. ce_chain_sig e = [] \<or> ce_chain_sig_key_id e \<noteq> ck_key_id_hex (cs_sign_key st))
                (session_rows db session) then VIRP_ERR_CHAIN_DB
      else VIRP_OK)"

text \<open>The session an append goes to: native audit sessions move to the namespace of the epoch.\<close>

definition use_epoch :: "virp_chain_state_t \<Rightarrow> string \<Rightarrow> bool" where
  "use_epoch st session \<longleftrightarrow> cs_native_epoch st \<noteq> [] \<and>
     (starts_with ''approval:'' session \<or> starts_with ''gate-enforce:'' session \<or>
      starts_with ''node-config:'' session)"

definition append_session :: "virp_chain_state_t \<Rightarrow> string \<Rightarrow> virp_error_t + string" where
  "append_session st session =
     (if \<not> use_epoch st session then Inr session
      else if \<not> cs_sign_enabled st \<or> CHR ''@'' \<in> set session then Inl VIRP_ERR_INVALID_LENGTH
      else let s = session @ ''@'' @ cs_native_epoch st
           in if length s \<ge> 64 then Inl VIRP_ERR_INVALID_LENGTH else Inr s)"

definition artifact_id_conflicts :: "chain_db \<Rightarrow> string \<Rightarrow> string \<Rightarrow> bool" where
  "artifact_id_conflicts db aid ahash =
     list_ex (\<lambda>e. ce_artifact_id e = aid \<and> ce_artifact_hash e \<noteq> ahash) (db_entries db)"

text \<open>Sequence number and link of the next entry; a failing query reads as an empty session.\<close>

definition next_link :: "crypto_lib \<Rightarrow> chain_env \<Rightarrow> chain_db \<Rightarrow> string \<Rightarrow> int \<times> string" where
  "next_link C ev db session =
     (case (if ev_sql ev ''get_last'' then max_sequence_row (session_rows db session) else None) of
        Some e \<Rightarrow> (ce_sequence e + 1, take 64 (ce_chain_entry_hash e))
      | None \<Rightarrow> (0, compute_genesis_hash C (ev_stack ev) session))"

definition new_entry ::
    "chain_env \<Rightarrow> virp_chain_state_t \<Rightarrow> string \<Rightarrow> int \<Rightarrow> string \<Rightarrow> string \<Rightarrow> string \<Rightarrow> string \<Rightarrow> virp_chain_entry_t" where
  "new_entry ev st session next_seq prev_hash atype aid ahash =
     \<lparr>ce_session_id = take 63 session, ce_sequence = next_seq, ce_chain_entry_hash = [],
      ce_previous_entry_hash = take 64 prev_hash,
      ce_timestamp_ns = ev_wall ev 0, ce_monotonic_ns = ev_mono ev,
      ce_artifact_type = take 15 atype, ce_artifact_id = take 127 aid, ce_artifact_hash = take 64 ahash,
      ce_artifact_hash_alg = ''sha256'', ce_artifact_schema_version = ''1'',
      ce_signer_node_id = cs_node_id st, ce_signer_org_id = take 63 (cs_org_id st),
      ce_chain_hmac = [], ce_chain_sig = [], ce_chain_sig_key_id = []\<rparr>"

definition chain_sign_hex :: "crypto_lib \<Rightarrow> virp_chain_state_t \<Rightarrow> string \<Rightarrow> bytes \<Rightarrow> virp_error_t + string" where
  "chain_sign_hex C st tag msg =
     (case virp_chainsign_sign C (Some (cs_sign_key st)) (Some tag) (Some msg) of
        Inl e \<Rightarrow> Inl VIRP_ERR_CRYPTO
      | Inr sig \<Rightarrow> Inr (virp_chainsign_sig_to_hex sig))"

text \<open>Hash, MAC and signature over the canonical text.\<close>

definition seal_entry ::
    "crypto_lib \<Rightarrow> virp_chain_state_t \<Rightarrow> virp_chain_entry_t \<Rightarrow> virp_error_t + virp_chain_entry_t" where
  "seal_entry C st e =
     (let canonical = build_canonical_json e
      in if length canonical \<ge> 2048 then Inl VIRP_ERR_BUFFER_TOO_SMALL
         else (case hmac_sha256_hex C (sk_key (cs_chain_key st)) (string_bytes canonical) of
                 Inl x \<Rightarrow> Inl VIRP_ERR_CRYPTO
               | Inr mac \<Rightarrow>
                   let e1 = e\<lparr>ce_chain_entry_hash := sha256_hex C (string_bytes canonical), ce_chain_hmac := mac\<rparr>
                   in if \<not> cs_sign_enabled st then Inr e1
                      else (case chain_sign_hex C st VIRP_CHAINSIGN_TAG_ENTRY (string_bytes canonical) of
                              Inl x \<Rightarrow> Inl x
                            | Inr sig \<Rightarrow> Inr (e1\<lparr>ce_chain_sig := take 128 sig,
                                ce_chain_sig_key_id := take 32 (ck_key_id_hex (cs_sign_key st))\<rparr>))))"

text \<open>The INSERT, with the two uniqueness constraints of the table.\<close>

definition insert_entry :: "chain_env \<Rightarrow> virp_chain_entry_t \<Rightarrow> chain_db \<Rightarrow> virp_error_t + chain_db" where
  "insert_entry ev e db =
     (if \<not> ev_sql ev ''insert'' then Inl VIRP_ERR_CHAIN_DB
      else if list_ex (\<lambda>f. (ce_session_id f = ce_session_id e \<and> ce_sequence f = ce_sequence e) \<or>
                           ce_chain_entry_hash f = ce_chain_entry_hash e) (db_entries db) then Inl VIRP_ERR_CHAIN_DB
      else Inr (db\<lparr>db_entries := db_entries db @ [e]\<rparr>))"

definition head_hmac_hex ::
    "crypto_lib \<Rightarrow> (nat \<Rightarrow> bytes) \<Rightarrow> virp_chain_state_t \<Rightarrow> string \<Rightarrow> int \<Rightarrow> string \<Rightarrow> virp_error_t + string" where
  "head_hmac_hex C stack st session last_sequence last_hash =
     hmac_sha256_hex C (sk_key (cs_chain_key st))
       (printed stack 512 (head_canonical session last_sequence last_hash))"

definition head_upsert_locked ::
    "crypto_lib \<Rightarrow> chain_env \<Rightarrow> virp_chain_state_t \<Rightarrow> string \<Rightarrow> int \<Rightarrow> string \<Rightarrow> chain_db \<Rightarrow> virp_error_t + chain_db" where
  "head_upsert_locked C ev st session last_sequence last_hash db =
     (case head_hmac_hex C (ev_stack ev) st session last_sequence last_hash of
        Inl e \<Rightarrow> Inl VIRP_ERR_CRYPTO
      | Inr mac \<Rightarrow>
          let canonical = printed (ev_stack ev) 512 (head_canonical session last_sequence last_hash);
              row = \<lparr>ch_last_sequence = last_sequence, ch_last_entry_hash = last_hash, ch_head_hmac = mac,
                     ch_updated_at_ns = ev_wall ev 1, ch_head_sig = [], ch_head_sig_key_id = []\<rparr>
          in (case (if cs_sign_enabled st
                    then (case chain_sign_hex C st VIRP_CHAINSIGN_TAG_HEAD canonical of
                            Inl e \<Rightarrow> Inl e
                          | Inr sig \<Rightarrow> Inr (row\<lparr>ch_head_sig := sig,
                                             ch_head_sig_key_id := ck_key_id_hex (cs_sign_key st)\<rparr>))
                    else Inr row) of
                Inl e \<Rightarrow> Inl e
              | Inr r \<Rightarrow> if \<not> ev_sql ev ''head'' then Inl VIRP_ERR_CHAIN_DB
                          else Inr (db\<lparr>db_heads := (db_heads db)(session \<mapsto> r)\<rparr>)))"

text \<open>Storing a body: one row for a pair of id and hash, and a stored row stays.\<close>

definition artifact_insert :: "artifact_row \<Rightarrow> chain_db \<Rightarrow> chain_db" where
  "artifact_insert r db =
     (if list_ex (\<lambda>a. ar_artifact_id a = ar_artifact_id r \<and> ar_artifact_hash a = ar_artifact_hash r)
           (db_artifacts db) then db
      else db\<lparr>db_artifacts := db_artifacts db @ [r]\<rparr>)"

definition chain_artifact_store_locked ::
    "chain_env \<Rightarrow> virp_chain_state_t \<Rightarrow> string \<Rightarrow> string \<Rightarrow> string \<Rightarrow> string \<Rightarrow> string \<Rightarrow> chain_db \<Rightarrow>
     virp_error_t + chain_db" where
  "chain_artifact_store_locked ev st aid atype content ahash session db =
     (if content = [] then Inl VIRP_ERR_NULL_PTR
      else if cs_read_only st then Inl VIRP_ERR_CHAIN_READONLY
      else if \<not> ev_sql ev ''artifact'' then Inl VIRP_ERR_CHAIN_DB
      else Inr (artifact_insert \<lparr>ar_artifact_id = aid, ar_artifact_type = atype, ar_artifact_content = content,
                  ar_artifact_hash = ahash, ar_session_id = session, ar_created_at_ns = ev_wall ev 2\<rparr> db))"

definition virp_chain_artifact_store ::
    "chain_env \<Rightarrow> virp_chain_state_t ptr \<Rightarrow> string ptr \<Rightarrow> string ptr \<Rightarrow> string ptr \<Rightarrow> string ptr \<Rightarrow> string ptr \<Rightarrow>
     virp_error_t + virp_chain_state_t" where
  "virp_chain_artifact_store ev state aid atype content ahash session =
     (case state of
        None \<Rightarrow> Inl VIRP_ERR_NULL_PTR
      | Some st \<Rightarrow>
          (case (cs_db st, aid, atype, content, ahash, session) of
             (Some db, Some i, Some t, Some c, Some h, Some s) \<Rightarrow>
               sbind (chain_artifact_store_locked ev st i t c h s db) (\<lambda>db'. Inr (st\<lparr>cs_db := Some db'\<rparr>))
           | _ \<Rightarrow> Inl VIRP_ERR_NULL_PTR))"

definition VIRP_CHAIN_MILESTONE_INTERVAL :: int where [simp]: "VIRP_CHAIN_MILESTONE_INTERVAL = 100"

definition insert_milestone ::
    "crypto_lib \<Rightarrow> chain_env \<Rightarrow> virp_chain_state_t \<Rightarrow> string \<Rightarrow> int \<Rightarrow> int \<Rightarrow> string \<Rightarrow> chain_db \<Rightarrow> virp_error_t + chain_db" where
  "insert_milestone C ev st session sequence entries_covered cumulative_hash db =
     (case hmac_sha256_hex C (sk_key (cs_chain_key st))
             (printed (ev_stack ev) 512 (milestone_json session sequence entries_covered cumulative_hash)) of
        Inl e \<Rightarrow> Inl VIRP_ERR_CRYPTO
      | Inr mac \<Rightarrow>
          if \<not> ev_sql ev ''milestone'' then Inl VIRP_ERR_CHAIN_DB
          else Inr (db\<lparr>db_milestones := (db_milestones db)((session, sequence) \<mapsto>
                 \<lparr>mi_entries_covered = entries_covered, mi_cumulative_hash = cumulative_hash,
                  mi_chain_hmac = mac, mi_created_at_ns = ev_wall ev 3\<rparr>)\<rparr>))"

text \<open>Inside the transaction: every error here is followed by a ROLLBACK.\<close>

definition federation_gate ::
    "chain_env \<Rightarrow> chain_db \<Rightarrow> string \<Rightarrow> string \<Rightarrow> string \<Rightarrow> virp_error_t + unit" where
  "federation_gate ev db atype aid ahash =
     (if \<not> virp_chain_type_is_federation (Some atype) then Inr ()
      else if \<not> ev_sql ev ''gate5'' then Inl VIRP_ERR_CHAIN_DB
      else if artifact_id_conflicts db aid ahash then Inl VIRP_ERR_DUPLICATE_MISMATCH
      else Inr ())"

definition epoch_gate :: "chain_env \<Rightarrow> virp_chain_state_t \<Rightarrow> chain_db \<Rightarrow> bool \<Rightarrow> string \<Rightarrow> virp_error_t + unit" where
  "epoch_gate ev st db use session =
     (if use \<and> native_epoch_destination_locked ev st db session \<noteq> VIRP_OK then Inl VIRP_ERR_CHAIN_DB
      else Inr ())"

definition store_body ::
    "chain_env \<Rightarrow> virp_chain_state_t \<Rightarrow> string \<Rightarrow> string \<Rightarrow> string ptr \<Rightarrow> string \<Rightarrow> string \<Rightarrow> chain_db \<Rightarrow> virp_error_t + chain_db" where
  "store_body ev st aid atype content ahash session db =
     (case content of
        None \<Rightarrow> Inr db
      | Some c \<Rightarrow>
          if c = [] then Inr db
          else (case chain_artifact_store_locked ev st aid atype c ahash session db of
                  Inl e \<Rightarrow> Inl VIRP_ERR_CHAIN_DB
                | Inr db' \<Rightarrow> Inr db'))"

definition append_txn ::
    "crypto_lib \<Rightarrow> chain_env \<Rightarrow> virp_chain_state_t \<Rightarrow> bool \<Rightarrow> string \<Rightarrow> string \<Rightarrow> string \<Rightarrow> string \<Rightarrow> string ptr \<Rightarrow>
     chain_db \<Rightarrow> virp_error_t + virp_chain_entry_t \<times> chain_db" where
  "append_txn C ev st use session atype aid ahash content db =
     sbind (epoch_gate ev st db use session) (\<lambda>_.
     sbind (federation_gate ev db atype aid ahash) (\<lambda>_.
     let (next_seq, prev_hash) = next_link C ev db session
     in sbind (seal_entry C st (new_entry ev st session next_seq prev_hash atype aid ahash)) (\<lambda>e.
        sbind (insert_entry ev e db) (\<lambda>db1.
        case head_upsert_locked C ev st session next_seq (ce_chain_entry_hash e) db1 of
          Inl x \<Rightarrow> Inl VIRP_ERR_CHAIN_DB
        | Inr db2 \<Rightarrow> sbind (store_body ev st aid atype content ahash session db2) (\<lambda>db3. Inr (e, db3))))))"

definition append_milestone ::
    "crypto_lib \<Rightarrow> chain_env \<Rightarrow> virp_chain_state_t \<Rightarrow> string \<Rightarrow> virp_chain_entry_t \<Rightarrow> chain_db \<Rightarrow> chain_db" where
  "append_milestone C ev st session e db =
     (if ce_sequence e > 0 \<and> ce_sequence e mod VIRP_CHAIN_MILESTONE_INTERVAL = 0
      then (case insert_milestone C ev st session (ce_sequence e) VIRP_CHAIN_MILESTONE_INTERVAL
                   (ce_chain_entry_hash e) db of
              Inl x \<Rightarrow> db
            | Inr db' \<Rightarrow> db')
      else db)"

definition chain_append_locked ::
    "crypto_lib \<Rightarrow> chain_env \<Rightarrow> virp_chain_state_t \<Rightarrow> string ptr \<Rightarrow> string ptr \<Rightarrow> string ptr \<Rightarrow> string ptr \<Rightarrow> string ptr \<Rightarrow>
     (virp_error_t + virp_chain_entry_t) \<times> virp_chain_state_t" where
  "chain_append_locked C ev st session atype aid ahash content =
     (case (session, atype, aid, ahash) of
        (Some s0, Some t, Some i, Some h) \<Rightarrow>
          if cs_read_only st then (Inl VIRP_ERR_CHAIN_READONLY, st)
          else (case append_session st s0 of
            Inl e \<Rightarrow> (Inl e, st)
          | Inr s \<Rightarrow>
              if \<not> virp_chain_canonical_string_ok (Some s) \<or> \<not> virp_chain_canonical_string_ok (Some t) \<or>
                 \<not> virp_chain_canonical_string_ok (Some i) \<or> \<not> virp_chain_artifact_hash_ok (Some h)
              then (Inl VIRP_ERR_INVALID_LENGTH, st)
              else (case cs_db st of
                None \<Rightarrow> (Inl VIRP_ERR_CHAIN_DB, st)
              | Some db \<Rightarrow>
                  if db_in_txn db \<or> \<not> ev_sql ev ''begin'' then (Inl VIRP_ERR_CHAIN_DB, st)
                  else (case append_txn C ev st (use_epoch st s0) s t i h content db of
                    Inl e \<Rightarrow> (Inl e, st)
                  | Inr (e, db') \<Rightarrow>
                      if \<not> ev_sql ev ''commit'' then
                        (Inl VIRP_ERR_CHAIN_DB,
                         if ev_commit_open ev then st\<lparr>cs_db := Some (db'\<lparr>db_in_txn := True\<rparr>)\<rparr> else st)
                      else (Inr e, st\<lparr>cs_db := Some (append_milestone C ev st s e db')\<rparr>))))
      | _ \<Rightarrow> (Inl VIRP_ERR_NULL_PTR, st))"

definition virp_chain_append ::
    "crypto_lib \<Rightarrow> chain_env \<Rightarrow> virp_chain_state_t ptr \<Rightarrow> string ptr \<Rightarrow> string ptr \<Rightarrow> string ptr \<Rightarrow> string ptr \<Rightarrow>
     (virp_error_t + virp_chain_entry_t) \<times> virp_chain_state_t ptr" where
  "virp_chain_append C ev state session atype aid ahash =
     (case state of
        None \<Rightarrow> (Inl VIRP_ERR_NULL_PTR, None)
      | Some st \<Rightarrow> apsnd Some (chain_append_locked C ev st session atype aid ahash None))"

definition virp_chain_append_with_artifact ::
    "crypto_lib \<Rightarrow> chain_env \<Rightarrow> virp_chain_state_t ptr \<Rightarrow> string ptr \<Rightarrow> string ptr \<Rightarrow> string ptr \<Rightarrow> string ptr \<Rightarrow>
     string ptr \<Rightarrow> (virp_error_t + virp_chain_entry_t) \<times> virp_chain_state_t ptr" where
  "virp_chain_append_with_artifact C ev state session atype aid ahash content =
     (case state of
        None \<Rightarrow> (Inl VIRP_ERR_NULL_PTR, None)
      | Some st \<Rightarrow> apsnd Some (chain_append_locked C ev st session atype aid ahash content))"

section \<open>Queries\<close>

definition read_entry_from_stmt :: "bool \<Rightarrow> virp_chain_entry_t \<Rightarrow> virp_chain_entry_t" where
  "read_entry_from_stmt sig_columns r =
     \<lparr>ce_session_id = take 63 (ce_session_id r), ce_sequence = ce_sequence r,
      ce_chain_entry_hash = take 64 (ce_chain_entry_hash r),
      ce_previous_entry_hash = take 64 (ce_previous_entry_hash r),
      ce_timestamp_ns = ce_timestamp_ns r, ce_monotonic_ns = ce_monotonic_ns r,
      ce_artifact_type = take 15 (ce_artifact_type r), ce_artifact_id = take 127 (ce_artifact_id r),
      ce_artifact_hash = take 64 (ce_artifact_hash r), ce_artifact_hash_alg = take 7 (ce_artifact_hash_alg r),
      ce_artifact_schema_version = take 7 (ce_artifact_schema_version r),
      ce_signer_node_id = ce_signer_node_id r, ce_signer_org_id = take 63 (ce_signer_org_id r),
      ce_chain_hmac = take 64 (ce_chain_hmac r),
      ce_chain_sig = (if sig_columns then take 128 (ce_chain_sig r) else []),
      ce_chain_sig_key_id = (if sig_columns then take 32 (ce_chain_sig_key_id r) else [])\<rparr>"

definition chain_get_last_locked ::
    "chain_env \<Rightarrow> virp_chain_state_t \<Rightarrow> string ptr \<Rightarrow> virp_error_t + virp_chain_entry_t" where
  "chain_get_last_locked ev st session =
     (case session of
        None \<Rightarrow> Inl VIRP_ERR_NULL_PTR
      | Some s \<Rightarrow>
          (case (cs_db st, ev_sql ev ''get_last'') of
             (Some db, True) \<Rightarrow>
               (case max_sequence_row (session_rows db s) of
                  Some r \<Rightarrow> Inr (read_entry_from_stmt (cs_reads_sig st) r)
                | None \<Rightarrow> Inl VIRP_ERR_CHAIN_SEQUENCE)
           | _ \<Rightarrow> Inl VIRP_ERR_CHAIN_SEQUENCE))"

definition virp_chain_get_last ::
    "chain_env \<Rightarrow> virp_chain_state_t ptr \<Rightarrow> string ptr \<Rightarrow> virp_error_t + virp_chain_entry_t" where
  "virp_chain_get_last ev state session =
     (case state of None \<Rightarrow> Inl VIRP_ERR_NULL_PTR | Some st \<Rightarrow> chain_get_last_locked ev st session)"

text \<open>The probes: a one-off SELECT with a predicate on the rows of one table.\<close>

definition entry_probe ::
    "chain_env \<Rightarrow> virp_chain_state_t ptr \<Rightarrow> string ptr \<Rightarrow> (string \<Rightarrow> virp_chain_entry_t \<Rightarrow> bool) \<Rightarrow> virp_error_t + bool" where
  "entry_probe ev state key P =
     (case (state, key) of
        (Some st, Some k) \<Rightarrow>
          (case (cs_db st, ev_sql ev ''probe'') of
             (Some db, True) \<Rightarrow> Inr (list_ex (P k) (db_entries db))
           | _ \<Rightarrow> Inl VIRP_ERR_CHAIN_DB)
      | _ \<Rightarrow> Inl VIRP_ERR_NULL_PTR)"

definition virp_chain_artifact_type_exists ::
    "chain_env \<Rightarrow> virp_chain_state_t ptr \<Rightarrow> string ptr \<Rightarrow> string ptr \<Rightarrow> virp_error_t + bool" where
  "virp_chain_artifact_type_exists ev state aid atype =
     entry_probe ev state aid (\<lambda>i e. ce_artifact_id e = i \<and>
       (case atype of None \<Rightarrow> True | Some t \<Rightarrow> ce_artifact_type e = t))"

definition virp_chain_artifact_exists ::
    "chain_env \<Rightarrow> virp_chain_state_t ptr \<Rightarrow> string ptr \<Rightarrow> virp_error_t + bool" where
  "virp_chain_artifact_exists ev state aid = virp_chain_artifact_type_exists ev state aid None"

definition virp_chain_artifact_body_exists ::
    "chain_env \<Rightarrow> virp_chain_state_t ptr \<Rightarrow> string ptr \<Rightarrow> virp_error_t + bool" where
  "virp_chain_artifact_body_exists ev state ahash =
     (case (state, ahash) of
        (Some st, Some h) \<Rightarrow>
          (case (cs_db st, ev_sql ev ''probe'') of
             (Some db, True) \<Rightarrow> Inr (list_ex (\<lambda>a. ar_artifact_hash a = h) (db_artifacts db))
           | _ \<Rightarrow> Inl VIRP_ERR_CHAIN_DB)
      | _ \<Rightarrow> Inl VIRP_ERR_NULL_PTR)"

definition virp_chain_entry_commits_to ::
    "chain_env \<Rightarrow> virp_chain_state_t ptr \<Rightarrow> string ptr \<Rightarrow> virp_error_t + bool" where
  "virp_chain_entry_commits_to ev state ahash =
     entry_probe ev state ahash (\<lambda>h e. ce_artifact_hash e = h \<and>
       ce_artifact_type e \<in> set [''observation'', ''fed_observation''])"

definition virp_chain_error_entry_commits_to ::
    "chain_env \<Rightarrow> virp_chain_state_t ptr \<Rightarrow> string ptr \<Rightarrow> virp_error_t + bool" where
  "virp_chain_error_entry_commits_to ev state ahash =
     entry_probe ev state ahash (\<lambda>h e. ce_artifact_hash e = h \<and> ce_artifact_type e = ''fed_error'')"

definition virp_chain_artifact_id_conflict ::
    "chain_env \<Rightarrow> virp_chain_state_t ptr \<Rightarrow> string ptr \<Rightarrow> string ptr \<Rightarrow> virp_error_t + bool" where
  "virp_chain_artifact_id_conflict ev state aid ahash =
     (case (state, aid, ahash) of
        (Some st, Some i, Some h) \<Rightarrow>
          (case (cs_db st, ev_sql ev ''probe'') of
             (Some db, True) \<Rightarrow> Inr (artifact_id_conflicts db i h)
           | _ \<Rightarrow> Inl VIRP_ERR_CHAIN_DB)
      | _ \<Rightarrow> Inl VIRP_ERR_NULL_PTR)"

section \<open>The intent store\<close>

definition populate_intent_from_row :: "virp_intent_entry_t \<Rightarrow> virp_intent_entry_t" where
  "populate_intent_from_row r =
     r\<lparr>ie_intent_id := take 127 (ie_intent_id r), ie_intent_hash := take 64 (ie_intent_hash r),
       ie_intent_json := take 8191 (ie_intent_json r), ie_confidence := take 15 (ie_confidence r),
       ie_proposed_actions := take 8191 (ie_proposed_actions r), ie_constraints := take 511 (ie_constraints r),
       ie_signature_hmac := take 64 (ie_signature_hmac r)\<rparr>"

text \<open>INSERT OR REPLACE with a counter of zero.\<close>

definition chain_intent_store_locked ::
    "crypto_lib \<Rightarrow> chain_env \<Rightarrow> virp_chain_state_t \<Rightarrow> virp_intent_entry_t ptr \<Rightarrow>
     (virp_error_t + virp_intent_entry_t) \<times> virp_chain_state_t" where
  "chain_intent_store_locked C ev st entry =
     (case (cs_db st, entry) of
        (Some db, Some en) \<Rightarrow>
          if cs_read_only st then (Inl VIRP_ERR_CHAIN_READONLY, st)
          else (case hmac_sha256_hex C (sk_key (cs_chain_key st)) (string_bytes (ie_intent_hash en)) of
                  Inl e \<Rightarrow> (Inl VIRP_ERR_CRYPTO, st)
                | Inr mac \<Rightarrow>
                    let row = en\<lparr>ie_signature_hmac := mac, ie_created_at_ns := ev_wall ev 0,
                                 ie_signature_timestamp_ns := ev_wall ev 0, ie_commands_executed := 0\<rparr>
                    in if \<not> ev_sql ev ''intent_insert'' then (Inl VIRP_ERR_CHAIN_DB, st)
                       else (Inr row, st\<lparr>cs_db := Some (db\<lparr>db_intents := (db_intents db)(ie_intent_id en \<mapsto> row)\<rparr>)\<rparr>))
      | _ \<Rightarrow> (Inl VIRP_ERR_NULL_PTR, st))"

definition chain_intent_get_locked ::
    "chain_env \<Rightarrow> virp_chain_state_t \<Rightarrow> string ptr \<Rightarrow> virp_error_t + virp_intent_entry_t" where
  "chain_intent_get_locked ev st iid =
     (case (cs_db st, iid) of
        (Some db, Some i) \<Rightarrow>
          (case (if ev_sql ev ''intent_get'' then db_intents db i else None) of
             Some r \<Rightarrow> Inr (populate_intent_from_row r)
           | None \<Rightarrow> Inl VIRP_ERR_INTENT_NOT_FOUND)
      | _ \<Rightarrow> Inl VIRP_ERR_NULL_PTR)"

text \<open>The conditional UPDATE: the counter moves only below the quota.\<close>

definition intent_bump :: "string \<Rightarrow> chain_db \<Rightarrow> chain_db option" where
  "intent_bump i db =
     (case db_intents db i of
        None \<Rightarrow> None
      | Some r \<Rightarrow>
          if ie_commands_executed r < ie_max_commands r
          then Some (db\<lparr>db_intents := (db_intents db)(i \<mapsto> r\<lparr>ie_commands_executed := ie_commands_executed r + 1\<rparr>)\<rparr>)
          else None)"

definition chain_intent_execute_locked ::
    "chain_env \<Rightarrow> virp_chain_state_t \<Rightarrow> string ptr \<Rightarrow> (virp_error_t + virp_intent_entry_t) \<times> virp_chain_state_t" where
  "chain_intent_execute_locked ev st iid =
     (case (cs_db st, iid) of
        (Some db, Some i) \<Rightarrow>
          if cs_read_only st then (Inl VIRP_ERR_CHAIN_READONLY, st)
          else if \<not> ev_sql ev ''intent_execute'' then (Inl VIRP_ERR_CHAIN_DB, st)
          else (case intent_bump i db of
                  None \<Rightarrow>
                    (case chain_intent_get_locked ev st iid of
                       Inl e \<Rightarrow> (Inl VIRP_ERR_INTENT_NOT_FOUND, st)
                     | Inr r \<Rightarrow> (Inl VIRP_ERR_INTENT_EXHAUSTED, st))
                | Some db' \<Rightarrow>
                    let st' = st\<lparr>cs_db := Some db'\<rparr> in (chain_intent_get_locked ev st' iid, st'))
      | _ \<Rightarrow> (Inl VIRP_ERR_NULL_PTR, st))"

definition virp_chain_intent_store ::
    "crypto_lib \<Rightarrow> chain_env \<Rightarrow> virp_chain_state_t ptr \<Rightarrow> virp_intent_entry_t ptr \<Rightarrow>
     (virp_error_t + virp_intent_entry_t) \<times> virp_chain_state_t ptr" where
  "virp_chain_intent_store C ev state entry =
     (case state of
        None \<Rightarrow> (Inl VIRP_ERR_NULL_PTR, None)
      | Some st \<Rightarrow> apsnd Some (chain_intent_store_locked C ev st entry))"

definition virp_chain_intent_get ::
    "chain_env \<Rightarrow> virp_chain_state_t ptr \<Rightarrow> string ptr \<Rightarrow> virp_error_t + virp_intent_entry_t" where
  "virp_chain_intent_get ev state iid =
     (case state of None \<Rightarrow> Inl VIRP_ERR_NULL_PTR | Some st \<Rightarrow> chain_intent_get_locked ev st iid)"

definition virp_chain_intent_execute ::
    "chain_env \<Rightarrow> virp_chain_state_t ptr \<Rightarrow> string ptr \<Rightarrow>
     (virp_error_t + virp_intent_entry_t) \<times> virp_chain_state_t ptr" where
  "virp_chain_intent_execute ev state iid =
     (case state of
        None \<Rightarrow> (Inl VIRP_ERR_NULL_PTR, None)
      | Some st \<Rightarrow> apsnd Some (chain_intent_execute_locked ev st iid))"

section \<open>The chain of a session\<close>

text \<open>
  Consecutive numbers, each entry linked to the one before and hashed over its canonical text;
  \<open>P\<close> is what else is required of each entry.
\<close>

fun linked :: "crypto_lib \<Rightarrow> (virp_chain_entry_t \<Rightarrow> bool) \<Rightarrow> string \<Rightarrow> int \<Rightarrow> virp_chain_entry_t list \<Rightarrow> bool" where
  "linked C P prev n [] = True"
| "linked C P prev n (e # es) \<longleftrightarrow>
     ce_sequence e = n \<and> ce_previous_entry_hash e = prev \<and> length (build_canonical_json e) < 2048 \<and>
     ce_chain_entry_hash e = sha256_hex C (string_bytes (build_canonical_json e)) \<and> P e \<and>
     linked C P (ce_chain_entry_hash e) (n + 1) es"

definition end_hash :: "string \<Rightarrow> virp_chain_entry_t list \<Rightarrow> string" where
  "end_hash prev es = (if es = [] then prev else ce_chain_entry_hash (last es))"

lemma end_hash_simps [simp]:
  "end_hash prev [] = prev" "end_hash prev (es @ [e]) = ce_chain_entry_hash e"
  by (simp_all add: end_hash_def)

lemma linked_snoc:
  "linked C P prev n (es @ [e]) \<longleftrightarrow> linked C P prev n es \<and>
     ce_sequence e = n + int (length es) \<and> ce_previous_entry_hash e = end_hash prev es \<and>
     length (build_canonical_json e) < 2048 \<and>
     ce_chain_entry_hash e = sha256_hex C (string_bytes (build_canonical_json e)) \<and> P e"
proof (induction es arbitrary: prev n)
  case (Cons a es)
  have eqs: "end_hash prev (a # es) = end_hash (ce_chain_entry_hash a) es"
      "n + int (length (a # es)) = n + 1 + int (length es)"
    by (simp_all add: end_hash_def)
  show ?case
    unfolding append_Cons linked.simps Cons.IH eqs by (simp only: conj_assoc)
qed (simp only: append_Nil linked.simps, simp)

lemma linked_nth: "linked C P prev n es \<Longrightarrow> i < length es \<Longrightarrow> ce_sequence (es ! i) = n + int i \<and> P (es ! i)"
proof (induction es arbitrary: prev n i)
  case (Cons e es)
  then have "linked C P (ce_chain_entry_hash e) (n + 1) es" "ce_sequence e = n" "P e"
    unfolding linked.simps by blast+
  then show ?case
    using Cons.IH [of "ce_chain_entry_hash e" "n + 1" "i - 1"] Cons.prems(2) by (cases i) auto
qed simp

lemma linked_hash:
  "linked C P prev n es \<Longrightarrow> i < length es \<Longrightarrow>
     ce_chain_entry_hash (es ! i) = sha256_hex C (string_bytes (build_canonical_json (es ! i)))"
proof (induction es arbitrary: prev n i)
  case (Cons e es)
  then have "linked C P (ce_chain_entry_hash e) (n + 1) es"
      "ce_chain_entry_hash e = sha256_hex C (string_bytes (build_canonical_json e))"
    unfolding linked.simps by blast+
  then show ?case
    using Cons.IH [of "ce_chain_entry_hash e" "n + 1" "i - 1"] Cons.prems(2) by (cases i) simp_all
qed simp

lemma linked_mono:
  "linked C P prev n es \<Longrightarrow> (\<And>e. e \<in> set es \<Longrightarrow> P e \<Longrightarrow> Q e) \<Longrightarrow> linked C Q prev n es"
proof (induction es arbitrary: prev n)
  case (Cons e es)
  have "linked C Q (ce_chain_entry_hash e) (n + 1) es"
    using Cons.IH Cons.prems unfolding linked.simps by (meson list.set_intros(2))
  then show ?case
    using Cons.prems unfolding linked.simps by (meson list.set_intros(1))
qed simp

lemma linked_last_row: "linked C P prev n es \<Longrightarrow> es \<noteq> [] \<Longrightarrow> max_sequence_row es = Some (last es)"
proof (induction es arbitrary: prev n)
  case (Cons e es)
  show ?case
  proof (cases "es = []")
    case False
    have l: "linked C P (ce_chain_entry_hash e) (n + 1) es"
      using Cons.prems(1) unfolding linked.simps by blast
    have "ce_sequence (last es) = n + 1 + int (length es - 1)"
      using linked_nth [OF l, of "length es - 1"] False by (simp add: last_conv_nth)
    then show ?thesis
      using Cons.IH [OF l False] Cons.prems False by simp
  qed simp
qed simp

text \<open>
  The head hash commits to the whole history: two chains of one length that end in one hash
  agree in everything the canonical texts cover, or exhibit two texts with one digest.
\<close>

definition sha_collision :: "crypto_lib \<Rightarrow> bytes \<Rightarrow> bytes \<Rightarrow> bool" where
  "sha_collision C x y \<longleftrightarrow> x \<noteq> y \<and> SHA256 C x = SHA256 C y"

lemma same_hash_core:
  assumes "sha256_hex C (string_bytes (build_canonical_json e)) = sha256_hex C (string_bytes (build_canonical_json f))"
    and "list_all quote_free (entry_strings e)"
    and "\<not> sha_collision C (string_bytes (build_canonical_json e)) (string_bytes (build_canonical_json f))"
  shows "entry_core f = entry_core e"
proof -
  have "build_canonical_json f = build_canonical_json e"
    using assms(1,3) unfolding sha256_hex_def bytes_hex_inject sha_collision_def string_bytes_inject by metis
  then show ?thesis
    by (rule canonical_json_inject_clean [OF assms(2)])
qed

lemma linked_determined:
  assumes "linked C P prev n es" and "linked C Q prev n fs" and "length es = length fs"
    and "end_hash prev es = end_hash prev fs"
    and "\<forall>e \<in> set es. list_all quote_free (entry_strings e)"
  shows "map entry_core fs = map entry_core es \<or>
    (\<exists>e \<in> set es. \<exists>f \<in> set fs. sha_collision C (string_bytes (build_canonical_json e)) (string_bytes (build_canonical_json f)))"
  using assms
proof (induction es arbitrary: fs rule: rev_induct)
  case (snoc e es)
  obtain gs f where fs: "fs = gs @ [f]"
    using snoc.prems(3) by (cases fs rule: rev_cases) auto
  note le = snoc.prems(1) [unfolded linked_snoc] and lf = snoc.prems(2) [unfolded fs linked_snoc]
  have hash: "sha256_hex C (string_bytes (build_canonical_json e)) = sha256_hex C (string_bytes (build_canonical_json f))"
    using le lf snoc.prems(4) fs by simp
  show ?case
  proof (cases "sha_collision C (string_bytes (build_canonical_json e)) (string_bytes (build_canonical_json f))")
    case False
    have core: "entry_core f = entry_core e"
      using same_hash_core [OF hash _ False] snoc.prems(5) by simp
    then have "ce_previous_entry_hash f = ce_previous_entry_hash e"
      unfolding entry_core_def prod.inject by blast
    then have "end_hash prev es = end_hash prev gs"
      using le lf by metis
    then have "map entry_core gs = map entry_core es \<or>
      (\<exists>e \<in> set es. \<exists>f \<in> set gs. sha_collision C (string_bytes (build_canonical_json e)) (string_bytes (build_canonical_json f)))"
      using snoc.IH [of gs] le lf snoc.prems(3,5) fs by simp
    then show ?thesis
      using core fs by auto
  qed (use fs in auto)
qed simp

section \<open>What an append does\<close>

lemma append_OK:
  assumes "chain_append_locked C ev st session atype aid ahash content = (Inr e, st')"
  obtains s0 s t i h db db' where "session = Some s0" "atype = Some t" "aid = Some i" "ahash = Some h"
    "\<not> cs_read_only st" "append_session st s0 = Inr s"
    "canonical_chars s" "canonical_chars t" "canonical_chars i" "virp_chain_artifact_hash_ok (Some h)"
    "cs_db st = Some db" "\<not> db_in_txn db" "append_txn C ev st (use_epoch st s0) s t i h content db = Inr (e, db')"
    "st' = st\<lparr>cs_db := Some (append_milestone C ev st s e db')\<rparr>"
proof -
  obtain s0 t i h where args: "session = Some s0" "atype = Some t" "aid = Some i" "ahash = Some h"
    using assms by (auto simp: chain_append_locked_def split: option.splits)
  note app = assms [unfolded args chain_append_locked_def option.case prod.case guard_Inr bind_Inr]
  then obtain s where s: "\<not> cs_read_only st" "append_session st s0 = Inr s"
    by blast
  have "\<exists>db. cs_db st = Some db"
    using app s by (cases "cs_db st") auto
  then obtain db where db: "cs_db st = Some db"
    by blast
  show thesis
    using app s db args that
    by (auto simp: guard_Inr bind_Inr virp_chain_canonical_string_ok_def split: sum.splits prod.splits if_splits)
qed

text \<open>An append that fails leaves the state as it was, unless a COMMIT left its transaction open.\<close>

lemma append_fails:
  assumes "chain_append_locked C ev st session atype aid ahash content = (Inl x, st')"
  shows "st' = st \<or> (\<not> ev_sql ev ''commit'' \<and> ev_commit_open ev \<and> x = VIRP_ERR_CHAIN_DB \<and>
    (\<exists>db. cs_db st' = Some db \<and> db_in_txn db))"
  using assms unfolding chain_append_locked_def
  by (auto split: option.splits sum.splits prod.splits if_splits)

definition hmac_by :: "crypto_lib \<Rightarrow> bytes \<Rightarrow> virp_chain_entry_t \<Rightarrow> bool" where
  "hmac_by C key e \<longleftrightarrow> hmac_sha256_hex C key (string_bytes (build_canonical_json e)) = Inr (ce_chain_hmac e)"

lemma canonical_update [simp]:
  "build_canonical_json (e\<lparr>ce_chain_entry_hash := h, ce_chain_hmac := m\<rparr>) = build_canonical_json e"
  "build_canonical_json (e\<lparr>ce_chain_sig := s, ce_chain_sig_key_id := k\<rparr>) = build_canonical_json e"
  "entry_core (e\<lparr>ce_chain_entry_hash := h, ce_chain_hmac := m\<rparr>) = entry_core e"
  "entry_core (e\<lparr>ce_chain_sig := s, ce_chain_sig_key_id := k\<rparr>) = entry_core e"
  by (simp_all add: build_canonical_json_def entry_core_def)

text \<open>What sealing adds to an entry.\<close>

lemma seal_entry_OK:
  assumes "seal_entry C st e = Inr f"
  shows "entry_core f = entry_core e \<and> length (build_canonical_json f) < 2048 \<and>
    ce_chain_entry_hash f = sha256_hex C (string_bytes (build_canonical_json f)) \<and>
    hmac_by C (sk_key (cs_chain_key st)) f \<and>
    (\<not> cs_sign_enabled st \<longrightarrow> ce_chain_sig f = ce_chain_sig e \<and> ce_chain_sig_key_id f = ce_chain_sig_key_id e) \<and>
    (cs_sign_enabled st \<longrightarrow> ce_chain_sig_key_id f = take 32 (ck_key_id_hex (cs_sign_key st)) \<and>
      (\<exists>sig. chain_sign_hex C st VIRP_CHAINSIGN_TAG_ENTRY (string_bytes (build_canonical_json f)) = Inr sig \<and>
             ce_chain_sig f = take 128 sig))"
  using assms by (auto simp: seal_entry_def Let_def hmac_by_def split: if_splits sum.splits)

lemma case_Inr_iff:
  "(case z of Inl x \<Rightarrow> Inl k | Inr y \<Rightarrow> f y) = Inr r \<longleftrightarrow> (\<exists>y. z = Inr y \<and> f y = Inr r)"
  by (cases z) simp_all

lemma append_txn_OK:
  assumes "append_txn C ev st use s t i h content db = Inr (e, db')"
  obtains n p db1 db2 where "epoch_gate ev st db use s = Inr ()" "federation_gate ev db t i h = Inr ()"
    "next_link C ev db s = (n, p)" "seal_entry C st (new_entry ev st s n p t i h) = Inr e"
    "insert_entry ev e db = Inr db1" "head_upsert_locked C ev st s n (ce_chain_entry_hash e) db1 = Inr db2"
    "store_body ev st i t content h s db2 = Inr db'"
proof -
  obtain n p where "next_link C ev db s = (n, p)"
    by fastforce
  then show thesis
    using assms that unfolding append_txn_def sbind_Inr_iff
    by (auto simp: sbind_Inr_iff case_Inr_iff)
qed

lemma entry_tables:
  "artifact_insert r db = db' \<Longrightarrow> db_entries db' = db_entries db \<and> db_heads db' = db_heads db \<and> db_in_txn db' = db_in_txn db"
  "store_body ev st i t content h s db = Inr db' \<Longrightarrow>
     db_entries db' = db_entries db \<and> db_heads db' = db_heads db \<and> db_in_txn db' = db_in_txn db"
  "db_entries (append_milestone C ev st s e db) = db_entries db \<and> db_heads (append_milestone C ev st s e db) = db_heads db \<and>
   db_artifacts (append_milestone C ev st s e db) = db_artifacts db \<and> db_in_txn (append_milestone C ev st s e db) = db_in_txn db"
  by (auto simp: artifact_insert_def store_body_def chain_artifact_store_locked_def append_milestone_def
      insert_milestone_def split: option.splits if_splits sum.splits)

section \<open>The invariant of the tables\<close>

text \<open>An entry that the fixed-size fields hold without truncation, and whose strings have no quote.\<close>

definition entry_fits :: "virp_chain_entry_t \<Rightarrow> bool" where
  "entry_fits e \<longleftrightarrow> read_entry_from_stmt True e = e"

definition entry_clean :: "virp_chain_entry_t \<Rightarrow> bool" where
  "entry_clean e \<longleftrightarrow> list_all quote_free (entry_strings e)"

definition genesis_of :: "crypto_lib \<Rightarrow> string \<Rightarrow> string" where
  "genesis_of C s = sha256_hex C (string_bytes (VIRP_CHAIN_GENESIS_PREFIX @ s))"

definition head_good :: "crypto_lib \<Rightarrow> bytes \<Rightarrow> string \<Rightarrow> virp_chain_entry_t list \<Rightarrow> chain_head option \<Rightarrow> bool" where
  "head_good C key s rows ho \<longleftrightarrow>
     (case ho of
        None \<Rightarrow> rows = []
      | Some h \<Rightarrow> rows \<noteq> [] \<and> ch_last_sequence h = int (length rows) - 1 \<and>
          ch_last_entry_hash h = ce_chain_entry_hash (last rows) \<and> length (ch_head_hmac h) = 64 \<and>
          hmac_sha256_hex C key (string_bytes (head_canonical s (ch_last_sequence h) (ch_last_entry_hash h)))
            = Inr (ch_head_hmac h))"

definition session_good :: "crypto_lib \<Rightarrow> bytes \<Rightarrow> chain_db \<Rightarrow> string \<Rightarrow> bool" where
  "session_good C key db s \<longleftrightarrow>
     linked C (hmac_by C key) (genesis_of C s) 0 (session_rows db s) \<and>
     (\<forall>e \<in> set (session_rows db s). entry_fits e \<and> entry_clean e) \<and>
     head_good C key s (session_rows db s) (db_heads db s)"

lemma length_sha256_hex: "sha_len C \<Longrightarrow> length (sha256_hex C d) = 64"
  by (simp add: sha256_hex_def sha_len_def)

lemma length_hmac_hex: "hmac_sha256_hex C key d = Inr m \<Longrightarrow> length m = 64"
  by (auto simp: hmac_sha256_hex_def virp_hmac_sha256_def split: option.splits if_splits sum.splits)

lemma printed_short: "length s < n \<Longrightarrow> printed stack n s = string_bytes s"
  by (simp add: printed_def)

lemma genesis_short: "length s \<le> 63 \<Longrightarrow> compute_genesis_hash C stack s = genesis_of C s"
  by (simp add: compute_genesis_hash_def genesis_of_def printed_short VIRP_CHAIN_GENESIS_PREFIX_def)

lemma quote_free_hex: "quote_free (bytes_hex bs)"
  using bytes_hex_digits [of "CHR 0x22" bs] by (auto simp: quote_free_def is_digit_def hexval_def)

lemma hash_ok_clean: "virp_chain_artifact_hash_ok (Some h) \<Longrightarrow> quote_free h \<and> length h = 64"
  by (auto simp: virp_chain_artifact_hash_ok_def quote_free_def list_all_iff less_eq_char_def)

text \<open>The next entry continues the chain, also when the query for the last one fails.\<close>

lemma next_link_continues:
  assumes good: "session_good C key db s" and len: "length s \<le> 63" and link: "next_link C ev db s = (n, p)"
    and fresh: "\<not> list_ex (\<lambda>f. ce_session_id f = s \<and> ce_sequence f = n) (db_entries db)"
  shows "n = int (length (session_rows db s)) \<and> p = end_hash (genesis_of C s) (session_rows db s)"
proof (cases "session_rows db s = []")
  case True
  then show ?thesis
    using link len by (auto simp: next_link_def genesis_short split: if_splits)
next
  case False
  let ?rows = "session_rows db s"
  have l: "linked C (hmac_by C key) (genesis_of C s) 0 ?rows"
    using good by (simp add: session_good_def)
  have "?rows ! 0 \<in> set ?rows" and "ce_sequence (?rows ! 0) = 0"
    using False linked_nth [OF l, of 0] by auto
  then have "n \<noteq> 0"
    using fresh by (auto simp: list_ex_iff session_rows_def)
  then have "ev_sql ev ''get_last''"
    using link by (auto simp: next_link_def split: if_splits)
  then have np: "n = ce_sequence (last ?rows) + 1" "p = take 64 (ce_chain_entry_hash (last ?rows))"
    using link linked_last_row [OF l False] by (auto simp: next_link_def)
  have "entry_fits (last ?rows)"
    using good False by (simp add: session_good_def)
  then have "take 64 (ce_chain_entry_hash (last ?rows)) = ce_chain_entry_hash (last ?rows)"
    unfolding entry_fits_def read_entry_from_stmt_def by (metis virp_chain_entry_t.select_convs(3))
  moreover have "int (length ?rows - 1) + 1 = int (length ?rows)"
    using False by (cases ?rows) simp_all
  ultimately show ?thesis
    using np linked_nth [OF l, of "length ?rows - 1"] False by (simp add: last_conv_nth end_hash_def)
qed

lemma new_entry_clean:
  assumes "canonical_chars s" "canonical_chars t" "canonical_chars i" "virp_chain_artifact_hash_ok (Some h)"
    and "quote_free (cs_org_id st)" and "quote_free p"
  shows "entry_clean (new_entry ev st s n p t i h)"
  using assms hash_ok_clean [OF assms(4)]
  by (simp add: entry_clean_def entry_strings_def new_entry_def quote_free_take canonical_chars_quote_free)

lemma clean_core: "entry_core e = entry_core f \<Longrightarrow> entry_clean e = entry_clean f"
  unfolding entry_clean_def entry_strings_def entry_core_def prod.inject by (elim conjE) (simp only:)

lemma length_dec_int: "\<bar>i\<bar> < 2 ^ 63 \<Longrightarrow> length (dec_int i) \<le> 20"
proof -
  assume "\<bar>i\<bar> < 2 ^ 63"
  then have "nat \<bar>i\<bar> < 10 ^ 19"
    by simp
  then have "length (dec (nat \<bar>i\<bar>)) \<le> 19"
    unfolding dec_def by (intro num_digits_length) simp_all
  then show ?thesis
    by (auto simp: dec_int_def split: if_splits)
qed

lemma head_canonical_short:
  assumes "length s \<le> 63" and "length h \<le> 64" and "\<bar>i\<bar> < 2 ^ 63"
  shows "length (head_canonical s i h) < 512"
  using assms length_dec_int [OF assms(3)] by (simp add: head_canonical_def qfield_def nfield_def)

lemma seal_fits:
  assumes "seal_entry C st (new_entry ev st s n p t i h) = Inr e" and "sha_len C"
  shows "entry_fits e"
  using assms
  by (auto simp: entry_fits_def read_entry_from_stmt_def seal_entry_def new_entry_def Let_def min_def
      length_sha256_hex length_hmac_hex split: if_splits sum.splits)

lemma head_upsert_OK:
  assumes "head_upsert_locked C ev st s n x db = Inr db'" and "length (head_canonical s n x) < 512"
  obtains h where "db' = db\<lparr>db_heads := (db_heads db)(s \<mapsto> h)\<rparr>" "ch_last_sequence h = n" "ch_last_entry_hash h = x"
    "hmac_sha256_hex C (sk_key (cs_chain_key st)) (string_bytes (head_canonical s n x)) = Inr (ch_head_hmac h)"
    "cs_sign_enabled st \<longrightarrow> ch_head_sig_key_id h = ck_key_id_hex (cs_sign_key st) \<and>
       chain_sign_hex C st VIRP_CHAINSIGN_TAG_HEAD (string_bytes (head_canonical s n x)) = Inr (ch_head_sig h)"
    "\<not> cs_sign_enabled st \<longrightarrow> ch_head_sig h = []"
proof -
  have "printed (ev_stack ev) 512 (head_canonical s n x) = string_bytes (head_canonical s n x)"
    using printed_short [OF assms(2)] .
  then show thesis
    using assms(1) by (intro that [of "the (db_heads db' s)"])
      (auto simp: head_upsert_locked_def head_hmac_hex_def Let_def split: sum.splits if_splits)
qed

lemma session_rows_snoc:
  "session_rows (db\<lparr>db_entries := db_entries db @ [e]\<rparr>) s = session_rows db s @ (if ce_session_id e = s then [e] else [])"
  by (simp add: session_rows_def)

lemma session_rows_cong: "db_entries db = db_entries db' \<Longrightarrow> session_rows db s = session_rows db' s"
  by (simp add: session_rows_def)

lemma new_entry_core [simp]:
  "ce_session_id (new_entry ev st s n p t i h) = take 63 s" "ce_sequence (new_entry ev st s n p t i h) = n"
  "ce_previous_entry_hash (new_entry ev st s n p t i h) = take 64 p"
  "ce_artifact_type (new_entry ev st s n p t i h) = take 15 t" "ce_artifact_id (new_entry ev st s n p t i h) = take 127 i"
  "ce_artifact_hash (new_entry ev st s n p t i h) = take 64 h"
  by (simp_all add: new_entry_def)

lemma entry_core_fields:
  "entry_core e = entry_core f \<Longrightarrow> ce_session_id e = ce_session_id f \<and> ce_sequence e = ce_sequence f \<and>
     ce_previous_entry_hash e = ce_previous_entry_hash f \<and> ce_artifact_type e = ce_artifact_type f \<and>
     ce_artifact_id e = ce_artifact_id f \<and> ce_artifact_hash e = ce_artifact_hash f"
  unfolding entry_core_def prod.inject by blast

text \<open>The effect of a committed append on the session it names.\<close>

lemma append_txn_extends:
  assumes txn: "append_txn C ev st use s t i h content db = Inr (e, db')"
    and args: "canonical_chars s" "canonical_chars t" "canonical_chars i" "virp_chain_artifact_hash_ok (Some h)"
    and len: "length s \<le> 63" and org: "quote_free (cs_org_id st)" and sha: "sha_len C"
    and good: "session_good C (sk_key (cs_chain_key st)) db s" and small: "length (session_rows db s) < 2 ^ 62"
  shows "session_good C (sk_key (cs_chain_key st)) db' s \<and> session_rows db' s = session_rows db s @ [e] \<and>
    db_entries db' = db_entries db @ [e] \<and> (\<forall>s'. s' \<noteq> s \<longrightarrow> db_heads db' s' = db_heads db s')"
proof -
  let ?key = "sk_key (cs_chain_key st)" and ?rows = "session_rows db s"
  obtain n p db1 db2 where link: "next_link C ev db s = (n, p)"
      and seal: "seal_entry C st (new_entry ev st s n p t i h) = Inr e" and ins: "insert_entry ev e db = Inr db1"
      and up: "head_upsert_locked C ev st s n (ce_chain_entry_hash e) db1 = Inr db2"
      and body: "store_body ev st i t content h s db2 = Inr db'"
    using append_txn_OK [OF txn] by metis
  note sealed = seal_entry_OK [OF seal]
  have core: "ce_session_id e = s" "ce_sequence e = n" "ce_previous_entry_hash e = take 64 p"
    using entry_core_fields [of e "new_entry ev st s n p t i h"] sealed len by simp_all
  have db1: "db1 = db\<lparr>db_entries := db_entries db @ [e]\<rparr>"
      and fresh: "\<not> list_ex (\<lambda>f. ce_session_id f = s \<and> ce_sequence f = n) (db_entries db)"
    using ins core by (auto simp: insert_entry_def list_ex_iff split: if_splits)
  have np: "n = int (length ?rows)" "p = end_hash (genesis_of C s) ?rows"
    using next_link_continues [OF good len link fresh] by simp_all
  have linked: "linked C (hmac_by C ?key) (genesis_of C s) 0 ?rows"
      and rows: "\<forall>e \<in> set ?rows. entry_fits e \<and> entry_clean e"
    using good by (simp_all add: session_good_def)
  have p: "length p = 64 \<and> quote_free p"
  proof (cases "?rows = []")
    case False
    then obtain k where k: "k < length ?rows" "last ?rows = ?rows ! k"
      by (metis last_conv_nth diff_less length_greater_0_conv zero_less_one)
    have "p = sha256_hex C (string_bytes (build_canonical_json (last ?rows)))"
      using linked False unfolding np(2) by (cases ?rows rule: rev_cases) (auto simp: linked_snoc)
    then show ?thesis
      using sha by (simp add: length_sha256_hex) (simp add: sha256_hex_def quote_free_hex)
  qed (use np sha in \<open>simp add: genesis_of_def length_sha256_hex\<close>, simp add: sha256_hex_def quote_free_hex)
  have hash: "ce_chain_entry_hash e = sha256_hex C (string_bytes (build_canonical_json e))" "length (ce_chain_entry_hash e) = 64"
    using sealed sha by (simp_all add: length_sha256_hex)
  have "\<bar>n\<bar> < 2 ^ 63"
    using small np by simp
  then obtain hd where hd: "db2 = db1\<lparr>db_heads := (db_heads db1)(s \<mapsto> hd)\<rparr>" "ch_last_sequence hd = n"
      "ch_last_entry_hash hd = ce_chain_entry_hash e"
      "hmac_sha256_hex C ?key (string_bytes (head_canonical s n (ce_chain_entry_hash e))) = Inr (ch_head_hmac hd)"
    using head_upsert_OK [OF up head_canonical_short [OF len eq_imp_le [OF hash(2)]]] by metis
  have tabs: "db_entries db' = db_entries db @ [e]" "db_heads db' = (db_heads db)(s \<mapsto> hd)"
    using entry_tables(2) [OF body] hd(1) db1 by simp_all
  have rows': "session_rows db' s = ?rows @ [e]"
    using tabs(1) core(1) by (simp add: session_rows_def)
  have "entry_clean e"
    using clean_core [of e] sealed new_entry_clean [OF args org] p by blast
  then show ?thesis
    unfolding session_good_def rows' linked_snoc head_good_def
    using linked rows sealed core np p hash seal_fits [OF seal sha] tabs hd length_hmac_hex [OF hd(4)]
    by simp
qed

definition db_good :: "crypto_lib \<Rightarrow> bytes \<Rightarrow> chain_db \<Rightarrow> bool" where
  "db_good C key db \<longleftrightarrow> (\<forall>s. session_good C key db s)"

text \<open>A request whose session name the entry holds whole and whose session has room left.\<close>

definition fits_session :: "virp_chain_state_t \<Rightarrow> chain_db \<Rightarrow> string ptr \<Rightarrow> bool" where
  "fits_session st db session =
     (case session of
        None \<Rightarrow> True
      | Some s0 \<Rightarrow>
          (case append_session st s0 of
             Inl e \<Rightarrow> True
           | Inr s \<Rightarrow> length s \<le> 63 \<and> length (session_rows db s) < 2 ^ 62))"

lemma session_good_frame:
  assumes "session_rows db' s = session_rows db s" and "db_heads db' s = db_heads db s" and "session_good C key db s"
  shows "session_good C key db' s"
  using assms by (simp add: session_good_def)

lemma append_keeps_good:
  assumes app: "chain_append_locked C ev st session atype aid ahash content = (r, st')"
    and db: "cs_db st = Some db" and good: "db_good C (sk_key (cs_chain_key st)) db"
    and org: "quote_free (cs_org_id st)" and sha: "sha_len C" and fits: "fits_session st db session"
    and commit: "ev_sql ev ''commit'' \<or> \<not> ev_commit_open ev"
  shows "\<exists>db'. st' = st\<lparr>cs_db := Some db'\<rparr> \<and> db_good C (sk_key (cs_chain_key st)) db'"
proof (cases r)
  case (Inl x)
  then have "st' = st"
    using append_fails [of C ev st session atype aid ahash content x st'] app commit by blast
  then show ?thesis
    using db good by (intro exI [of _ db]) (cases st, simp)
next
  case (Inr e)
  obtain s0 s t i h db0 db' where "session = Some s0" "append_session st s0 = Inr s"
      and args: "canonical_chars s" "canonical_chars t" "canonical_chars i" "virp_chain_artifact_hash_ok (Some h)"
      and db0: "cs_db st = Some db0"
      and txn: "append_txn C ev st (use_epoch st s0) s t i h content db0 = Inr (e, db')"
      and st': "st' = st\<lparr>cs_db := Some (append_milestone C ev st s e db')\<rparr>"
    using append_OK [OF app [unfolded Inr]] by metis
  then have len: "length s \<le> 63" "length (session_rows db s) < 2 ^ 62"
    using fits by (simp_all add: fits_session_def)
  have "session_good C (sk_key (cs_chain_key st)) db s"
    using good by (simp add: db_good_def)
  then have ext: "session_good C (sk_key (cs_chain_key st)) db' s" "session_rows db' s = session_rows db s @ [e]"
      "db_entries db' = db_entries db @ [e]" "\<forall>s'. s' \<noteq> s \<longrightarrow> db_heads db' s' = db_heads db s'"
    using append_txn_extends [OF txn args len(1) org sha] len(2) db db0 by auto
  have "session_rows db' s' = session_rows db s'" if "s' \<noteq> s" for s'
    using ext(2,3) that by (auto simp: session_rows_def split: if_splits)
  then have "session_good C (sk_key (cs_chain_key st)) db' s'" for s'
    using ext good session_good_frame [of db' s' db] by (cases "s' = s") (simp_all add: db_good_def)
  then have "db_good C (sk_key (cs_chain_key st)) (append_milestone C ev st s e db')"
    unfolding db_good_def using entry_tables(3) [of C ev st s e db']
    by (metis session_good_frame session_rows_cong)
  then show ?thesis
    using st' by blast
qed

text \<open>Runs of appends, whatever they return, on one handle.\<close>

inductive chain_run :: "crypto_lib \<Rightarrow> virp_chain_state_t \<Rightarrow> virp_chain_state_t \<Rightarrow> bool" for C where
  chain_run_refl: "chain_run C st st"
| chain_run_append: "chain_run C st st1 \<Longrightarrow> cs_db st1 = Some db \<Longrightarrow> fits_session st1 db session \<Longrightarrow>
    ev_sql ev ''commit'' \<or> \<not> ev_commit_open ev \<Longrightarrow>
    chain_append_locked C ev st1 session atype aid ahash content = (r, st2) \<Longrightarrow> chain_run C st st2"

lemma chain_run_good:
  assumes "chain_run C st st'" and "cs_db st = Some db" and "db_good C (sk_key (cs_chain_key st)) db"
    and "quote_free (cs_org_id st)" and "sha_len C"
  shows "\<exists>db'. st' = st\<lparr>cs_db := Some db'\<rparr> \<and> db_good C (sk_key (cs_chain_key st)) db'"
  using assms
proof (induction rule: chain_run.induct)
  case (chain_run_refl st)
  then show ?case
    by (intro exI [of _ db]) (cases st, simp)
next
  case (chain_run_append st st1 db1 session ev atype aid ahash content r st2)
  then obtain db' where st1: "st1 = st\<lparr>cs_db := Some db'\<rparr>" and good: "db_good C (sk_key (cs_chain_key st)) db'"
    by blast
  then show ?case
    using append_keeps_good [OF chain_run_append.hyps(5) chain_run_append.hyps(2)] chain_run_append.hyps(2-4)
      chain_run_append.prems(3,4) by auto
qed

definition empty_db :: chain_db where
  "empty_db = \<lparr>db_entries = [], db_heads = (\<lambda>_. None), db_artifacts = [], db_milestones = (\<lambda>_. None),
     db_intents = (\<lambda>_. None), db_tables = [''chain_entries'', ''chain_heads''], db_columns = [], db_artifacts_sql = [], db_in_txn = False\<rparr>"

lemma empty_db_good: "db_good C key empty_db"
  by (simp add: db_good_def session_good_def empty_db_def session_rows_def head_good_def)

end
