(* ===== verification/Virp_Chain_Verify.thy ===== *)
theory Virp_Chain_Verify
  imports Virp_Chain "HOL-Library.Multiset"
begin

text \<open>
  The trust chain (\<open>src/virp_chain.c\<close>), reading side: the lookup maps of a verification, the
  grading of intents and their closers, the walk over a range of a session, and the check of a
  whole session against its head. The answers of the store are an argument: \<open>ve_sql k q\<close> says
  whether the query named \<open>q\<close> runs, where \<open>k\<close> numbers the entries of a walk (and tells the two
  places apart that ask for the signature state of a session); \<open>ve_rows\<close> is the number of rows
  the range query delivers before it fails, if it does. Parsing JSON is an argument too.
\<close>

section \<open>Lookup maps\<close>

record verify_env =
  ve_sql :: "nat \<Rightarrow> string \<Rightarrow> bool"
  ve_rows :: "nat option"
  ve_stack :: "nat \<Rightarrow> bytes"
  ve_malloc :: bool
  ve_sodium :: bool

text \<open>The cJSON member as a bounded string: \<open>None\<close> when it is absent or not a string.\<close>

definition cj_str :: "json option \<Rightarrow> string \<Rightarrow> nat \<Rightarrow> string option" where
  "cj_str j key cap = map_option (take (cap - 1)) (json_string (cJSON_GetObjectItemCaseSensitive j key))"

text \<open>A citation: the member is present and not empty.\<close>

definition cites :: "json option \<Rightarrow> string \<Rightarrow> string option" where
  "cites j key = (case cj_str j key 65 of None \<Rightarrow> None | Some s \<Rightarrow> if s = [] then None else Some s)"

text \<open>The body an entry commits to, by the pair of id and hash.\<close>

definition stored_body :: "chain_db \<Rightarrow> virp_chain_entry_t \<Rightarrow> string option" where
  "stored_body db e = map_option ar_artifact_content
     (find (\<lambda>a. ar_artifact_id a = ce_artifact_id e \<and> ar_artifact_hash a = ce_artifact_hash e) (db_artifacts db))"

definition chain_body_by_entry_hash_locked :: "verify_env \<Rightarrow> nat \<Rightarrow> chain_db \<Rightarrow> string \<Rightarrow> string option" where
  "chain_body_by_entry_hash_locked ve k db h =
     (if \<not> ve_sql ve k ''body'' then None
      else (case find (\<lambda>e. ce_chain_entry_hash e = h \<and> stored_body db e \<noteq> None) (db_entries db) of
              None \<Rightarrow> None
            | Some e \<Rightarrow> if ve_malloc ve then stored_body db e else None))"

definition chain_hash_is_intent_locked ::
    "verify_env \<Rightarrow> nat \<Rightarrow> chain_db \<Rightarrow> string \<Rightarrow> virp_error_t + bool \<times> bool" where
  "chain_hash_is_intent_locked ve k db h =
     (if \<not> ve_sql ve k ''is_intent'' then Inl VIRP_ERR_CHAIN_DB
      else (case find (\<lambda>e. ce_chain_entry_hash e = h) (db_entries db) of
              None \<Rightarrow> Inr (False, False)
            | Some e \<Rightarrow> Inr (True, ce_artifact_type e = ''gate_intent'')))"

record chain_closer_ref_t =
  cr_cited :: string
  cr_type :: string
  cr_rowid :: nat

text \<open>The closers in the order of the rows, each with the position of its row.\<close>

definition closer_ref ::
    "(string \<Rightarrow> json option) \<Rightarrow> chain_db \<Rightarrow> nat \<times> virp_chain_entry_t \<Rightarrow> chain_closer_ref_t option" where
  "closer_ref parse db = (\<lambda>(i, e).
     if ce_artifact_type e \<notin> set [''gate_execution'', ''outcome''] then None
     else (case stored_body db e of
             None \<Rightarrow> None
           | Some b \<Rightarrow>
               (case cites (parse b) ''intent_entry_hash'' of
                  None \<Rightarrow> None
                | Some c \<Rightarrow> Some \<lparr>cr_cited = c, cr_type = take 15 (ce_artifact_type e), cr_rowid = i\<rparr>)))"

definition closer_refs :: "(string \<Rightarrow> json option) \<Rightarrow> chain_db \<Rightarrow> chain_closer_ref_t list" where
  "closer_refs parse db = List.map_filter (closer_ref parse db) (List.enumerate 0 (db_entries db))"

definition chain_build_closer_map_locked ::
    "(string \<Rightarrow> json option) \<Rightarrow> verify_env \<Rightarrow> nat \<Rightarrow> chain_db \<Rightarrow> chain_closer_ref_t list option" where
  "chain_build_closer_map_locked parse ve k db =
     (if \<not> ve_sql ve k ''closer_map'' \<or> \<not> ve_malloc ve then None
      else Some (sort_key cr_cited (closer_refs parse db)))"

definition intent_ref :: "(string \<Rightarrow> json option) \<Rightarrow> chain_db \<Rightarrow> virp_chain_entry_t \<Rightarrow> string option" where
  "intent_ref parse db e =
     (if ce_artifact_type e \<noteq> ''gate_intent'' then None
      else (case stored_body db e of None \<Rightarrow> None | Some b \<Rightarrow> cites (parse b) ''approval_entry_hash''))"

definition intent_refs :: "(string \<Rightarrow> json option) \<Rightarrow> chain_db \<Rightarrow> string list" where
  "intent_refs parse db = List.map_filter (intent_ref parse db) (db_entries db)"

definition chain_build_intent_map_locked ::
    "(string \<Rightarrow> json option) \<Rightarrow> verify_env \<Rightarrow> nat \<Rightarrow> chain_db \<Rightarrow> string list option" where
  "chain_build_intent_map_locked parse ve k db =
     (if \<not> ve_sql ve k ''intent_map'' \<or> \<not> ve_malloc ve then None else Some (sort (intent_refs parse db)))"

text \<open>The C library's binary search over the keys of a sorted array.\<close>

function bsearch :: "string \<Rightarrow> string list \<Rightarrow> nat \<Rightarrow> nat \<Rightarrow> nat option" where
  "bsearch key xs l u =
     (if l < u then
        let m = (l + u) div 2
        in if key < xs ! m then bsearch key xs l m
           else if xs ! m < key then bsearch key xs (m + 1) u
           else Some m
      else None)"
  by pat_completeness auto
termination
  by (relation "measure (\<lambda>(_, _, l, u). u - l)") auto

text \<open>The two loops that widen a hit to the run of equal keys.\<close>

fun run_lo :: "string \<Rightarrow> string list \<Rightarrow> nat \<Rightarrow> nat" where
  "run_lo key xs 0 = 0"
| "run_lo key xs (Suc i) = (if xs ! i = key then run_lo key xs i else Suc i)"

function run_hi :: "string \<Rightarrow> string list \<Rightarrow> nat \<Rightarrow> nat" where
  "run_hi key xs i = (if i + 1 < length xs \<and> xs ! (i + 1) = key then run_hi key xs (i + 1) else i)"
  by pat_completeness auto
termination
  by (relation "measure (\<lambda>(_, xs, i). length xs - i)") auto

declare bsearch.simps [simp del] run_hi.simps [simp del]

definition run_of :: "string \<Rightarrow> string list \<Rightarrow> nat \<Rightarrow> nat \<times> nat" where
  "run_of key xs i = (run_lo key xs i, run_hi key xs i)"

definition chain_count_intents_for_approval_locked ::
    "(string \<Rightarrow> json option) \<Rightarrow> verify_env \<Rightarrow> nat \<Rightarrow> chain_db \<Rightarrow> string \<Rightarrow> virp_error_t + nat" where
  "chain_count_intents_for_approval_locked parse ve k db aeh =
     (if aeh = [] then Inr 0
      else (case chain_build_intent_map_locked parse ve k db of
              None \<Rightarrow> Inl VIRP_ERR_CHAIN_DB
            | Some arr \<Rightarrow>
                (case bsearch (take 64 aeh) arr 0 (length arr) of
                   None \<Rightarrow> Inr 0
                 | Some i \<Rightarrow> let (lo, hi) = run_of aeh arr i in Inr (hi - lo + 1))))"

definition virp_chain_count_intents_for_approval ::
    "(string \<Rightarrow> json option) \<Rightarrow> verify_env \<Rightarrow> virp_chain_state_t ptr \<Rightarrow> string ptr \<Rightarrow> virp_error_t + nat" where
  "virp_chain_count_intents_for_approval parse ve state aeh =
     (case (state, aeh) of
        (Some st, Some a) \<Rightarrow>
          (case cs_db st of
             None \<Rightarrow> if a = [] then Inr 0 else Inl VIRP_ERR_CHAIN_DB
           | Some db \<Rightarrow> chain_count_intents_for_approval_locked parse ve 0 db a)
      | _ \<Rightarrow> Inl VIRP_ERR_NULL_PTR)"

section \<open>Grading intents and closers\<close>

text \<open>The texts of \<open>error_detail\<close>, by the message and the numbers printed into it.\<close>

datatype chain_detail =
    NoDetail
  | DLegacyChain
  | DHeadMissing
  | DNoEntries
  | DSignedNeedSignedHead
  | DHeadMacUncomputed
  | DHeadMacMismatch
  | DHeadSignature
  | DHeadMismatch int
  | DInvalidRange int int
  | DMissingEntry int
  | DSequenceGap int int
  | DPreviousHash int
  | DCanonicalTooLong int
  | DEntryHash int
  | DMacUncomputed int
  | DMacMismatch int
  | DStrippedSignature int
  | DKeyIdMismatch int
  | DSignature int
  | DStoreUnreadable int
  | DArtifactBinding int
  | DDoubleSpend int
  | DTwoClosers int
  | DCloserBinding int
  | DCloserCitation int bool
  | DRangeWalk
  | DCutoverUnread
  | DNotACutover int
  | DTruncated int int int
  | DPrefixWithoutHead int

text \<open>A string member both documents have and that differs.\<close>

definition field_differs :: "json option \<Rightarrow> json option \<Rightarrow> string \<Rightarrow> bool" where
  "field_differs a b field =
     (case (cj_str a field 96, cj_str b field 96) of (Some x, Some y) \<Rightarrow> x \<noteq> y | _ \<Rightarrow> False)"

definition closer_binding_mismatch :: "json option \<Rightarrow> string \<Rightarrow> json option \<Rightarrow> bool" where
  "closer_binding_mismatch intent closer_type closer =
     (if field_differs intent closer ''device'' then True
      else if closer_type = ''gate_execution'' then
        (if field_differs intent closer ''command'' then True
         else if field_differs intent closer ''session'' then True
         else (case (json_number (cJSON_GetObjectItemCaseSensitive intent ''uid''),
                     json_number (cJSON_GetObjectItemCaseSensitive closer ''uid'')) of
                 (Some x, Some y) \<Rightarrow> x \<noteq> y
               | _ \<Rightarrow> False))
      else if field_differs intent closer ''proposal_id'' then True
      else field_differs intent closer ''approval_entry_hash'')"

definition double_spent ::
    "(string \<Rightarrow> json option) \<Rightarrow> verify_env \<Rightarrow> nat \<Rightarrow> chain_db \<Rightarrow> json option \<Rightarrow> bool" where
  "double_spent parse ve k db intent =
     (case cites intent ''approval_entry_hash'' of
        None \<Rightarrow> False
      | Some aeh \<Rightarrow>
          (case chain_count_intents_for_approval_locked parse ve k db aeh of
             Inl e \<Rightarrow> False
           | Inr n \<Rightarrow> n > 1))"

text \<open>The closers that cite a hash: their number and the position of the first in the map.\<close>

definition closers_of :: "string \<Rightarrow> chain_closer_ref_t list \<Rightarrow> nat \<times> nat" where
  "closers_of h arr =
     (case bsearch (take 64 h) (map cr_cited arr) 0 (length arr) of
        None \<Rightarrow> (0, 0)
      | Some i \<Rightarrow> let (lo, hi) = run_of h (map cr_cited arr) i in (hi - lo + 1, lo))"

text \<open>The binding of the one closer, from the body fetched by its row.\<close>

definition closer_binding_bad ::
    "(string \<Rightarrow> json option) \<Rightarrow> verify_env \<Rightarrow> nat \<Rightarrow> chain_db \<Rightarrow> json option \<Rightarrow> chain_closer_ref_t \<Rightarrow> bool" where
  "closer_binding_bad parse ve k db intent r =
     (if \<not> ve_sql ve k ''closer_body'' then False
      else (case stored_body db (db_entries db ! cr_rowid r) of
              None \<Rightarrow> False
            | Some cb \<Rightarrow>
                (case parse cb of
                   None \<Rightarrow> False
                 | Some closer \<Rightarrow> closer_binding_mismatch intent (cr_type r) (Some closer))))"

definition chain_grade_intent_locked ::
    "(string \<Rightarrow> json option) \<Rightarrow> verify_env \<Rightarrow> nat \<Rightarrow> chain_db \<Rightarrow> virp_chain_entry_t \<Rightarrow> string option \<Rightarrow> chain_detail + bool" where
  "chain_grade_intent_locked parse ve k db e intent_body =
     (let intent = (case intent_body of None \<Rightarrow> None | Some b \<Rightarrow> parse b)
      in if double_spent parse ve k db intent then Inl (DDoubleSpend (ce_sequence e))
         else (case chain_build_closer_map_locked parse ve k db of
                 None \<Rightarrow> Inr True
               | Some arr \<Rightarrow>
                   let (nclosers, lo) = closers_of (ce_chain_entry_hash e) arr;
                       binding_bad = (intent \<noteq> None \<and> nclosers = 1 \<and>
                                      closer_binding_bad parse ve k db intent (arr ! lo))
                   in if nclosers > 1 then Inl (DTwoClosers (ce_sequence e))
                      else if nclosers = 1 \<and> binding_bad then Inl (DCloserBinding (ce_sequence e))
                      else Inr (nclosers = 0)))"

definition chain_grade_closer_locked ::
    "(string \<Rightarrow> json option) \<Rightarrow> verify_env \<Rightarrow> nat \<Rightarrow> chain_db \<Rightarrow> virp_chain_entry_t \<Rightarrow> string option \<Rightarrow> chain_detail + unit" where
  "chain_grade_closer_locked parse ve k db e closer_body =
     (case closer_body of
        None \<Rightarrow> Inr ()
      | Some b \<Rightarrow>
          (case cites (parse b) ''intent_entry_hash'' of
             None \<Rightarrow> Inr ()
           | Some cited \<Rightarrow>
               (case chain_hash_is_intent_locked ve k db cited of
                  Inl err \<Rightarrow> Inr ()
                | Inr (found, is_intent) \<Rightarrow>
                    if \<not> found \<or> \<not> is_intent then Inl (DCloserCitation (ce_sequence e) found) else Inr ())))"

definition VIRP_CHAIN_ARTIFACT_CONTENT_MAX :: nat where [simp]: "VIRP_CHAIN_ARTIFACT_CONTENT_MAX = 8191"

text \<open>Bound, unverifiable, broken, or the verifier's own failure: 1, 0, -1, -2 in the code.\<close>

datatype binding = Bound | Unverifiable | Broken | StoreUnreadable

definition chain_verify_binding_locked ::
    "crypto_lib \<Rightarrow> verify_env \<Rightarrow> nat \<Rightarrow> chain_db \<Rightarrow> virp_chain_entry_t \<Rightarrow> binding" where
  "chain_verify_binding_locked C ve k db e =
     (if \<not> ve_sql ve k ''bind_prepare'' then StoreUnreadable
      else (case (if ve_sql ve k ''bind_step'' then stored_body db e else None) of
              None \<Rightarrow> Unverifiable
            | Some body \<Rightarrow>
                if body = [] then Unverifiable
                else if virp_chain_type_is_indirect (Some (ce_artifact_type e)) then Unverifiable
                else let prefix = (if length body = VIRP_CHAIN_ARTIFACT_CONTENT_MAX then Unverifiable else Broken)
                     in (case virp_chain_artifact_digest C (ve_malloc ve) (Some body) of
                           Inl err \<Rightarrow> prefix
                         | Inr digest \<Rightarrow>
                             if hexdigest_eq (Some digest) (Some (ce_artifact_hash e)) then Bound else prefix)))"

section \<open>The walk over a range\<close>

datatype virp_chain_sig_era_t =
    VIRP_CHAIN_SIG_ERA_NOT_GRADED
  | VIRP_CHAIN_SIG_ERA_UNSIGNED
  | VIRP_CHAIN_SIG_ERA_FROM_N
  | VIRP_CHAIN_SIG_ERA_SIGNED

fun virp_chain_sig_era_name :: "virp_chain_sig_era_t \<Rightarrow> string" where
  "virp_chain_sig_era_name VIRP_CHAIN_SIG_ERA_UNSIGNED = ''UNSIGNED_ERA''"
| "virp_chain_sig_era_name VIRP_CHAIN_SIG_ERA_FROM_N = ''SIGNED_FROM_N''"
| "virp_chain_sig_era_name VIRP_CHAIN_SIG_ERA_SIGNED = ''SIGNED''"
| "virp_chain_sig_era_name VIRP_CHAIN_SIG_ERA_NOT_GRADED = ''NOT_GRADED''"

record virp_chain_verify_result_t =
  vr_valid :: bool
  vr_from_sequence :: int
  vr_to_sequence :: int
  vr_entries_checked :: nat
  vr_first_broken :: int
  vr_error_detail :: chain_detail
  vr_artifacts_bound :: nat
  vr_artifacts_unverifiable :: nat
  vr_hmac_checked :: bool
  vr_sig_checked :: bool
  vr_head_authenticated :: bool
  vr_head_hmac_ok :: bool
  vr_head_sig_ok :: bool
  vr_entries_signed :: nat
  vr_entries_unsigned :: nat
  vr_sig_key_unavailable :: bool
  vr_sig_era :: virp_chain_sig_era_t
  vr_valid_signed :: bool
  vr_first_unsigned :: int
  vr_sig_transition_seq :: int
  vr_sig_key_id :: string
  vr_executions_open :: nat
  vr_executions_closed :: nat
  vr_verifier_error :: bool

definition result_zero :: virp_chain_verify_result_t where
  "result_zero = \<lparr>vr_valid = False, vr_from_sequence = 0, vr_to_sequence = 0, vr_entries_checked = 0,
     vr_first_broken = 0, vr_error_detail = NoDetail, vr_artifacts_bound = 0, vr_artifacts_unverifiable = 0,
     vr_hmac_checked = False, vr_sig_checked = False, vr_head_authenticated = False, vr_head_hmac_ok = False,
     vr_head_sig_ok = False, vr_entries_signed = 0, vr_entries_unsigned = 0, vr_sig_key_unavailable = False,
     vr_sig_era = VIRP_CHAIN_SIG_ERA_NOT_GRADED, vr_valid_signed = False, vr_first_unsigned = 0,
     vr_sig_transition_seq = 0, vr_sig_key_id = [], vr_executions_open = 0, vr_executions_closed = 0,
     vr_verifier_error = False\<rparr>"

text \<open>The local variables of the walk beside the result.\<close>

record walk_state =
  ws_result :: virp_chain_verify_result_t
  ws_expected_prev :: string
  ws_expected_seq :: int
  ws_unsigned_prefix :: bool
  ws_first_signed_seq :: int
  ws_first_signed_ns :: u64

definition ws_update :: "(virp_chain_verify_result_t \<Rightarrow> virp_chain_verify_result_t) \<Rightarrow> walk_state \<Rightarrow> walk_state" where
  "ws_update f w = w\<lparr>ws_result := f (ws_result w)\<rparr>"

text \<open>A failed check clears \<open>valid\<close> and stops the walk (\<open>Inl\<close>).\<close>

definition broken :: "int \<Rightarrow> chain_detail \<Rightarrow> walk_state \<Rightarrow> walk_state + walk_state" where
  "broken seq d w = Inl (ws_update (\<lambda>r. r\<lparr>vr_valid := False, vr_first_broken := seq, vr_error_detail := d\<rparr>) w)"

definition check_integrity ::
    "crypto_lib \<Rightarrow> virp_chain_state_t \<Rightarrow> virp_chain_entry_t \<Rightarrow> walk_state \<Rightarrow> walk_state + walk_state" where
  "check_integrity C st e w =
     (let canonical = build_canonical_json e
      in if ce_sequence e \<noteq> ws_expected_seq w then
           broken (ws_expected_seq w) (DSequenceGap (ws_expected_seq w) (ce_sequence e)) w
         else if ce_previous_entry_hash e \<noteq> ws_expected_prev w then
           broken (ce_sequence e) (DPreviousHash (ce_sequence e)) w
         else if length canonical \<ge> 2048 then broken (ce_sequence e) (DCanonicalTooLong (ce_sequence e)) w
         else if \<not> hexdigest_eq (Some (sha256_hex C (string_bytes canonical))) (Some (ce_chain_entry_hash e)) then
           broken (ce_sequence e) (DEntryHash (ce_sequence e)) w
         else if \<not> cs_have_chain_key st then Inr w
         else (case hmac_sha256_hex C (sk_key (cs_chain_key st)) (string_bytes canonical) of
                 Inl err \<Rightarrow> broken (ce_sequence e) (DMacUncomputed (ce_sequence e)) w
               | Inr mac \<Rightarrow>
                   if \<not> hexdigest_eq (Some mac) (Some (ce_chain_hmac e)) then
                     broken (ce_sequence e) (DMacMismatch (ce_sequence e)) w
                   else Inr w))"

definition note_unsigned :: "virp_chain_entry_t \<Rightarrow> virp_chain_verify_result_t \<Rightarrow> virp_chain_verify_result_t" where
  "note_unsigned e r = r\<lparr>vr_entries_unsigned := vr_entries_unsigned r + 1,
     vr_first_unsigned := (if vr_first_unsigned r < 0 then ce_sequence e else vr_first_unsigned r)\<rparr>"

definition entry_sig_ok :: "crypto_lib \<Rightarrow> verify_env \<Rightarrow> virp_chain_state_t \<Rightarrow> virp_chain_entry_t \<Rightarrow> bool" where
  "entry_sig_ok C ve st e =
     (case virp_chainsign_sig_from_hex (Some (ce_chain_sig e)) of
        None \<Rightarrow> False
      | Some sig \<Rightarrow> virp_chainsign_verify C (ve_sodium ve) (Some (cs_verify_pub st)) (Some VIRP_CHAINSIGN_TAG_ENTRY)
                      (Some (string_bytes (build_canonical_json e))) (Some sig))"

definition check_signature ::
    "crypto_lib \<Rightarrow> verify_env \<Rightarrow> virp_chain_state_t \<Rightarrow> bool \<Rightarrow> virp_chain_entry_t \<Rightarrow> walk_state \<Rightarrow> walk_state + walk_state" where
  "check_signature C ve st check_sigs e w =
     (if check_sigs then
        (if ce_chain_sig e = [] then
           let w1 = ws_update (note_unsigned e) w
           in if vr_entries_signed (ws_result w) = 0 then Inr (w1\<lparr>ws_unsigned_prefix := True\<rparr>)
              else broken (ce_sequence e) (DStrippedSignature (ce_sequence e)) w1
         else if ce_chain_sig_key_id e \<noteq> cs_verify_key_id_hex st then
           broken (ce_sequence e) (DKeyIdMismatch (ce_sequence e)) w
         else if \<not> entry_sig_ok C ve st e then broken (ce_sequence e) (DSignature (ce_sequence e)) w
         else let w1 = (if ws_first_signed_seq w < 0
                        then w\<lparr>ws_first_signed_seq := ce_sequence e, ws_first_signed_ns := ce_timestamp_ns e\<rparr>
                        else w)
              in Inr (ws_update (\<lambda>r. r\<lparr>vr_entries_signed := vr_entries_signed r + 1\<rparr>) w1))
      else if cs_verify_sig_enabled st \<and> ce_chain_sig e = [] then Inr (ws_update (note_unsigned e) w)
      else Inr w)"

definition check_binding ::
    "crypto_lib \<Rightarrow> verify_env \<Rightarrow> nat \<Rightarrow> chain_db \<Rightarrow> virp_chain_entry_t \<Rightarrow> walk_state \<Rightarrow> walk_state + walk_state" where
  "check_binding C ve k db e w =
     (case chain_verify_binding_locked C ve k db e of
        StoreUnreadable \<Rightarrow> Inl (ws_update (\<lambda>r. r\<lparr>vr_valid := False, vr_verifier_error := True,
                             vr_error_detail := DStoreUnreadable (ce_sequence e)\<rparr>) w)
      | Broken \<Rightarrow> broken (ce_sequence e) (DArtifactBinding (ce_sequence e)) w
      | Unverifiable \<Rightarrow> Inr (ws_update (\<lambda>r. r\<lparr>vr_artifacts_unverifiable := vr_artifacts_unverifiable r + 1\<rparr>) w)
      | Bound \<Rightarrow> Inr (ws_update (\<lambda>r. r\<lparr>vr_artifacts_bound := vr_artifacts_bound r + 1\<rparr>) w))"

definition check_evidence ::
    "(string \<Rightarrow> json option) \<Rightarrow> verify_env \<Rightarrow> nat \<Rightarrow> chain_db \<Rightarrow> virp_chain_entry_t \<Rightarrow> walk_state \<Rightarrow> walk_state + walk_state" where
  "check_evidence parse ve k db e w =
     (let body = chain_body_by_entry_hash_locked ve k db (ce_chain_entry_hash e)
      in if ce_artifact_type e = ''gate_intent'' then
           (case chain_grade_intent_locked parse ve k db e body of
              Inl d \<Rightarrow> broken (ce_sequence e) d w
            | Inr is_open \<Rightarrow> Inr (ws_update (\<lambda>r. if is_open
                                  then r\<lparr>vr_executions_open := vr_executions_open r + 1\<rparr>
                                  else r\<lparr>vr_executions_closed := vr_executions_closed r + 1\<rparr>) w))
         else if ce_artifact_type e = ''gate_execution'' \<or> ce_artifact_type e = ''outcome'' then
           (case chain_grade_closer_locked parse ve k db e body of
              Inl d \<Rightarrow> broken (ce_sequence e) d w
            | Inr u \<Rightarrow> Inr w)
         else Inr w)"

definition advance :: "virp_chain_entry_t \<Rightarrow> walk_state \<Rightarrow> walk_state" where
  "advance e w = (ws_update (\<lambda>r. r\<lparr>vr_entries_checked := vr_entries_checked r + 1\<rparr>) w)
     \<lparr>ws_expected_prev := ce_chain_entry_hash e, ws_expected_seq := ws_expected_seq w + 1\<rparr>"

text \<open>The body of the loop for one row.\<close>

definition walk_entry ::
    "crypto_lib \<Rightarrow> (string \<Rightarrow> json option) \<Rightarrow> verify_env \<Rightarrow> virp_chain_state_t \<Rightarrow> chain_db \<Rightarrow> bool \<Rightarrow>
     virp_chain_entry_t \<Rightarrow> walk_state \<Rightarrow> walk_state + walk_state" where
  "walk_entry C parse ve st db check_sigs row w =
     (let e = read_entry_from_stmt (cs_reads_sig st) row; k = vr_entries_checked (ws_result w)
      in sbind (check_integrity C st e w) (\<lambda>w1.
         sbind (check_signature C ve st check_sigs e w1) (\<lambda>w2.
         sbind (check_binding C ve k db e w2) (\<lambda>w3.
         sbind (check_evidence parse ve k db e w3) (\<lambda>w4. Inr (advance e w4))))))"

fun walk_rows ::
    "(virp_chain_entry_t \<Rightarrow> walk_state \<Rightarrow> walk_state + walk_state) \<Rightarrow> virp_chain_entry_t list \<Rightarrow> walk_state \<Rightarrow>
     walk_state + walk_state" where
  "walk_rows f [] w = Inr w"
| "walk_rows f (r # rs) w = sbind (f r w) (walk_rows f rs)"

definition range_rows :: "chain_db \<Rightarrow> string \<Rightarrow> int \<Rightarrow> int \<Rightarrow> virp_chain_entry_t list" where
  "range_rows db s from to =
     sort_key ce_sequence (filter (\<lambda>e. from \<le> ce_sequence e \<and> ce_sequence e \<le> to) (session_rows db s))"

text \<open>Whether a session is signed, and under which key it says so: \<open>k\<close> tells the two callers apart.\<close>

definition chain_session_sig_state_locked ::
    "verify_env \<Rightarrow> nat \<Rightarrow> virp_chain_state_t \<Rightarrow> chain_db \<Rightarrow> string \<Rightarrow> bool \<times> string" where
  "chain_session_sig_state_locked ve k st db session =
     (let head_sig = (case (if cs_head_sig_cols st \<and> ve_sql ve k ''sig_head'' then db_heads db session else None) of
                        None \<Rightarrow> None
                      | Some h \<Rightarrow> if ch_head_sig h = [] then None else Some (take 32 (ch_head_sig_key_id h)))
      in case head_sig of
           Some kid \<Rightarrow> (True, kid)
         | None \<Rightarrow>
             if \<not> cs_entry_sig_cols st then (False, [])
             else if \<not> (ve_sql ve k ''sig_any'' \<and> list_ex (\<lambda>e. ce_chain_sig e \<noteq> []) (session_rows db session))
             then (False, [])
             else (True, case (if ve_sql ve k ''sig_kid'' then sort_key ce_sequence (session_rows db session) else []) of
                           [] \<Rightarrow> []
                         | r # rs \<Rightarrow> take 32 (ce_chain_sig_key_id r)))"

definition virp_chain_from_n_temporally_ok :: "u64 \<Rightarrow> u64 \<Rightarrow> bool" where
  "virp_chain_from_n_temporally_ok first_signed_ns cutover_ns =
     (if cutover_ns = 0 then False else first_signed_ns \<ge> cutover_ns)"

text \<open>SQLite takes the minimum of the stored 64-bit integers, which are signed.\<close>

definition virp_chain_cutover_ns ::
    "verify_env \<Rightarrow> virp_chain_state_t ptr \<Rightarrow> virp_error_t + u64" where
  "virp_chain_cutover_ns ve state =
     (case state of
        None \<Rightarrow> Inl VIRP_ERR_NULL_PTR
      | Some st \<Rightarrow>
          (case cs_db st of
             None \<Rightarrow> Inr 0
           | Some db \<Rightarrow>
               if \<not> cs_entry_sig_cols st then Inr 0
               else if \<not> ve_sql ve 0 ''cutover_prepare'' then Inl VIRP_ERR_CHAIN_DB
               else (case map (\<lambda>e. sint (ce_timestamp_ns e)) (filter (\<lambda>e. ce_chain_sig e \<noteq> []) (db_entries db)) of
                       [] \<Rightarrow> Inr 0
                     | t # ts \<Rightarrow> if ve_sql ve 0 ''cutover_step'' then Inr (of_int (fold min ts t)) else Inr 0)))"

definition walk_start ::
    "virp_chain_state_t \<Rightarrow> bool \<Rightarrow> int \<Rightarrow> int \<Rightarrow> virp_chain_verify_result_t" where
  "walk_start st check_sigs from to = result_zero\<lparr>vr_from_sequence := from, vr_to_sequence := to, vr_first_broken := - 1,
     vr_first_unsigned := - 1, vr_sig_transition_seq := - 1, vr_valid := True,
     vr_hmac_checked := cs_have_chain_key st, vr_sig_checked := check_sigs\<rparr>"

text \<open>The hash the first row must link to: \<open>Inl\<close> when the query cannot be prepared.\<close>

definition expected_previous ::
    "crypto_lib \<Rightarrow> verify_env \<Rightarrow> chain_db \<Rightarrow> string \<Rightarrow> int \<Rightarrow> virp_error_t + string option" where
  "expected_previous C ve db session from =
     (if from = 0 then Inr (Some (compute_genesis_hash C (ve_stack ve) session))
      else if \<not> ve_sql ve 0 ''prev_prepare'' then Inl VIRP_ERR_CHAIN_DB
      else Inr (case (if ve_sql ve 0 ''prev_step''
                      then find (\<lambda>e. ce_sequence e = from - 1) (session_rows db session) else None) of
                  None \<Rightarrow> None
                | Some e \<Rightarrow> Some (take 64 (ce_chain_entry_hash e))))"

text \<open>The third condition of a signing cutover, after the walk.\<close>

definition check_cutover :: "verify_env \<Rightarrow> virp_chain_state_t \<Rightarrow> walk_state \<Rightarrow> virp_chain_verify_result_t" where
  "check_cutover ve st w =
     (let r = ws_result w
      in if vr_valid r \<and> ws_unsigned_prefix w \<and> ws_first_signed_seq w > 0 then
           (case virp_chain_cutover_ns ve (Some st) of
              Inl err \<Rightarrow> r\<lparr>vr_valid := False, vr_error_detail := DCutoverUnread\<rparr>
            | Inr cutover \<Rightarrow>
                if \<not> virp_chain_from_n_temporally_ok (ws_first_signed_ns w) cutover then
                  r\<lparr>vr_valid := False, vr_first_broken := ws_first_signed_seq w,
                    vr_error_detail := DNotACutover (ws_first_signed_seq w)\<rparr>
                else r\<lparr>vr_sig_transition_seq := ws_first_signed_seq w\<rparr>)
         else r)"

definition check_complete :: "int \<Rightarrow> int \<Rightarrow> virp_chain_verify_result_t \<Rightarrow> virp_chain_verify_result_t" where
  "check_complete from to r =
     (if vr_valid r \<and> int (vr_entries_checked r) \<noteq> to - from + 1 then
        r\<lparr>vr_valid := False, vr_first_broken := from + int (vr_entries_checked r),
          vr_error_detail := DTruncated from to (int (vr_entries_checked r))\<rparr>
      else r)"

text \<open>Whether the asymmetric tier applies to the entries of this session.\<close>

definition grades_signatures :: "verify_env \<Rightarrow> virp_chain_state_t \<Rightarrow> chain_db \<Rightarrow> bool \<Rightarrow> string \<Rightarrow> bool" where
  "grades_signatures ve st db unavailable session =
     (let (session_signed, session_kid) = chain_session_sig_state_locked ve 1 st db session;
          key_unavailable = (unavailable \<or>
            (session_signed \<and> cs_verify_sig_enabled st \<and> session_kid \<noteq> cs_verify_key_id_hex st))
      in cs_verify_sig_enabled st \<and> cs_entry_sig_cols st \<and> session_signed \<and> \<not> key_unavailable)"

text \<open>The result and, when it is valid, the hash of the last entry verified.\<close>

definition chain_verify_locked ::
    "crypto_lib \<Rightarrow> (string \<Rightarrow> json option) \<Rightarrow> verify_env \<Rightarrow> virp_chain_state_t \<Rightarrow> chain_db \<Rightarrow> bool \<Rightarrow> string \<Rightarrow>
     int \<Rightarrow> int \<Rightarrow> virp_error_t \<times> virp_chain_verify_result_t \<times> string" where
  "chain_verify_locked C parse ve st db unavailable session from to =
     (let check_sigs = grades_signatures ve st db unavailable session;
          r0 = walk_start st check_sigs from to
      in if from < 0 \<or> to < from then
           (VIRP_OK, r0\<lparr>vr_valid := False, vr_error_detail := DInvalidRange from to\<rparr>, [])
         else (case expected_previous C ve db session from of
           Inl err \<Rightarrow> (err, r0, [])
         | Inr None \<Rightarrow> (VIRP_OK, r0\<lparr>vr_valid := False, vr_error_detail := DMissingEntry (from - 1)\<rparr>, [])
         | Inr (Some prev) \<Rightarrow>
             let rows = range_rows db session from to;
                 w0 = \<lparr>ws_result = r0, ws_expected_prev = prev, ws_expected_seq = from, ws_unsigned_prefix = False,
                       ws_first_signed_seq = - 1, ws_first_signed_ns = 0\<rparr>;
                 f = walk_entry C parse ve st db check_sigs
             in (case (case ve_rows ve of
                         None \<Rightarrow> (walk_rows f rows w0, False)
                       | Some n \<Rightarrow> (walk_rows f (take n rows) w0, True)) of
                   (Inl w, failed) \<Rightarrow> (VIRP_OK, check_complete from to (check_cutover ve st w), [])
                 | (Inr w, True) \<Rightarrow>
                     (VIRP_ERR_CHAIN_DB, (ws_result w)\<lparr>vr_valid := False, vr_verifier_error := True,
                        vr_error_detail := DRangeWalk\<rparr>, [])
                 | (Inr w, False) \<Rightarrow>
                     let r = check_complete from to (check_cutover ve st w)
                     in (VIRP_OK, r, if vr_valid r then ws_expected_prev w else []))))"

definition virp_chain_verify ::
    "crypto_lib \<Rightarrow> (string \<Rightarrow> json option) \<Rightarrow> verify_env \<Rightarrow> virp_chain_state_t \<Rightarrow> chain_db \<Rightarrow> string ptr \<Rightarrow>
     int \<Rightarrow> int \<Rightarrow> virp_error_t \<times> virp_chain_verify_result_t" where
  "virp_chain_verify C parse ve st db session from to =
     (case session of
        None \<Rightarrow> (VIRP_ERR_NULL_PTR, result_zero)
      | Some s \<Rightarrow> (case chain_verify_locked C parse ve st db False s from to of (err, r, h) \<Rightarrow> (err, r)))"

section \<open>A whole session\<close>

definition signature_era ::
    "virp_chain_state_t \<Rightarrow> bool \<Rightarrow> bool \<Rightarrow> virp_chain_verify_result_t \<Rightarrow> virp_chain_verify_result_t" where
  "signature_era st unavailable head_is_signed r =
     (if \<not> cs_verify_sig_enabled st \<or> \<not> cs_entry_sig_cols st \<or> unavailable then
        r\<lparr>vr_sig_era := VIRP_CHAIN_SIG_ERA_NOT_GRADED\<rparr>
      else if vr_entries_signed r = 0 \<and> \<not> head_is_signed then r\<lparr>vr_sig_era := VIRP_CHAIN_SIG_ERA_UNSIGNED\<rparr>
      else if vr_entries_signed r > 0 \<and> \<not> head_is_signed then
        r\<lparr>vr_valid := False, vr_sig_era := VIRP_CHAIN_SIG_ERA_NOT_GRADED, vr_error_detail := DSignedNeedSignedHead\<rparr>
      else if vr_entries_unsigned r = 0 then r\<lparr>vr_sig_era := VIRP_CHAIN_SIG_ERA_SIGNED\<rparr>
      else if vr_sig_transition_seq r > 0 \<and> head_is_signed then r\<lparr>vr_sig_era := VIRP_CHAIN_SIG_ERA_FROM_N\<rparr>
      else if vr_sig_transition_seq r > 0 \<and> \<not> head_is_signed then
        r\<lparr>vr_valid := False, vr_sig_era := VIRP_CHAIN_SIG_ERA_NOT_GRADED,
          vr_error_detail := DPrefixWithoutHead (vr_sig_transition_seq r)\<rparr>
      else r\<lparr>vr_sig_era := VIRP_CHAIN_SIG_ERA_NOT_GRADED\<rparr>)"

text \<open>What the verifier reads of the head row.\<close>

definition read_head :: "bool \<Rightarrow> chain_head \<Rightarrow> chain_head" where
  "read_head sig_columns h = h\<lparr>ch_last_entry_hash := take 64 (ch_last_entry_hash h),
     ch_head_hmac := take 64 (ch_head_hmac h),
     ch_head_sig := (if sig_columns then take 128 (ch_head_sig h) else []),
     ch_head_sig_key_id := (if sig_columns then take 32 (ch_head_sig_key_id h) else [])\<rparr>"

definition session_failed :: "chain_detail \<Rightarrow> virp_chain_verify_result_t" where
  "session_failed d = result_zero\<lparr>vr_first_broken := - 1, vr_error_detail := d\<rparr>"

text \<open>The head's own authentication: \<open>None\<close> when nothing speaks against it.\<close>

definition head_mac_failure ::
    "crypto_lib \<Rightarrow> verify_env \<Rightarrow> virp_chain_state_t \<Rightarrow> string \<Rightarrow> chain_head \<Rightarrow>
     (virp_error_t \<times> virp_chain_verify_result_t) option" where
  "head_mac_failure C ve st session h =
     (if \<not> cs_have_chain_key st then None
      else (case head_hmac_hex C (ve_stack ve) st session (ch_last_sequence h) (ch_last_entry_hash h) of
              Inl err \<Rightarrow> Some (VIRP_ERR_CRYPTO, (session_failed DHeadMacUncomputed)\<lparr>vr_to_sequence := ch_last_sequence h\<rparr>)
            | Inr mac \<Rightarrow>
                if \<not> hexdigest_eq (Some mac) (Some (ch_head_hmac h))
                then Some (VIRP_OK, (session_failed DHeadMacMismatch)\<lparr>vr_to_sequence := ch_last_sequence h\<rparr>)
                else None))"

definition head_sig_verifies ::
    "crypto_lib \<Rightarrow> verify_env \<Rightarrow> virp_chain_state_t \<Rightarrow> string \<Rightarrow> chain_head \<Rightarrow> bool" where
  "head_sig_verifies C ve st session h =
     (case virp_chainsign_sig_from_hex (Some (ch_head_sig h)) of
        None \<Rightarrow> False
      | Some sig \<Rightarrow> virp_chainsign_verify C (ve_sodium ve) (Some (cs_verify_pub st)) (Some VIRP_CHAINSIGN_TAG_HEAD)
          (Some (printed (ve_stack ve) 512 (head_canonical session (ch_last_sequence h) (ch_last_entry_hash h)))) (Some sig))"

text \<open>The session-level fields, set after the walk.\<close>

definition session_outcome ::
    "virp_chain_state_t \<Rightarrow> bool \<Rightarrow> bool \<Rightarrow> bool \<Rightarrow> chain_head \<Rightarrow> virp_chain_verify_result_t \<Rightarrow> virp_chain_verify_result_t" where
  "session_outcome st unavailable head_is_signed head_sig_ok h r0 =
     (let r = signature_era st unavailable head_is_signed r0
      in r\<lparr>vr_valid_signed := (vr_valid r \<and> vr_sig_era r = VIRP_CHAIN_SIG_ERA_SIGNED),
           vr_head_hmac_ok := cs_have_chain_key st, vr_head_sig_ok := head_sig_ok,
           vr_head_authenticated := (cs_have_chain_key st \<or> head_sig_ok),
           vr_sig_key_unavailable := unavailable,
           vr_sig_key_id := (if head_is_signed then ch_head_sig_key_id h else [])\<rparr>)"

definition chain_verify_session_locked ::
    "crypto_lib \<Rightarrow> (string \<Rightarrow> json option) \<Rightarrow> verify_env \<Rightarrow> virp_chain_state_t \<Rightarrow> chain_db \<Rightarrow> string \<Rightarrow>
     virp_error_t \<times> virp_chain_verify_result_t" where
  "chain_verify_session_locked C parse ve st db session =
     (if cs_legacy_no_heads st then (VIRP_OK, session_failed DLegacyChain)
      else (case (if ve_sql ve 0 ''head_get'' then db_heads db session else None) of
        None \<Rightarrow>
          (VIRP_OK, session_failed
             (if ve_sql ve 0 ''get_last'' \<and> session_rows db session \<noteq> [] then DHeadMissing else DNoEntries))
      | Some h0 \<Rightarrow>
          let h = read_head (cs_reads_head_sig st) h0;
              head_is_signed = (cs_head_sig_cols st \<and> ch_head_sig h \<noteq> []);
              (sess_signed, sess_kid) = chain_session_sig_state_locked ve 0 st db session;
              unavailable = (cs_verify_sig_enabled st \<and> sess_signed \<and> sess_kid \<noteq> cs_verify_key_id_hex st)
          in if cs_verify_sig_enabled st \<and> sess_signed \<and> \<not> head_is_signed
             then (VIRP_OK, session_failed DSignedNeedSignedHead)
             else (case head_mac_failure C ve st session h of
               Some res \<Rightarrow> res
             | None \<Rightarrow>
                 let head_graded = (cs_verify_sig_enabled st \<and> head_is_signed \<and> \<not> unavailable)
                 in if head_graded \<and> \<not> head_sig_verifies C ve st session h
                    then (VIRP_OK, (session_failed DHeadSignature)\<lparr>vr_to_sequence := ch_last_sequence h\<rparr>)
                    else (case chain_verify_locked C parse ve st db unavailable session 0 (ch_last_sequence h) of
                      (err, r, last_hash) \<Rightarrow>
                        if err \<noteq> VIRP_OK \<or> \<not> vr_valid r then (err, r)
                        else if last_hash \<noteq> ch_last_entry_hash h
                        then (VIRP_OK, r\<lparr>vr_valid := False, vr_first_broken := ch_last_sequence h,
                                         vr_error_detail := DHeadMismatch (ch_last_sequence h)\<rparr>)
                        else (VIRP_OK, session_outcome st unavailable head_is_signed head_graded h r)))))"

definition virp_chain_verify_session ::
    "crypto_lib \<Rightarrow> (string \<Rightarrow> json option) \<Rightarrow> verify_env \<Rightarrow> virp_chain_state_t \<Rightarrow> chain_db \<Rightarrow> string ptr \<Rightarrow>
     virp_error_t \<times> virp_chain_verify_result_t" where
  "virp_chain_verify_session C parse ve st db session =
     (case session of
        None \<Rightarrow> (VIRP_ERR_NULL_PTR, result_zero)
      | Some s \<Rightarrow> chain_verify_session_locked C parse ve st db s)"

section \<open>What a valid result shows\<close>

definition mac_ok :: "crypto_lib \<Rightarrow> virp_chain_state_t \<Rightarrow> virp_chain_entry_t \<Rightarrow> bool" where
  "mac_ok C st e \<longleftrightarrow> (cs_have_chain_key st \<longrightarrow> hmac_by C (sk_key (cs_chain_key st)) e)"

lemma check_integrity_OK:
  "check_integrity C st e w = Inr w' \<longleftrightarrow>
     w' = w \<and> ce_sequence e = ws_expected_seq w \<and> ce_previous_entry_hash e = ws_expected_prev w \<and>
     length (build_canonical_json e) < 2048 \<and>
     ce_chain_entry_hash e = sha256_hex C (string_bytes (build_canonical_json e)) \<and> mac_ok C st e"
  by (auto simp: check_integrity_def Let_def broken_def mac_ok_def hmac_by_def split: sum.splits)

text \<open>The other checks of an entry leave the link, the number, the validity and the count alone.\<close>

definition walk_core :: "walk_state \<Rightarrow> string \<times> int \<times> bool \<times> nat" where
  "walk_core w = (ws_expected_prev w, ws_expected_seq w, vr_valid (ws_result w), vr_entries_checked (ws_result w))"

lemma check_signature_core: "check_signature C ve st c e w = Inr w' \<Longrightarrow> walk_core w' = walk_core w"
  by (auto simp: check_signature_def walk_core_def ws_update_def note_unsigned_def broken_def Let_def split: if_splits)

lemma check_binding_core: "check_binding C ve k db e w = Inr w' \<Longrightarrow> walk_core w' = walk_core w"
  by (auto simp: check_binding_def walk_core_def ws_update_def broken_def split: binding.splits)

lemma check_evidence_core: "check_evidence parse ve k db e w = Inr w' \<Longrightarrow> walk_core w' = walk_core w"
  by (auto simp: check_evidence_def walk_core_def ws_update_def broken_def Let_def split: if_splits sum.splits)

lemma walk_entry_OK:
  assumes "walk_entry C parse ve st db c row w = Inr w'"
  defines "e \<equiv> read_entry_from_stmt (cs_reads_sig st) row"
  shows "ce_sequence e = ws_expected_seq w \<and> ce_previous_entry_hash e = ws_expected_prev w \<and>
    length (build_canonical_json e) < 2048 \<and>
    ce_chain_entry_hash e = sha256_hex C (string_bytes (build_canonical_json e)) \<and> mac_ok C st e \<and>
    walk_core w' = (ce_chain_entry_hash e, ws_expected_seq w + 1, vr_valid (ws_result w), vr_entries_checked (ws_result w) + 1)"
proof -
  obtain w1 w2 w3 w4 where int: "check_integrity C st e w = Inr w1" and sig: "check_signature C ve st c e w1 = Inr w2"
      and bind: "check_binding C ve (vr_entries_checked (ws_result w)) db e w2 = Inr w3"
      and evid: "check_evidence parse ve (vr_entries_checked (ws_result w)) db e w3 = Inr w4" and w': "w' = advance e w4"
    using assms(1) unfolding walk_entry_def e_def Let_def by (auto simp: sbind_Inr_iff)
  have "walk_core w4 = walk_core w"
    using check_signature_core [OF sig] check_binding_core [OF bind] check_evidence_core [OF evid]
      int [unfolded check_integrity_OK] by simp
  then have "walk_core w' = (ce_chain_entry_hash e, ws_expected_seq w + 1, vr_valid (ws_result w), vr_entries_checked (ws_result w) + 1)"
    unfolding w' by (simp add: walk_core_def advance_def ws_update_def)
  then show ?thesis
    using int [unfolded check_integrity_OK] by blast
qed

lemma walk_rows_OK:
  assumes "walk_rows (walk_entry C parse ve st db c) rows w = Inr w'"
  defines "es \<equiv> map (read_entry_from_stmt (cs_reads_sig st)) rows"
  shows "linked C (mac_ok C st) (ws_expected_prev w) (ws_expected_seq w) es \<and>
    walk_core w' = (end_hash (ws_expected_prev w) es, ws_expected_seq w + int (length rows), vr_valid (ws_result w),
      vr_entries_checked (ws_result w) + length rows)"
  using assms(1) unfolding es_def
proof (induction rows arbitrary: w)
  case Nil
  then show ?case
    by (simp add: walk_core_def)
next
  case (Cons r rows)
  let ?e = "read_entry_from_stmt (cs_reads_sig st) r"
  obtain w1 where w1: "walk_entry C parse ve st db c r w = Inr w1" and rest: "walk_rows (walk_entry C parse ve st db c) rows w1 = Inr w'"
    using Cons.prems by (auto simp: sbind_Inr_iff)
  note entry = walk_entry_OK [OF w1]
  have core: "ws_expected_prev w1 = ce_chain_entry_hash ?e" "ws_expected_seq w1 = ws_expected_seq w + 1"
      "vr_valid (ws_result w1) = vr_valid (ws_result w)" "vr_entries_checked (ws_result w1) = vr_entries_checked (ws_result w) + 1"
    using entry by (simp_all add: walk_core_def)
  have "end_hash (ce_chain_entry_hash ?e) (map (read_entry_from_stmt (cs_reads_sig st)) rows) =
      end_hash (ws_expected_prev w) (map (read_entry_from_stmt (cs_reads_sig st)) (r # rows))"
    by (simp add: end_hash_def)
  then show ?case
    using Cons.IH [OF rest] entry unfolding core list.map linked.simps by simp
qed

text \<open>A walk that stopped is not valid, and nothing after the walk makes it valid again.\<close>

lemma broken_fails [simp]: "broken n d w = Inl w' \<Longrightarrow> \<not> vr_valid (ws_result w')" "broken n d w \<noteq> Inr w'"
  by (auto simp: broken_def ws_update_def)

lemma check_integrity_fails: "check_integrity C st e w = Inl w' \<Longrightarrow> \<not> vr_valid (ws_result w')"
  by (auto simp: check_integrity_def Let_def split: if_splits sum.splits)

lemma check_signature_fails: "check_signature C ve st c e w = Inl w' \<Longrightarrow> \<not> vr_valid (ws_result w')"
  by (auto simp: check_signature_def Let_def split: if_splits)

lemma check_binding_fails: "check_binding C ve k db e w = Inl w' \<Longrightarrow> \<not> vr_valid (ws_result w')"
  by (auto simp: check_binding_def ws_update_def split: binding.splits)

lemma check_evidence_fails: "check_evidence parse ve k db e w = Inl w' \<Longrightarrow> \<not> vr_valid (ws_result w')"
  by (auto simp: check_evidence_def Let_def split: if_splits sum.splits)

lemma walk_entry_fails: "walk_entry C parse ve st db c row w = Inl w' \<Longrightarrow> \<not> vr_valid (ws_result w')"
  unfolding walk_entry_def Let_def sbind_Inl_iff
  by (auto dest: check_integrity_fails check_signature_fails check_binding_fails check_evidence_fails)

lemma walk_rows_fails: "walk_rows (walk_entry C parse ve st db c) rows w = Inl w' \<Longrightarrow> \<not> vr_valid (ws_result w')"
  by (induction rows arbitrary: w) (auto simp: sbind_Inl_iff dest: walk_entry_fails)

lemma check_cutover_keeps:
  "vr_entries_checked (check_cutover ve st w) = vr_entries_checked (ws_result w)"
  "vr_valid (check_cutover ve st w) \<Longrightarrow> vr_valid (ws_result w)"
  by (auto simp: check_cutover_def Let_def split: if_splits sum.splits)

lemma check_complete_OK:
  "vr_valid (check_complete from to r) \<longleftrightarrow> vr_valid r \<and> int (vr_entries_checked r) = to - from + 1"
  "vr_valid (check_complete from to r) \<Longrightarrow> check_complete from to r = r"
  by (auto simp: check_complete_def split: if_splits)

lemma verify_range_OK:
  assumes "chain_verify_locked C parse ve st db u s from to = (VIRP_OK, r, h)" and "vr_valid r"
  defines "es \<equiv> map (read_entry_from_stmt (cs_reads_sig st)) (range_rows db s from to)"
  shows "0 \<le> from \<and> from \<le> to \<and> int (length es) = to - from + 1 \<and> ve_rows ve = None \<and>
    (\<exists>prev. expected_previous C ve db s from = Inr (Some prev) \<and> linked C (mac_ok C st) prev from es \<and> h = end_hash prev es)"
proof -
  define c where "c = grades_signatures ve st db u s"
  note def = assms(1) [unfolded chain_verify_locked_def Let_def, folded c_def]
  have range: "\<not> (from < 0 \<or> to < from)"
    using def assms(2) by (auto split: if_splits)
  obtain prev where prev: "expected_previous C ve db s from = Inr (Some prev)"
    using def assms(2) range by (cases "expected_previous C ve db s from" rule: sum.exhaust; cases "projr (expected_previous C ve db s from)")
      (auto simp: expected_previous_def split: if_splits)
  define w0 where "w0 = \<lparr>ws_result = walk_start st c from to, ws_expected_prev = prev, ws_expected_seq = from,
    ws_unsigned_prefix = False, ws_first_signed_seq = - 1, ws_first_signed_ns = 0\<rparr>"
  let ?f = "walk_entry C parse ve st db c"
  note eq = def [unfolded if_not_P [OF range] prev sum.case option.case, folded w0_def]
  have none: "ve_rows ve = None"
  proof (cases "ve_rows ve")
    case (Some n)
    then show ?thesis
      using eq assms(2) walk_rows_fails [of C parse ve st db c "take n (range_rows db s from to)" w0]
      by (cases "walk_rows ?f (take n (range_rows db s from to)) w0") (auto simp: check_complete_OK dest: check_cutover_keeps(2))
  qed
  obtain w where w: "walk_rows ?f (range_rows db s from to) w0 = Inr w"
    using eq assms(2) none walk_rows_fails [of C parse ve st db c "range_rows db s from to" w0]
    by (cases "walk_rows ?f (range_rows db s from to) w0") (auto simp: check_complete_OK dest: check_cutover_keeps(2))
  have r: "r = check_complete from to (check_cutover ve st w)" and h: "h = ws_expected_prev w"
    using eq assms(2) none w by auto
  note walk = walk_rows_OK [OF w]
  have "vr_entries_checked (ws_result w) = length es"
    using walk unfolding walk_core_def w0_def es_def by (simp add: walk_start_def result_zero_def)
  then show ?thesis
    using walk assms(2) r h none range prev unfolding walk_core_def es_def
    by (auto simp: check_complete_OK check_cutover_keeps w0_def)
qed

text \<open>A valid session: what its head commits to is there, linked from the genesis hash to the head.\<close>

lemma verify_session_OK:
  assumes "chain_verify_session_locked C parse ve st db s = (VIRP_OK, r)" and "vr_valid r"
  obtains h es where "db_heads db s = Some h" "es = map (read_entry_from_stmt (cs_reads_sig st)) (range_rows db s 0 (ch_last_sequence h))"
    "int (length es) = ch_last_sequence h + 1" "linked C (mac_ok C st) (compute_genesis_hash C (ve_stack ve) s) 0 es"
    "end_hash (compute_genesis_hash C (ve_stack ve) s) es = take 64 (ch_last_entry_hash h)"
    "cs_have_chain_key st \<longrightarrow>
       head_hmac_hex C (ve_stack ve) st s (ch_last_sequence h) (take 64 (ch_last_entry_hash h)) = Inr (take 64 (ch_head_hmac h))"
proof -
  note def = assms(1) [unfolded chain_verify_session_locked_def Let_def]
  have legacy: "\<not> cs_legacy_no_heads st" and get: "ve_sql ve 0 ''head_get''"
    using def assms(2) by (auto simp: session_failed_def result_zero_def split: if_splits)
  obtain h0 where h0: "db_heads db s = Some h0"
    using def assms(2) legacy get by (cases "db_heads db s") (auto simp: session_failed_def result_zero_def)
  obtain ss sk where ss: "chain_session_sig_state_locked ve 0 st db s = (ss, sk)"
    by fastforce
  define h where "h = read_head (cs_reads_head_sig st) h0"
  define u where "u = (cs_verify_sig_enabled st \<and> ss \<and> sk \<noteq> cs_verify_key_id_hex st)"
  note eq = def [unfolded if_not_P [OF legacy] if_P [OF get] h0 option.case ss prod.case, folded h_def u_def]
  have mac: "head_mac_failure C ve st s h = None"
    using eq assms(2) by (cases "head_mac_failure C ve st s h")
      (auto simp: session_failed_def result_zero_def head_mac_failure_def split: if_splits sum.splits)
  obtain err r' lh where v: "chain_verify_locked C parse ve st db u s 0 (ch_last_sequence h) = (err, r', lh)"
    by (metis prod_cases3)
  have walk: "err = VIRP_OK" "vr_valid r'" "lh = ch_last_entry_hash h"
    using eq assms(2) mac v by (auto simp: session_failed_def result_zero_def split: if_splits)
  note range = verify_range_OK [OF v [unfolded walk(1)] walk(2)]
  have prev: "expected_previous C ve db s 0 = Inr (Some (compute_genesis_hash C (ve_stack ve) s))"
    by (simp add: expected_previous_def)
  have fields: "ch_last_sequence h = ch_last_sequence h0" "ch_last_entry_hash h = take 64 (ch_last_entry_hash h0)"
      "ch_head_hmac h = take 64 (ch_head_hmac h0)"
    by (simp_all add: h_def read_head_def)
  have "cs_have_chain_key st \<longrightarrow>
      head_hmac_hex C (ve_stack ve) st s (ch_last_sequence h0) (take 64 (ch_last_entry_hash h0)) = Inr (take 64 (ch_head_hmac h0))"
    using mac unfolding head_mac_failure_def fields by (auto split: if_splits sum.splits)
  then show thesis
    using range prev walk(3) by (intro that [OF h0 refl]) (auto simp: fields)
qed

definition evidence_detail :: "chain_detail \<Rightarrow> bool" where
  "evidence_detail d = (case d of
     DArtifactBinding n \<Rightarrow> True | DDoubleSpend n \<Rightarrow> True | DTwoClosers n \<Rightarrow> True | DCloserBinding n \<Rightarrow> True
   | DCloserCitation n b \<Rightarrow> True | _ \<Rightarrow> False)"

text \<open>A store that answers every query but perhaps those for the signature state of a session.\<close>

definition store_answers :: "verify_env \<Rightarrow> bool" where
  "store_answers ve \<longleftrightarrow> ve_rows ve = None \<and>
     (\<forall>k q. q \<notin> {''sig_head'', ''sig_any'', ''sig_kid''} \<longrightarrow> ve_sql ve k q)"

lemma read_entry_core: "entry_fits e \<Longrightarrow> entry_core (read_entry_from_stmt b e) = entry_core e \<and>
    ce_chain_entry_hash (read_entry_from_stmt b e) = ce_chain_entry_hash e \<and> ce_chain_hmac (read_entry_from_stmt b e) = ce_chain_hmac e"
  unfolding entry_fits_def read_entry_from_stmt_def entry_core_def
  by (metis (no_types, lifting) virp_chain_entry_t.select_convs(1-14))

lemma canonical_core: "entry_core e = entry_core f \<Longrightarrow> build_canonical_json e = build_canonical_json f"
  unfolding entry_core_def prod.inject build_canonical_json_def by (elim conjE) (simp only:)

section \<open>The verifier on chains the appends wrote\<close>

lemma binding_unreadable_iff:
  "chain_verify_binding_locked C ve k db e = StoreUnreadable \<longleftrightarrow> \<not> ve_sql ve k ''bind_prepare''"
  by (auto simp: chain_verify_binding_locked_def Let_def split: option.splits sum.splits)

lemma check_binding_evidence:
  assumes "store_answers ve"
  shows "(\<exists>w'. check_binding C ve k db e w = Inr w') \<or>
    (\<exists>w'. check_binding C ve k db e w = Inl w' \<and> evidence_detail (vr_error_detail (ws_result w')))"
  using assms binding_unreadable_iff [of C ve k db e]
  by (cases "chain_verify_binding_locked C ve k db e")
    (auto simp: check_binding_def broken_def ws_update_def evidence_detail_def store_answers_def)

lemma check_evidence_evidence:
  "(\<exists>w'. check_evidence parse ve k db e w = Inr w') \<or>
   (\<exists>w'. check_evidence parse ve k db e w = Inl w' \<and> evidence_detail (vr_error_detail (ws_result w')))"
  by (auto simp: check_evidence_def broken_def ws_update_def evidence_detail_def Let_def
      chain_grade_intent_locked_def chain_grade_closer_locked_def split: sum.splits option.splits prod.splits if_splits)

text \<open>
  Where the links hold and no entry signature is refused, the walk ends at the last row or
  stops on the evidence. Signatures are not graded, or no entry has one.
\<close>

definition unsigned_rows :: "virp_chain_state_t \<Rightarrow> bool \<Rightarrow> virp_chain_entry_t list \<Rightarrow> bool" where
  "unsigned_rows st c rows \<longleftrightarrow> (c \<longrightarrow> (\<forall>r \<in> set rows. ce_chain_sig (read_entry_from_stmt (cs_reads_sig st) r) = []))"

lemma check_signature_unsigned:
  assumes "c \<longrightarrow> ce_chain_sig e = []" and "vr_entries_signed (ws_result w) = 0"
  shows "\<exists>w1. check_signature C ve st c e w = Inr w1 \<and> walk_core w1 = walk_core w \<and>
    vr_entries_signed (ws_result w1) = 0 \<and> ws_first_signed_seq w1 = ws_first_signed_seq w \<and>
    vr_entries_unsigned (ws_result w1) = vr_entries_unsigned (ws_result w) +
      (if cs_verify_sig_enabled st \<and> ce_chain_sig e = [] \<or> c then 1 else 0) \<and>
    vr_sig_transition_seq (ws_result w1) = vr_sig_transition_seq (ws_result w)"
  using assms by (auto simp: check_signature_def walk_core_def ws_update_def note_unsigned_def Let_def)

lemma checks_keep_signatures:
  "check_binding C ve k db e w = Inr w1 \<Longrightarrow> ws_first_signed_seq w1 = ws_first_signed_seq w \<and>
     vr_entries_signed (ws_result w1) = vr_entries_signed (ws_result w) \<and>
     vr_entries_unsigned (ws_result w1) = vr_entries_unsigned (ws_result w) \<and>
     vr_sig_transition_seq (ws_result w1) = vr_sig_transition_seq (ws_result w)"
  "check_evidence parse ve k db e w = Inr w1 \<Longrightarrow> ws_first_signed_seq w1 = ws_first_signed_seq w \<and>
     vr_entries_signed (ws_result w1) = vr_entries_signed (ws_result w) \<and>
     vr_entries_unsigned (ws_result w1) = vr_entries_unsigned (ws_result w) \<and>
     vr_sig_transition_seq (ws_result w1) = vr_sig_transition_seq (ws_result w)"
  by (auto simp: check_binding_def check_evidence_def ws_update_def Let_def split: if_splits sum.splits binding.splits)

text \<open>The signature part of a walk's state.\<close>

definition walk_sigs :: "walk_state \<Rightarrow> nat \<times> nat \<times> int \<times> int" where
  "walk_sigs w = (vr_entries_signed (ws_result w), vr_entries_unsigned (ws_result w), ws_first_signed_seq w,
     vr_sig_transition_seq (ws_result w))"

definition row_unsigned :: "virp_chain_state_t \<Rightarrow> bool \<Rightarrow> virp_chain_entry_t \<Rightarrow> nat" where
  "row_unsigned st c row =
     (if cs_verify_sig_enabled st \<and> ce_chain_sig (read_entry_from_stmt (cs_reads_sig st) row) = [] \<or> c then 1 else 0)"

lemma walk_entry_complete:
  assumes ve: "store_answers ve" and sig: "unsigned_rows st c [row]" and sigs: "walk_sigs w = (0, u, f, t)"
    and e: "entry_fits row" "ce_sequence row = ws_expected_seq w" "ce_previous_entry_hash row = ws_expected_prev w"
      "length (build_canonical_json row) < 2048"
      "ce_chain_entry_hash row = sha256_hex C (string_bytes (build_canonical_json row))" "mac_ok C st row"
  shows "(\<exists>w'. walk_entry C parse ve st db c row w = Inr w' \<and> walk_sigs w' = (0, u + row_unsigned st c row, f, t)) \<or>
    (\<exists>w'. walk_entry C parse ve st db c row w = Inl w' \<and> evidence_detail (vr_error_detail (ws_result w')))"
proof -
  let ?e = "read_entry_from_stmt (cs_reads_sig st) row" and ?k = "vr_entries_checked (ws_result w)"
  note rd = read_entry_core [OF e(1), of "cs_reads_sig st"]
  have same: "build_canonical_json ?e = build_canonical_json row" "ce_sequence ?e = ce_sequence row"
      "ce_previous_entry_hash ?e = ce_previous_entry_hash row"
    using canonical_core entry_core_fields rd by metis+
  have "check_integrity C st ?e w = Inr w"
    unfolding check_integrity_OK using e rd same by (simp add: mac_ok_def hmac_by_def)
  moreover obtain w1 where w1: "check_signature C ve st c ?e w = Inr w1" "walk_sigs w1 = (0, u + row_unsigned st c row, f, t)"
    using check_signature_unsigned [of c ?e w C ve st] sig sigs by (auto simp: walk_sigs_def row_unsigned_def unsigned_rows_def)
  ultimately have eq: "walk_entry C parse ve st db c row w =
      sbind (check_binding C ve ?k db ?e w1) (\<lambda>w3. sbind (check_evidence parse ve ?k db ?e w3) (\<lambda>w4. Inr (advance ?e w4)))"
    by (simp add: walk_entry_def Let_def)
  consider w2 w3 where "check_binding C ve ?k db ?e w1 = Inr w2" "check_evidence parse ve ?k db ?e w2 = Inr w3"
    | w2 w3 where "check_binding C ve ?k db ?e w1 = Inr w2" "check_evidence parse ve ?k db ?e w2 = Inl w3" "evidence_detail (vr_error_detail (ws_result w3))"
    | w2 where "check_binding C ve ?k db ?e w1 = Inl w2" "evidence_detail (vr_error_detail (ws_result w2))"
    using check_binding_evidence [OF ve, of C ?k db ?e w1] check_evidence_evidence [of parse ve ?k db ?e] by metis
  then show ?thesis
  proof cases
    case (1 w2 w3)
    have "walk_sigs (advance ?e w3) = walk_sigs w1"
      using checks_keep_signatures(1) [OF 1(1)] checks_keep_signatures(2) [OF 1(2)]
      by (simp add: walk_sigs_def advance_def ws_update_def)
    then show ?thesis
      using eq 1 w1(2) by simp
  qed (simp_all add: eq)
qed

lemma walk_rows_complete:
  assumes "store_answers ve" and "unsigned_rows st c rows" and "walk_sigs w = (0, u, f, t)"
    and "linked C (mac_ok C st) (ws_expected_prev w) (ws_expected_seq w) rows" "\<forall>e \<in> set rows. entry_fits e"
  shows "(\<exists>w'. walk_rows (walk_entry C parse ve st db c) rows w = Inr w' \<and>
      walk_sigs w' = (0, u + sum_list (map (row_unsigned st c) rows), f, t)) \<or>
    (\<exists>w'. walk_rows (walk_entry C parse ve st db c) rows w = Inl w' \<and> evidence_detail (vr_error_detail (ws_result w')))"
  using assms(2-5)
proof (induction rows arbitrary: w u)
  case (Cons row rows)
  then have row: "entry_fits row" and l: "ce_sequence row = ws_expected_seq w" "ce_previous_entry_hash row = ws_expected_prev w"
      "length (build_canonical_json row) < 2048"
      "ce_chain_entry_hash row = sha256_hex C (string_bytes (build_canonical_json row))" "mac_ok C st row"
      and rest: "linked C (mac_ok C st) (ce_chain_entry_hash row) (ws_expected_seq w + 1) rows"
      and un: "unsigned_rows st c [row]" "unsigned_rows st c rows"
    unfolding linked.simps by (auto simp: unsigned_rows_def)
  consider w' where "walk_entry C parse ve st db c row w = Inr w'" "walk_sigs w' = (0, u + row_unsigned st c row, f, t)"
    | w' where "walk_entry C parse ve st db c row w = Inl w'" "evidence_detail (vr_error_detail (ws_result w'))"
    using walk_entry_complete [OF assms(1) un(1) Cons.prems(2) row l, of parse db] by blast
  then show ?case
  proof cases
    case (1 w')
    have "ws_expected_prev w' = ce_chain_entry_hash row" "ws_expected_seq w' = ws_expected_seq w + 1"
      using walk_entry_OK [OF 1(1)] read_entry_core [OF row] by (auto simp: walk_core_def)
    then show ?thesis
      using Cons.IH [OF un(2) 1(2)] rest Cons.prems(4) 1(1) by (simp add: add.assoc)
  qed simp
qed simp

lemma linked_sorted: "linked C P prev n rows \<Longrightarrow> sorted (map ce_sequence rows)"
  by (auto simp: sorted_iff_nth_mono linked_nth)

lemma range_all:
  assumes "linked C P prev 0 (session_rows db s)"
  shows "range_rows db s 0 (int (length (session_rows db s)) - 1) = session_rows db s"
proof -
  have "\<forall>e \<in> set (session_rows db s). 0 \<le> ce_sequence e \<and> ce_sequence e \<le> int (length (session_rows db s)) - 1"
    using linked_nth [OF assms] by (auto simp: in_set_conv_nth)
  then have "filter (\<lambda>e. 0 \<le> ce_sequence e \<and> ce_sequence e \<le> int (length (session_rows db s)) - 1) (session_rows db s) = session_rows db s"
    by (simp add: filter_id_conv)
  then show ?thesis
    unfolding range_rows_def using linked_sorted [OF assms] by (simp add: sort_key_id_if_sorted)
qed

lemma verify_range_complete:
  assumes good: "session_good C (sk_key (cs_chain_key st)) db s"
    and ve: "store_answers ve" and len: "length s \<le> 63" and rows: "session_rows db s \<noteq> []"
    and un: "unsigned_rows st (grades_signatures ve st db u s) (session_rows db s)"
  shows "\<exists>r h. chain_verify_locked C parse ve st db u s 0 (int (length (session_rows db s)) - 1) = (VIRP_OK, r, h) \<and>
    (vr_valid r \<and> h = ce_chain_entry_hash (last (session_rows db s)) \<and> vr_entries_signed r = 0 \<and>
       vr_entries_unsigned r = sum_list (map (row_unsigned st (grades_signatures ve st db u s)) (session_rows db s)) \<and>
       vr_sig_transition_seq r = - 1 \<or>
     \<not> vr_valid r \<and> evidence_detail (vr_error_detail r))"
proof -
  let ?key = "sk_key (cs_chain_key st)" and ?rows = "session_rows db s" and ?c = "grades_signatures ve st db u s"
  let ?n = "int (length ?rows) - 1"
  have linked: "linked C (hmac_by C ?key) (genesis_of C s) 0 ?rows" and fit: "\<forall>e \<in> set ?rows. entry_fits e"
    using good by (auto simp: session_good_def)
  have lm: "linked C (mac_ok C st) (genesis_of C s) 0 ?rows"
    using linked_mono [OF linked] by (simp add: mac_ok_def)
  define w0 where "w0 = \<lparr>ws_result = walk_start st ?c 0 ?n, ws_expected_prev = genesis_of C s, ws_expected_seq = 0,
    ws_unsigned_prefix = False, ws_first_signed_seq = - 1, ws_first_signed_ns = 0\<rparr>"
  let ?walk = "walk_rows (walk_entry C parse ve st db ?c) ?rows w0"
  have range: "\<not> (0 < (0::int) \<or> ?n < 0)"
    using rows by (cases ?rows) simp_all
  have ev: "expected_previous C ve db s 0 = Inr (Some (genesis_of C s))"
    by (simp add: expected_previous_def genesis_short [OF len])
  have vl: "chain_verify_locked C parse ve st db u s 0 ?n =
      (case ?walk of
         Inl w \<Rightarrow> (VIRP_OK, check_complete 0 ?n (check_cutover ve st w), [])
       | Inr w \<Rightarrow> let r = check_complete 0 ?n (check_cutover ve st w)
                  in (VIRP_OK, r, if vr_valid r then ws_expected_prev w else []))"
    using range ve ev unfolding chain_verify_locked_def Let_def w0_def
    by (auto simp: store_answers_def range_all [OF linked] split: sum.splits)
  have "walk_sigs w0 = (0, 0, - 1, - 1)"
    by (simp add: walk_sigs_def w0_def walk_start_def result_zero_def)
  then consider w where "?walk = Inr w" "walk_sigs w = (0, sum_list (map (row_unsigned st ?c) ?rows), - 1, - 1)"
    | w where "?walk = Inl w" "evidence_detail (vr_error_detail (ws_result w))"
    using walk_rows_complete [OF ve un, of w0 0 "- 1" "- 1" C parse db] lm fit by (auto simp: w0_def)
  then show ?thesis
  proof cases
    case (1 w)
    have core: "walk_core w = (end_hash (genesis_of C s) ?rows, int (length ?rows), True, length ?rows)"
      using walk_rows_OK [OF 1(1)] fit read_entry_core rows
      by (simp add: w0_def walk_start_def result_zero_def end_hash_def last_map)
    have "check_cutover ve st w = ws_result w"
      using 1(2) by (simp add: check_cutover_def Let_def walk_sigs_def)
    then have "check_complete 0 ?n (check_cutover ve st w) = ws_result w" "vr_valid (ws_result w)"
        "ws_expected_prev w = ce_chain_entry_hash (last ?rows)"
      using core rows by (simp_all add: check_complete_def walk_core_def end_hash_def)
    then show ?thesis
      using vl 1 by (simp add: walk_sigs_def)
  next
    case (2 w)
    have "\<not> vr_valid (ws_result w)"
      using walk_rows_fails [OF 2(1)] .
    then have "check_complete 0 ?n (check_cutover ve st w) = ws_result w"
      by (simp add: check_complete_def check_cutover_def Let_def)
    then show ?thesis
      using vl 2 \<open>\<not> vr_valid (ws_result w)\<close> by simp
  qed
qed

text \<open>The head of a good session passes the check of its MAC.\<close>

lemma good_head:
  assumes good: "session_good C (sk_key (cs_chain_key st)) db s" and len: "length s \<le> 63"
    and rows: "session_rows db s \<noteq> []" "length (session_rows db s) < 2 ^ 62"
  obtains h where "db_heads db s = Some h" "ch_last_sequence h = int (length (session_rows db s)) - 1"
    "take 64 (ch_last_entry_hash h) = ce_chain_entry_hash (last (session_rows db s))"
    "\<And>b. head_mac_failure C ve st s (read_head b h) = None"
proof -
  let ?key = "sk_key (cs_chain_key st)" and ?rows = "session_rows db s"
  have fit: "\<forall>e \<in> set ?rows. entry_fits e"
    using good by (auto simp: session_good_def)
  obtain h where h: "db_heads db s = Some h" "ch_last_sequence h = int (length ?rows) - 1"
      "ch_last_entry_hash h = ce_chain_entry_hash (last ?rows)" "length (ch_head_hmac h) = 64"
      "hmac_sha256_hex C ?key (string_bytes (head_canonical s (ch_last_sequence h) (ch_last_entry_hash h))) = Inr (ch_head_hmac h)"
    using good rows(1) by (auto simp: session_good_def head_good_def split: option.splits)
  have hlen: "length (ch_last_entry_hash h) \<le> 64"
    using fit rows(1) h(3) unfolding entry_fits_def read_entry_from_stmt_def
    by (metis last_in_set min.cobounded2 length_take virp_chain_entry_t.select_convs(3))
  have "\<bar>ch_last_sequence h\<bar> < 2 ^ 63"
    using rows(2) h(2) by simp
  then have "head_hmac_hex C (ve_stack ve) st s (ch_last_sequence h) (ch_last_entry_hash h) = Inr (ch_head_hmac h)"
    using printed_short [OF head_canonical_short [OF len hlen]] h(5) by (simp add: head_hmac_hex_def)
  then have "head_mac_failure C ve st s (read_head b h) = None" for b
    using h(4) hlen by (simp add: head_mac_failure_def read_head_def)
  then show thesis
    using that h hlen by simp
qed

lemma verify_session_complete:
  assumes good: "session_good C (sk_key (cs_chain_key st)) db s"
    and st: "\<not> cs_verify_sig_enabled st" "\<not> cs_legacy_no_heads st"
    and ve: "store_answers ve" and len: "length s \<le> 63"
    and rows: "session_rows db s \<noteq> []" "length (session_rows db s) < 2 ^ 62"
  shows "\<exists>r. chain_verify_session_locked C parse ve st db s = (VIRP_OK, r) \<and>
    (vr_valid r \<or> evidence_detail (vr_error_detail r))"
proof -
  obtain h where h: "db_heads db s = Some h" "ch_last_sequence h = int (length (session_rows db s)) - 1"
      "take 64 (ch_last_entry_hash h) = ce_chain_entry_hash (last (session_rows db s))"
      "\<And>b. head_mac_failure C ve st s (read_head b h) = None"
    using good_head [OF good len rows] by metis
  have "\<not> grades_signatures ve st db False s"
    using st(1) by (simp add: grades_signatures_def Let_def split: prod.splits)
  then obtain r lh where "chain_verify_locked C parse ve st db False s 0 (ch_last_sequence h) = (VIRP_OK, r, lh)"
      "vr_valid r \<and> lh = take 64 (ch_last_entry_hash h) \<or> \<not> vr_valid r \<and> evidence_detail (vr_error_detail r)"
    using verify_range_complete [OF good ve len rows(1), of False parse] h(2,3) by (auto simp: unsigned_rows_def)
  then show ?thesis
    using st ve h unfolding chain_verify_session_locked_def Let_def
    by (auto simp: store_answers_def read_head_def session_outcome_def signature_era_def Let_def split: prod.splits)
qed

text \<open>A session whose head is signed under the verifier's key and whose entry signatures are not refused.\<close>

lemma verify_session_signed_head:
  assumes good: "session_good C (sk_key (cs_chain_key st)) db s"
    and st: "\<not> cs_legacy_no_heads st" "cs_verify_sig_enabled st" "cs_entry_sig_cols st" "cs_head_sig_cols st" "cs_reads_head_sig st"
    and ve: "store_answers ve" "ve_sql ve 0 ''sig_head''" and len: "length s \<le> 63"
    and rows: "session_rows db s \<noteq> []" "length (session_rows db s) < 2 ^ 62"
    and h: "db_heads db s = Some h" "ch_head_sig h \<noteq> []" "take 32 (ch_head_sig_key_id h) = cs_verify_key_id_hex st"
      "head_sig_verifies C ve st s (read_head True h)"
    and un: "unsigned_rows st (grades_signatures ve st db False s) (session_rows db s)"
  shows "\<exists>r. chain_verify_session_locked C parse ve st db s = (VIRP_OK, r) \<and>
    (vr_valid r \<and>
       (if sum_list (map (row_unsigned st (grades_signatures ve st db False s)) (session_rows db s)) = 0
        then vr_sig_era r = VIRP_CHAIN_SIG_ERA_SIGNED \<and> vr_valid_signed r
        else vr_sig_era r = VIRP_CHAIN_SIG_ERA_NOT_GRADED) \<or>
     evidence_detail (vr_error_detail r))"
proof -
  have h': "ch_last_sequence h = int (length (session_rows db s)) - 1"
      "take 64 (ch_last_entry_hash h) = ce_chain_entry_hash (last (session_rows db s))"
      "\<And>b. head_mac_failure C ve st s (read_head b h) = None"
    using good_head [OF good len rows] h(1) by (metis option.inject)+
  have sig: "chain_session_sig_state_locked ve 0 st db s = (True, cs_verify_key_id_hex st)"
    using st ve(2) h by (simp add: chain_session_sig_state_locked_def)
  define n where "n = sum_list (map (row_unsigned st (grades_signatures ve st db False s)) (session_rows db s))"
  define rh where "rh = read_head True h"
  have rh: "ch_head_sig rh \<noteq> []" "ch_last_sequence rh = ch_last_sequence h" "ch_last_entry_hash rh = take 64 (ch_last_entry_hash h)"
      "head_mac_failure C ve st s rh = None" "head_sig_verifies C ve st s rh"
    using h h'(3) by (simp_all add: rh_def) (simp_all add: read_head_def)
  obtain r lh where "chain_verify_locked C parse ve st db False s 0 (ch_last_sequence h) = (VIRP_OK, r, lh)"
      "vr_valid r \<and> lh = take 64 (ch_last_entry_hash h) \<and> vr_entries_signed r = 0 \<and>
         vr_entries_unsigned r = n \<and> vr_sig_transition_seq r = - 1 \<or> \<not> vr_valid r \<and> evidence_detail (vr_error_detail r)"
    using verify_range_complete [OF good ve(1) len rows(1) un, of parse] h'(1,2) by (auto simp: n_def)
  note walk = this
  have "ve_sql ve 0 ''head_get''" "read_head (cs_reads_head_sig st) h = rh"
    using ve(1) st(5) by (simp_all add: store_answers_def rh_def)
  then have "chain_verify_session_locked C parse ve st db s =
      (if \<not> vr_valid r then (VIRP_OK, r)
       else if lh \<noteq> take 64 (ch_last_entry_hash h)
       then (VIRP_OK, r\<lparr>vr_valid := False, vr_first_broken := ch_last_sequence h, vr_error_detail := DHeadMismatch (ch_last_sequence h)\<rparr>)
       else (VIRP_OK, session_outcome st False True True rh r))"
    unfolding chain_verify_session_locked_def Let_def sig prod.case by (simp add: st h(1) rh walk(1))
  moreover have "session_outcome st False True True rh r = r' \<Longrightarrow> vr_valid r \<Longrightarrow> vr_entries_signed r = 0 \<Longrightarrow>
      vr_entries_unsigned r = n \<Longrightarrow> vr_sig_transition_seq r = - 1 \<Longrightarrow>
      vr_valid r' \<and> (if n = 0 then vr_sig_era r' = VIRP_CHAIN_SIG_ERA_SIGNED \<and> vr_valid_signed r'
                     else vr_sig_era r' = VIRP_CHAIN_SIG_ERA_NOT_GRADED)" for r'
    by (auto simp: session_outcome_def signature_era_def Let_def st)
  ultimately show ?thesis
    using walk(2) unfolding n_def [symmetric] by metis
qed

section \<open>Lookups\<close>

lemma sorted_less_left: "sorted xs \<Longrightarrow> j \<le> m \<Longrightarrow> m < length xs \<Longrightarrow> xs ! m < (k :: string) \<Longrightarrow> xs ! j < k"
  by (meson le_less_trans sorted_nth_mono)

lemma sorted_less_right: "sorted xs \<Longrightarrow> m \<le> j \<Longrightarrow> j < length xs \<Longrightarrow> (k :: string) < xs ! m \<Longrightarrow> k < xs ! j"
  by (meson less_le_trans sorted_nth_mono)

lemma bsearch_finds:
  assumes "sorted xs" and "u \<le> length xs" and "\<forall>j < length xs. xs ! j = k \<longrightarrow> l \<le> j \<and> j < u"
  shows "case bsearch k xs l u of None \<Rightarrow> k \<notin> set xs | Some i \<Rightarrow> i < length xs \<and> xs ! i = k"
  using assms
proof (induction k xs l u rule: bsearch.induct)
  case (1 k xs l u)
  define m where "m = (l + u) div 2"
  note unfold = bsearch.simps [of k xs l u, folded m_def, unfolded Let_def]
  show ?case
  proof (cases "l < u")
    case False
    then have "k \<notin> set xs"
      using "1.prems"(3) by (force simp: in_set_conv_nth)
    then show ?thesis
      unfolding unfold if_not_P [OF False] by simp
  next
    case True
    then have m: "m < length xs" "l \<le> m" "m < u"
      using "1.prems"(2) by (auto simp: m_def)
    consider (below) "k < xs ! m" | (above) "xs ! m < k" "\<not> k < xs ! m" | (here) "xs ! m = k"
      using less_linear [of k "xs ! m"] less_not_sym by blast
    then show ?thesis
    proof cases
      case below
      have "l \<le> j \<and> j < m" if "j < length xs" "xs ! j = k" for j
      proof -
        have "\<not> m \<le> j"
          using sorted_less_right [OF "1.prems"(1) _ that(1) below] that(2) by blast
        then show ?thesis
          using that "1.prems"(3) by simp
      qed
      then show ?thesis
        using "1.IH"(1) [OF True m_def below "1.prems"(1) less_imp_le [OF m(1)]]
        unfolding unfold if_P [OF True] if_P [OF below] by blast
    next
      case above
      have "m + 1 \<le> j \<and> j < u" if "j < length xs" "xs ! j = k" for j
      proof -
        have "\<not> j \<le> m"
          using sorted_less_left [OF "1.prems"(1) _ m(1) above(1)] that(2) by blast
        then show ?thesis
          using that "1.prems"(3) by simp
      qed
      then show ?thesis
        using "1.IH"(2) [OF True m_def above(2,1) "1.prems"(1,2)]
        unfolding unfold if_P [OF True] if_not_P [OF above(2)] if_P [OF above(1)] by blast
    next
      case here
      then show ?thesis
        using m unfolding unfold if_P [OF True] by simp
    qed
  qed
qed

text \<open>The run around a hit is every position of the key.\<close>

lemma run_lo_spec: "run_lo k xs i \<le> i \<and> (\<forall>j. run_lo k xs i \<le> j \<longrightarrow> j < i \<longrightarrow> xs ! j = k) \<and>
    (run_lo k xs i \<noteq> 0 \<longrightarrow> xs ! (run_lo k xs i - 1) \<noteq> k)"
  by (induction i) (auto simp: less_Suc_eq)

lemma run_hi_spec: "i < length xs \<Longrightarrow> i \<le> run_hi k xs i \<and> run_hi k xs i < length xs \<and>
    (\<forall>j. i < j \<longrightarrow> j \<le> run_hi k xs i \<longrightarrow> xs ! j = k) \<and>
    (run_hi k xs i + 1 < length xs \<longrightarrow> xs ! (run_hi k xs i + 1) \<noteq> k)"
proof (induction k xs i rule: run_hi.induct)
  case (1 k xs i)
  show ?case
  proof (cases "i + 1 < length xs \<and> xs ! (i + 1) = k")
    case True
    then have "run_hi k xs i = run_hi k xs (i + 1)"
      unfolding run_hi.simps [of k xs i] if_P [OF True] by blast
    moreover note ih = "1.IH" [OF True conjunct1 [OF True]]
    moreover have "xs ! j = k" if "i < j" "j \<le> run_hi k xs (i + 1)" for j
      using that ih True by (cases "j = i + 1") auto
    ultimately show ?thesis
      by auto
  next
    case False
    have "run_hi k xs i = i"
      unfolding run_hi.simps [of k xs i] if_not_P [OF False] ..
    then show ?thesis
      using False "1.prems" by auto
  qed
qed

lemma run_length:
  assumes "sorted xs" and "i < length xs" and "xs ! i = k"
  shows "run_hi k xs i - run_lo k xs i + 1 = count_list xs k"
proof -
  let ?lo = "run_lo k xs i" and ?hi = "run_hi k xs i"
  note lo = run_lo_spec [of k xs i] and hi = run_hi_spec [OF assms(2), of k]
  have "xs ! j \<noteq> k" if "j < ?lo" for j
  proof
    assume j: "xs ! j = k"
    have "xs ! j \<le> xs ! (?lo - 1)" "xs ! (?lo - 1) \<le> xs ! i"
      using that lo assms(2) by (auto intro!: sorted_nth_mono [OF assms(1)])
    then have "xs ! (?lo - 1) = k"
      unfolding j assms(3) by (rule antisym [rotated])
    then show False
      using lo that by simp
  qed
  moreover have "xs ! j \<noteq> k" if "?hi < j" "j < length xs" for j
  proof
    assume j: "xs ! j = k"
    have "xs ! i \<le> xs ! (?hi + 1)" "xs ! (?hi + 1) \<le> xs ! j"
      using that hi by (auto intro!: sorted_nth_mono [OF assms(1)])
    then have "xs ! (?hi + 1) = k"
      unfolding j assms(3) by (rule antisym [rotated])
    then show False
      using hi that by simp
  qed
  moreover have "xs ! j = k" if "?lo \<le> j" "j \<le> ?hi" for j
    using that lo hi assms(3) by (cases j i rule: linorder_cases) simp_all
  ultimately have "j < length xs \<and> xs ! j = k \<longleftrightarrow> ?lo \<le> j \<and> j \<le> ?hi" for j
    using hi not_le [of ?lo j] not_le [of j ?hi] le_less_trans [of j ?hi "length xs"] by blast
  then have "{j. j < length xs \<and> k = xs ! j} = {?lo..?hi}"
    unfolding set_eq_iff mem_Collect_eq atLeastAtMost_iff by metis
  then show ?thesis
    using lo hi by (simp add: count_list_eq_length_filter length_filter_conv_card Suc_diff_le)
qed

text \<open>Sorting, searching and widening count what a scan of the rows counts.\<close>

lemma count_list_sort_key: "count_list (map f (sort_key f xs)) k = count_list (map f xs) k"
proof -
  have "mset (map f (sort_key f xs)) = mset (map f xs)"
    by simp
  then have "count (mset (map f (sort_key f xs))) k = count (mset (map f xs)) k"
    by (rule arg_cong)
  then show ?thesis
    by (simp only: count_mset)
qed

lemma bsearch_run:
  assumes "sorted xs"
  shows "(case bsearch k xs 0 (length xs) of None \<Rightarrow> 0 | Some i \<Rightarrow> run_hi k xs i - run_lo k xs i + 1) = count_list xs k"
proof -
  have "\<forall>j < length xs. xs ! j = k \<longrightarrow> 0 \<le> j \<and> j < length xs"
    by simp
  note found = bsearch_finds [OF assms order_refl this]
  show ?thesis
  proof (cases "bsearch k xs 0 (length xs)")
    case None
    then show ?thesis
      using found by (simp add: count_list_0_iff)
  next
    case (Some i)
    then have "i < length xs" "xs ! i = k"
      using found by simp_all
    then show ?thesis
      using run_length [OF assms] Some by simp
  qed
qed

lemma count_intents_reference:
  assumes "length aeh \<le> 64" "aeh \<noteq> []" "ve_sql ve k ''intent_map''" "ve_malloc ve"
  shows "chain_count_intents_for_approval_locked parse ve k db aeh = Inr (count_list (intent_refs parse db) aeh)"
proof -
  let ?arr = "sort (intent_refs parse db)"
  have "chain_count_intents_for_approval_locked parse ve k db aeh =
      Inr (case bsearch aeh ?arr 0 (length ?arr) of None \<Rightarrow> 0 | Some i \<Rightarrow> run_hi aeh ?arr i - run_lo aeh ?arr i + 1)"
    using assms by (simp add: chain_count_intents_for_approval_locked_def chain_build_intent_map_locked_def run_of_def split: option.split)
  also have "\<dots> = Inr (count_list ?arr aeh)"
    unfolding bsearch_run [OF sorted_sort] ..
  also have "\<dots> = Inr (count_list (intent_refs parse db) aeh)"
    using count_list_sort_key [of "\<lambda>x. x" "intent_refs parse db" aeh] by simp
  finally show ?thesis .
qed

lemma closers_of_reference:
  assumes "length h \<le> 64"
  shows "fst (closers_of h (sort_key cr_cited rs)) = count_list (map cr_cited rs) h"
proof -
  let ?arr = "map cr_cited (sort_key cr_cited rs)"
  have "fst (closers_of h (sort_key cr_cited rs)) =
      (case bsearch h ?arr 0 (length ?arr) of None \<Rightarrow> 0 | Some i \<Rightarrow> run_hi h ?arr i - run_lo h ?arr i + 1)"
    using assms by (simp add: closers_of_def run_of_def split: option.split)
  also have "\<dots> = count_list ?arr h"
    by (rule bsearch_run) simp
  also have "\<dots> = count_list (map cr_cited rs) h"
    by (rule count_list_sort_key)
  finally show ?thesis .
qed

end
