(* ===== verification/Virp_Chain_Store.thy ===== *)
theory Virp_Chain_Store
  imports Virp_Chain_Verify
begin

text \<open>
  Opening and closing the trust chain (\<open>src/virp_chain.c\<close>): the writer's open with its schema
  checks and its migration, enabling of signatures, the read-only open of a verifier, and the
  listing of sessions. What SQLite finds at the path is an argument (\<open>None\<close>: it cannot be
  opened), and so is, by name, the success of the statements. An open that fails returns its
  error; the handle is then not used.
\<close>

section \<open>Schema\<close>

text \<open>1, 0 and -1 of the code: present, absent, the query failed.\<close>

definition table_exists :: "(string \<Rightarrow> bool) \<Rightarrow> chain_db \<Rightarrow> string \<Rightarrow> bool option" where
  "table_exists sql db name = (if \<not> sql name then None else Some (name \<in> set (db_tables db)))"

definition column_exists :: "(string \<Rightarrow> bool) \<Rightarrow> chain_db \<Rightarrow> string \<Rightarrow> string \<Rightarrow> bool option" where
  "column_exists sql db tbl col = (if \<not> sql col then None else Some ((tbl, col) \<in> set (db_columns db)))"

definition detect_sig_columns :: "(string \<Rightarrow> bool) \<Rightarrow> chain_db \<Rightarrow> virp_chain_state_t \<Rightarrow> virp_chain_state_t" where
  "detect_sig_columns sql db st =
     st\<lparr>cs_entry_sig_cols := (column_exists sql db ''chain_entries'' ''chain_sig'' = Some True),
        cs_head_sig_cols := (column_exists sql db ''chain_heads'' ''head_sig'' = Some True)\<rparr>"

text \<open>CREATE TABLE IF NOT EXISTS: missing tables are added, present ones stay.\<close>

definition ARTIFACTS_SQL :: string where
  "ARTIFACTS_SQL = ''UNIQUE(artifact_id, artifact_hash)''"

definition create_schema :: "chain_db \<Rightarrow> chain_db" where
  "create_schema db =
     db\<lparr>db_tables := remdups (db_tables db @ [''chain_entries'', ''chain_milestones'', ''chain_heads'', ''intents'', ''artifacts'']),
        db_artifacts_sql := (if ''artifacts'' \<in> set (db_tables db) then db_artifacts_sql db else ARTIFACTS_SQL)\<rparr>"

definition legacy_artifacts :: "chain_db \<Rightarrow> bool" where
  "legacy_artifacts db \<longleftrightarrow> strstr (db_artifacts_sql db) ''UNIQUE(artifact_id)'' \<noteq> None \<and>
     strstr (db_artifacts_sql db) ''UNIQUE(artifact_id,'' = None"

text \<open>The rebuild keeps every stored row and changes the key of the table.\<close>

definition migrate_artifacts :: "chain_db \<Rightarrow> chain_db" where
  "migrate_artifacts db = db\<lparr>db_artifacts_sql := ARTIFACTS_SQL\<rparr>"

section \<open>Lifecycle\<close>

definition no_sign_key :: virp_chainsign_key_t where
  "no_sign_key = \<lparr>ck_public_key = replicate 32 0, ck_secret_key = replicate 64 0, ck_key_id = replicate 16 0,
     ck_key_id_hex = [], ck_loaded = False, ck_locked = False\<rparr>"

definition no_chain_key :: virp_signing_key_t where
  "no_chain_key = \<lparr>sk_key = replicate 32 0, sk_loaded = False, sk_type = 0, sk_fingerprint = replicate 32 0, sk_locked = False\<rparr>"

text \<open>The handle after the memset, with the node's identity.\<close>

definition fresh_state :: "u32 \<Rightarrow> string ptr \<Rightarrow> virp_chain_state_t" where
  "fresh_state node_id org_id =
     \<lparr>cs_db = None, cs_chain_key = no_chain_key, cs_node_id = node_id,
      cs_org_id = take 63 (case org_id of Some s \<Rightarrow> s | None \<Rightarrow> ''local''),
      cs_native_epoch = [], cs_sign_enabled = False, cs_sign_key = no_sign_key, cs_entry_sig_cols = False,
      cs_head_sig_cols = False, cs_reads_sig = False, cs_reads_head_sig = False, cs_verify_sig_enabled = False,
      cs_verify_pub = replicate 32 0, cs_verify_key_id_hex = [], cs_have_chain_key = False, cs_read_only = False,
      cs_legacy_no_heads = False\<rparr>"

definition org_refused :: "string ptr \<Rightarrow> bool" where
  "org_refused org_id = (case org_id of None \<Rightarrow> False | Some s \<Rightarrow> \<not> virp_chain_canonical_string_ok (Some s))"

text \<open>Entries without a table of heads are not adopted. A count that cannot be read counts as none.\<close>

definition inspect_heads :: "(string \<Rightarrow> bool) \<Rightarrow> chain_db \<Rightarrow> virp_error_t + unit" where
  "inspect_heads sql db =
     (case (table_exists sql db ''chain_heads'', table_exists sql db ''chain_entries'') of
        (Some had_heads, Some had_entries) \<Rightarrow>
          if \<not> had_heads \<and> had_entries \<and> sql ''count'' \<and> db_entries db \<noteq> [] then Inl VIRP_ERR_CHAIN_BROKEN
          else Inr ()
      | _ \<Rightarrow> Inl VIRP_ERR_CHAIN_DB)"

text \<open>Schema, migration of the artifacts table, and preparation of the statements.\<close>

definition prepare_store :: "(string \<Rightarrow> bool) \<Rightarrow> chain_db \<Rightarrow> virp_error_t + chain_db" where
  "prepare_store sql db =
     (if \<not> sql ''schema'' then Inl VIRP_ERR_CHAIN_DB
      else let db1 = create_schema db; legacy = (sql ''artifacts_sql'' \<and> legacy_artifacts db1)
           in if legacy \<and> \<not> sql ''migrate'' then Inl VIRP_ERR_CHAIN_DB
              else if \<not> sql ''prepare'' then Inl VIRP_ERR_CHAIN_DB
              else Inr (if legacy then migrate_artifacts db1 else db1))"

definition virp_chain_init ::
    "crypto_lib \<Rightarrow> fsys \<Rightarrow> nat \<Rightarrow> bool \<Rightarrow> (string \<Rightarrow> bool) \<Rightarrow> (string \<Rightarrow> chain_db option) \<Rightarrow> string ptr \<Rightarrow> string ptr \<Rightarrow> u32 \<Rightarrow>
     string ptr \<Rightarrow> virp_error_t + virp_chain_state_t" where
  "virp_chain_init C fs euid mlock_ok sql open_db db_path key_path node_id org_id =
     (case (db_path, key_path) of
        (Some dp, Some kp) \<Rightarrow>
          if org_refused org_id then Inl VIRP_ERR_INVALID_LENGTH
          else sbind (virp_key_load_file C fs euid mlock_ok VIRP_KEY_TYPE_CHAIN (Some kp)) (\<lambda>key.
            case open_db dp of
              None \<Rightarrow> Inl VIRP_ERR_CHAIN_DB
            | Some db \<Rightarrow>
                sbind (inspect_heads sql db) (\<lambda>_.
                sbind (prepare_store sql db) (\<lambda>db'.
                Inr ((detect_sig_columns sql db' ((fresh_state node_id org_id)\<lparr>cs_chain_key := key\<rparr>))
                       \<lparr>cs_db := Some db', cs_have_chain_key := True\<rparr>))))
      | _ \<Rightarrow> Inl VIRP_ERR_NULL_PTR)"

definition SIG_COLUMNS :: "(string \<times> string) list" where
  "SIG_COLUMNS = [(''chain_entries'', ''chain_sig''), (''chain_entries'', ''chain_sig_key_id''),
     (''chain_heads'', ''head_sig''), (''chain_heads'', ''head_sig_key_id'')]"

text \<open>The loop that adds the missing columns: it stops at the first failure, with what it added so far.\<close>

fun add_columns :: "(string \<Rightarrow> bool) \<Rightarrow> (string \<Rightarrow> bool) \<Rightarrow> (string \<times> string) list \<Rightarrow> chain_db \<Rightarrow> bool \<times> chain_db" where
  "add_columns sql alter [] db = (True, db)"
| "add_columns sql alter ((tbl, col) # cols) db =
     (case column_exists sql db tbl col of
        None \<Rightarrow> (False, db)
      | Some True \<Rightarrow> add_columns sql alter cols db
      | Some False \<Rightarrow> if \<not> alter col then (False, db)
                       else add_columns sql alter cols (db\<lparr>db_columns := db_columns db @ [(tbl, col)]\<rparr>))"

definition virp_chain_enable_signing ::
    "crypto_lib \<Rightarrow> bool \<Rightarrow> bool \<Rightarrow> fsys \<Rightarrow> nat \<Rightarrow> (string \<Rightarrow> bool) \<Rightarrow> (string \<Rightarrow> bool) \<Rightarrow> virp_chain_state_t \<Rightarrow> string ptr \<Rightarrow>
     virp_error_t \<times> virp_chain_state_t" where
  "virp_chain_enable_signing C init_ok mlock_ok fs euid sql alter st sk_path =
     (case sk_path of
        None \<Rightarrow> (VIRP_ERR_NULL_PTR, st)
      | Some p \<Rightarrow>
          (case cs_db st of
             None \<Rightarrow> (VIRP_ERR_CHAIN_DB, st)
           | Some db \<Rightarrow>
               if cs_read_only st then (VIRP_ERR_CHAIN_READONLY, st)
               else (case virp_chainsign_load C init_ok mlock_ok fs euid (Some p) of
                       Inl e \<Rightarrow> (e, st)
                     | Inr key \<Rightarrow>
                         (case add_columns sql alter SIG_COLUMNS db of
                            (False, db') \<Rightarrow>
                              (VIRP_ERR_CHAIN_DB, st\<lparr>cs_db := Some db', cs_sign_key := virp_chainsign_destroy key\<rparr>)
                          | (True, db') \<Rightarrow>
                              if \<not> sql ''prepare'' then
                                (VIRP_ERR_CHAIN_DB, st\<lparr>cs_db := Some db', cs_sign_key := virp_chainsign_destroy key\<rparr>)
                              else (VIRP_OK, st\<lparr>cs_db := Some db', cs_sign_key := key, cs_entry_sig_cols := True,
                                                cs_head_sig_cols := True, cs_sign_enabled := True\<rparr>)))))"

definition load_hmac_key ::
    "crypto_lib \<Rightarrow> fsys \<Rightarrow> nat \<Rightarrow> bool \<Rightarrow> string ptr \<Rightarrow> virp_chain_state_t \<Rightarrow> virp_error_t + virp_chain_state_t" where
  "load_hmac_key C fs euid mlock_ok key_path st =
     (case key_path of
        None \<Rightarrow> Inr st
      | Some kp \<Rightarrow> sbind (virp_key_load_file C fs euid mlock_ok VIRP_KEY_TYPE_CHAIN (Some kp))
                    (\<lambda>key. Inr (st\<lparr>cs_chain_key := key, cs_have_chain_key := True\<rparr>)))"

definition load_public_key ::
    "crypto_lib \<Rightarrow> bool \<Rightarrow> fsys \<Rightarrow> nat \<Rightarrow> string ptr \<Rightarrow> virp_chain_state_t \<Rightarrow> virp_error_t + virp_chain_state_t" where
  "load_public_key C init_ok fs euid pubkey_path st =
     (case pubkey_path of
        None \<Rightarrow> Inr st
      | Some pp \<Rightarrow> sbind (virp_chainsign_load_public C init_ok fs euid (Some pp))
                    (\<lambda>(pk, kid). Inr (st\<lparr>cs_verify_pub := pk, cs_verify_key_id_hex := kid, cs_verify_sig_enabled := True\<rparr>)))"

definition attach_verifier ::
    "(string \<Rightarrow> bool) \<Rightarrow> chain_db option \<Rightarrow> virp_chain_state_t \<Rightarrow> virp_error_t + virp_chain_state_t" where
  "attach_verifier sql opened st =
     (case opened of
        None \<Rightarrow> Inl VIRP_ERR_CHAIN_DB
      | Some db \<Rightarrow>
          if table_exists sql db ''chain_entries'' \<noteq> Some True then Inl VIRP_ERR_CHAIN_DB
          else (case table_exists sql db ''chain_heads'' of
                  None \<Rightarrow> Inl VIRP_ERR_CHAIN_DB
                | Some has_heads \<Rightarrow>
                    let st1 = detect_sig_columns sql db (st\<lparr>cs_db := Some db, cs_legacy_no_heads := \<not> has_heads\<rparr>)
                    in if \<not> sql ''prepare'' then Inl VIRP_ERR_CHAIN_DB
                       else Inr (st1\<lparr>cs_reads_sig := cs_entry_sig_cols st1, cs_reads_head_sig := cs_head_sig_cols st1\<rparr>)))"

definition virp_chain_open_verifier_ex ::
    "crypto_lib \<Rightarrow> bool \<Rightarrow> fsys \<Rightarrow> nat \<Rightarrow> bool \<Rightarrow> (string \<Rightarrow> bool) \<Rightarrow> (string \<Rightarrow> chain_db option) \<Rightarrow> string ptr \<Rightarrow> string ptr \<Rightarrow>
     string ptr \<Rightarrow> u32 \<Rightarrow> string ptr \<Rightarrow> virp_error_t + virp_chain_state_t" where
  "virp_chain_open_verifier_ex C init_ok fs euid mlock_ok sql open_db db_path key_path pubkey_path node_id org_id =
     (case db_path of
        None \<Rightarrow> Inl VIRP_ERR_NULL_PTR
      | Some dp \<Rightarrow>
          if org_refused org_id then Inl VIRP_ERR_INVALID_LENGTH
          else sbind (load_hmac_key C fs euid mlock_ok key_path ((fresh_state node_id org_id)\<lparr>cs_read_only := True\<rparr>)) (\<lambda>st1.
               sbind (load_public_key C init_ok fs euid pubkey_path st1) (\<lambda>st2.
               attach_verifier sql (open_db dp) st2)))"

definition virp_chain_open_verifier ::
    "crypto_lib \<Rightarrow> bool \<Rightarrow> fsys \<Rightarrow> nat \<Rightarrow> bool \<Rightarrow> (string \<Rightarrow> bool) \<Rightarrow> (string \<Rightarrow> chain_db option) \<Rightarrow> string ptr \<Rightarrow> string ptr \<Rightarrow>
     u32 \<Rightarrow> string ptr \<Rightarrow> virp_error_t + virp_chain_state_t" where
  "virp_chain_open_verifier C init_ok fs euid mlock_ok sql open_db db_path key_path node_id org_id =
     (case key_path of
        None \<Rightarrow> Inl VIRP_ERR_NULL_PTR
      | Some kp \<Rightarrow> virp_chain_open_verifier_ex C init_ok fs euid mlock_ok sql open_db db_path (Some kp) None node_id org_id)"

definition virp_chain_destroy :: "virp_chain_state_t \<Rightarrow> virp_chain_state_t" where
  "virp_chain_destroy st =
     (fresh_state 0 None)\<lparr>cs_org_id := [], cs_chain_key := virp_key_destroy (cs_chain_key st)\<rparr>"

section \<open>Listing sessions\<close>

definition VIRP_CHAIN_LIST_SESSIONS_DEFAULT :: int where [simp]: "VIRP_CHAIN_LIST_SESSIONS_DEFAULT = 20"
definition VIRP_CHAIN_LIST_SESSIONS_MAX :: int where [simp]: "VIRP_CHAIN_LIST_SESSIONS_MAX = 200"

record session_row =
  sr_session_id :: string
  sr_first_sequence :: int
  sr_last_sequence :: int
  sr_entries :: nat
  sr_last_timestamp_ns :: int

text \<open>The aggregate query: one row for a session, the most recently written first.\<close>

definition session_summary :: "chain_db \<Rightarrow> string \<Rightarrow> session_row" where
  "session_summary db s =
     (let rows = session_rows db s; seqs = map ce_sequence rows; ts = map (\<lambda>e. sint (ce_timestamp_ns e)) rows
      in \<lparr>sr_session_id = s, sr_first_sequence = fold min seqs (hd seqs), sr_last_sequence = fold max seqs (hd seqs),
          sr_entries = length rows, sr_last_timestamp_ns = fold max ts (hd ts)\<rparr>)"

definition session_list :: "chain_db \<Rightarrow> session_row list" where
  "session_list db =
     sort_key (\<lambda>r. - sr_last_timestamp_ns r)
       (map (session_summary db) (sort (remdups (map ce_session_id (db_entries db)))))"

definition session_json :: "bool \<Rightarrow> session_row \<Rightarrow> string" where
  "session_json first r =
     (if first then [] else '','') @ ''{'' @ qfield ''session_id'' (sr_session_id r) @ '','' @
     nfield ''first_sequence'' (dec_int (sr_first_sequence r)) @ '','' @
     nfield ''last_sequence'' (dec_int (sr_last_sequence r)) @ '','' @
     nfield ''entries'' (dec (sr_entries r)) @ '','' @
     nfield ''last_timestamp_ns'' (dec_int (sr_last_timestamp_ns r)) @ ''}''"

text \<open>The rows that fit: whole rows, with room left for the closing fields.\<close>

fun list_rows :: "nat \<Rightarrow> session_row list \<Rightarrow> nat \<Rightarrow> string \<Rightarrow> string \<times> nat \<times> bool" where
  "list_rows out_len [] num out = (out, num, False)"
| "list_rows out_len (r # rs) num out =
     (let row = session_json (num = 0) r
      in if length row \<ge> 256 \<or> length out + length row + 64 \<ge> out_len then (out, num, True)
         else list_rows out_len rs (num + 1) (out @ row))"

definition LIST_OPEN :: string where
  "LIST_OPEN = ''{'' @ [CHR 0x22] @ ''sessions'' @ [CHR 0x22] @ '':[''"

definition list_tail :: "nat \<Rightarrow> int \<Rightarrow> bool \<Rightarrow> string" where
  "list_tail num limit truncated =
     ''],'' @ nfield ''count'' (dec num) @ '','' @ nfield ''limit'' (dec_int limit) @ '','' @
     nfield ''truncated'' (if truncated then ''true'' else ''false'') @ ''}''"

text \<open>\<open>rows_ok\<close> is the number of rows delivered before the query fails, \<open>None\<close> when it does not.\<close>

definition virp_chain_list_sessions ::
    "bool \<Rightarrow> nat option \<Rightarrow> virp_chain_state_t ptr \<Rightarrow> int \<Rightarrow> nat \<Rightarrow> virp_error_t + string" where
  "virp_chain_list_sessions prepare_ok rows_ok state limit0 out_len =
     (case state of
        None \<Rightarrow> Inl VIRP_ERR_NULL_PTR
      | Some st \<Rightarrow>
          if out_len < 64 then Inl VIRP_ERR_BUFFER_TOO_SMALL
          else let limit1 = (if limit0 \<le> 0 then VIRP_CHAIN_LIST_SESSIONS_DEFAULT else limit0);
                   limit = (if limit1 > VIRP_CHAIN_LIST_SESSIONS_MAX then VIRP_CHAIN_LIST_SESSIONS_MAX else limit1)
               in (case cs_db st of
                     None \<Rightarrow> Inl VIRP_ERR_CHAIN_DB
                   | Some db \<Rightarrow>
                       if \<not> prepare_ok then Inl VIRP_ERR_CHAIN_DB
                       else let rows = take (nat limit) (session_list db);
                                (out, num, truncated) =
                                  list_rows out_len (case rows_ok of None \<Rightarrow> rows | Some n \<Rightarrow> take n rows) 0 LIST_OPEN
                            in if rows_ok \<noteq> None \<and> \<not> truncated then Inl VIRP_ERR_CHAIN_DB
                               else let tail = list_tail num limit truncated
                                    in if length tail \<ge> out_len - length out then Inl VIRP_ERR_BUFFER_TOO_SMALL
                                       else Inr (out @ tail)))"

section \<open>Facts about the handles\<close>

lemma list_rows_fit:
  assumes "list_rows n rs c out = (out', c', t)" and "length out + 64 \<le> n"
  shows "length out' + 64 \<le> n \<and> c \<le> c' \<and> c' \<le> c + length rs"
  using assms
proof (induction n rs c out arbitrary: out' c' t rule: list_rows.induct)
  case (2 n r rs c out)
  show ?case
  proof (cases "length (session_json (c = 0) r) \<ge> 256 \<or> length out + length (session_json (c = 0) r) + 64 \<ge> n")
    case False
    then show ?thesis
      using "2.IH" [OF refl False, of out' c' t] "2.prems" by (simp add: Let_def)
  qed (use "2.prems" in \<open>simp add: Let_def\<close>)
qed simp

text \<open>Every entry point that writes refuses a read-only handle and leaves it as it is.\<close>

lemma readonly_refuses:
  assumes "cs_read_only st"
  shows "\<exists>x. chain_append_locked C ev st session atype aid ahash content = (Inl x, st)"
    and "\<exists>x. chain_intent_store_locked C ev st entry = (Inl x, st)"
    and "\<exists>x. chain_intent_execute_locked ev st iid = (Inl x, st)"
    and "\<exists>x. virp_chain_artifact_store ev (Some st) aid atype content ahash session = Inl x"
    and "\<exists>x. virp_chain_enable_signing C i m fs euid sql alter st sk = (x, st) \<and> x \<noteq> VIRP_OK"
  using assms
  by (auto simp: chain_append_locked_def chain_intent_store_locked_def chain_intent_execute_locked_def
      virp_chain_artifact_store_def chain_artifact_store_locked_def virp_chain_enable_signing_def
      split: option.splits)

lemma detect_keeps [simp]:
  "cs_db (detect_sig_columns sql db st) = cs_db st" "cs_read_only (detect_sig_columns sql db st) = cs_read_only st"
  "cs_org_id (detect_sig_columns sql db st) = cs_org_id st" "cs_chain_key (detect_sig_columns sql db st) = cs_chain_key st"
  "cs_legacy_no_heads (detect_sig_columns sql db st) = cs_legacy_no_heads st"
  "cs_verify_sig_enabled (detect_sig_columns sql db st) = cs_verify_sig_enabled st"
  "cs_sign_enabled (detect_sig_columns sql db st) = cs_sign_enabled st"
  by (simp_all add: detect_sig_columns_def)

lemma load_hmac_key_OK:
  assumes "load_hmac_key C fs euid m kp st = Inr st'"
  shows "cs_read_only st' = cs_read_only st \<and> cs_verify_sig_enabled st' = cs_verify_sig_enabled st \<and>
    cs_sign_enabled st' = cs_sign_enabled st"
  using assms by (auto simp: load_hmac_key_def sbind_Inr_iff split: option.splits)

lemma load_public_key_OK:
  assumes "load_public_key C i fs euid pp st = Inr st'"
  shows "cs_read_only st' = cs_read_only st \<and> cs_verify_sig_enabled st' = (cs_verify_sig_enabled st \<or> pp \<noteq> None) \<and>
    cs_sign_enabled st' = cs_sign_enabled st"
  using assms by (auto simp: load_public_key_def sbind_Inr_iff split: option.splits)

lemma attach_verifier_OK:
  assumes "attach_verifier sql opened st = Inr st'"
  shows "\<exists>db. opened = Some db \<and> cs_db st' = Some db \<and> cs_read_only st' = cs_read_only st \<and>
    cs_legacy_no_heads st' = (''chain_heads'' \<notin> set (db_tables db)) \<and>
    cs_verify_sig_enabled st' = cs_verify_sig_enabled st \<and> cs_sign_enabled st' = cs_sign_enabled st"
  using assms by (auto simp: attach_verifier_def table_exists_def Let_def split: option.splits if_splits)

lemma open_verifier_OK:
  assumes "virp_chain_open_verifier_ex C i fs euid m sql open_db dp kp pp node org = Inr st"
  obtains p db where "dp = Some p" "open_db p = Some db" "cs_db st = Some db" "cs_read_only st"
    "cs_legacy_no_heads st = (''chain_heads'' \<notin> set (db_tables db))"
    "cs_verify_sig_enabled st = (pp \<noteq> None)" "\<not> cs_sign_enabled st"
proof -
  obtain p st1 st2 where p: "dp = Some p"
      and st: "load_hmac_key C fs euid m kp ((fresh_state node org)\<lparr>cs_read_only := True\<rparr>) = Inr st1"
        "load_public_key C i fs euid pp st1 = Inr st2" "attach_verifier sql (open_db p) st2 = Inr st"
    using assms by (auto simp: virp_chain_open_verifier_ex_def sbind_Inr_iff split: option.splits if_splits)
  show thesis
    using attach_verifier_OK [OF st(3)] load_public_key_OK [OF st(2)] load_hmac_key_OK [OF st(1)] that [OF p]
    by (auto simp: fresh_state_def)
qed

lemma init_OK:
  assumes "virp_chain_init C fs euid m sql open_db dp kp node org = Inr st"
  obtains p db where "dp = Some p" "open_db p = Some db" "\<not> org_refused org" "inspect_heads sql db = Inr ()"
    "cs_org_id st = take 63 (case org of Some s \<Rightarrow> s | None \<Rightarrow> ''local'')" "\<not> cs_read_only st"
    "\<exists>db'. cs_db st = Some db' \<and> db_entries db' = db_entries db \<and> db_heads db' = db_heads db \<and> db_artifacts db' = db_artifacts db"
proof -
  obtain p k where p: "dp = Some p" "kp = Some k"
    using assms by (cases dp; cases kp) (auto simp: virp_chain_init_def)
  obtain key db db' where "\<not> org_refused org" "open_db p = Some db" "inspect_heads sql db = Inr ()"
      and prep: "prepare_store sql db = Inr db'"
      and st: "st = (detect_sig_columns sql db' ((fresh_state node org)\<lparr>cs_chain_key := key\<rparr>))
                 \<lparr>cs_db := Some db', cs_have_chain_key := True\<rparr>"
    using assms unfolding virp_chain_init_def p option.case prod.case
    by (auto simp: sbind_Inr_iff split: if_splits option.splits)
  moreover have "db_entries db' = db_entries db \<and> db_heads db' = db_heads db \<and> db_artifacts db' = db_artifacts db"
    using prep by (auto simp: prepare_store_def create_schema_def migrate_artifacts_def Let_def split: if_splits)
  ultimately show thesis
    using that [OF p(1)] by (simp add: fresh_state_def)
qed

lemma init_org_clean:
  assumes "virp_chain_init C fs euid m sql open_db dp kp node org = Inr st"
  shows "quote_free (cs_org_id st)"
proof -
  have "\<not> org_refused org" and org: "cs_org_id st = take 63 (case org of Some s \<Rightarrow> s | None \<Rightarrow> ''local'')"
    using init_OK [OF assms] by metis+
  then have "quote_free (case org of Some s \<Rightarrow> s | None \<Rightarrow> ''local'')"
    by (auto simp: org_refused_def virp_chain_canonical_string_ok_def canonical_chars_quote_free quote_free_def
        split: option.splits dest: canonical_chars_quote_free [unfolded quote_free_def])
  then show ?thesis
    unfolding org by (rule quote_free_take)
qed

section \<open>Facts the properties share\<close>

text \<open>A handle whose connection kept a transaction open accepts no further append.\<close>

lemma open_txn_blocks:
  assumes "cs_db st = Some db" and "db_in_txn db"
  shows "\<exists>x. chain_append_locked C ev st session atype aid ahash content = (Inl x, st)"
  using assms by (auto simp: chain_append_locked_def split: option.splits sum.splits)

text \<open>Rows behind the head's last sequence take no part in the verification of a session.\<close>

lemma check_evidence_plain:
  assumes "ce_artifact_type e \<notin> {''gate_intent'', ''gate_execution'', ''outcome''}"
  shows "check_evidence parse ve k db e w = Inr w"
  using assms by (simp add: check_evidence_def Let_def)

lemma walk_rows_cong:
  assumes "\<And>r w. r \<in> set rows \<Longrightarrow> f r w = g r w"
  shows "walk_rows f rows w = walk_rows g rows w"
proof -
  have "walk_rows f rs = walk_rows g rs" if "set rs \<subseteq> set rows" for rs
    using that
  proof (induction rs)
    case (Cons r rs)
    then have "walk_rows f (r # rs) w = walk_rows g (r # rs) w" for w
      using assms by simp
    then show ?case
      by blast
  qed (rule ext, simp)
  then show ?thesis
    by simp
qed

lemma trailing_row_unseen:
  assumes sig: "\<not> cs_verify_sig_enabled st" and h: "db_heads db s = Some h" "ch_last_sequence h < ce_sequence e"
    and plain: "\<forall>r \<in> set (session_rows db s). take 15 (ce_artifact_type r) \<notin> {''gate_intent'', ''gate_execution'', ''outcome''}"
    and ve: "ve_sql ve 0 ''head_get''"
  shows "chain_verify_session_locked C parse ve st (db\<lparr>db_entries := db_entries db @ [e]\<rparr>) s = chain_verify_session_locked C parse ve st db s"
proof -
  let ?db = "db\<lparr>db_entries := db_entries db @ [e]\<rparr>" and ?n = "ch_last_sequence h"
  have rows: "range_rows ?db s 0 ?n = range_rows db s 0 ?n"
    using h(2) by (simp add: range_rows_def session_rows_def)
  have grades: "\<not> grades_signatures ve st d u s" for d u
    using sig by (simp add: grades_signatures_def Let_def split: prod.splits)
  have bind: "chain_verify_binding_locked C ve k ?db x = chain_verify_binding_locked C ve k db x" for k x
    by (simp add: chain_verify_binding_locked_def stored_body_def)
  have entry: "walk_entry C parse ve st ?db False r w = walk_entry C parse ve st db False r w"
    if "r \<in> set (range_rows db s 0 ?n)" for r w
  proof -
    have "take 15 (ce_artifact_type r) \<notin> {''gate_intent'', ''gate_execution'', ''outcome''}"
      using plain that by (auto simp: range_rows_def)
    then have "ce_artifact_type (read_entry_from_stmt b r) \<notin> {''gate_intent'', ''gate_execution'', ''outcome''}" for b
      by (simp add: read_entry_from_stmt_def)
    then show ?thesis
      unfolding walk_entry_def Let_def check_binding_def bind by (simp add: check_evidence_plain)
  qed
  have prev: "expected_previous C ve ?db s 0 = expected_previous C ve db s 0"
    by (simp add: expected_previous_def)
  have walk: "walk_rows (walk_entry C parse ve st ?db False) rs w = walk_rows (walk_entry C parse ve st db False) rs w"
    if "set rs \<subseteq> set (range_rows db s 0 ?n)" for rs w
    using entry that by (intro walk_rows_cong) auto
  have range: "chain_verify_locked C parse ve st ?db False s 0 ?n = chain_verify_locked C parse ve st db False s 0 ?n"
    unfolding chain_verify_locked_def rows prev Let_def
    by (simp only: grades walk [OF order_refl] walk [OF set_take_subset])
  obtain a b c d where sigs: "chain_session_sig_state_locked ve 0 st ?db s = (a, b)" "chain_session_sig_state_locked ve 0 st db s = (c, d)"
    by fastforce
  have "ch_last_sequence (read_head x h) = ?n" for x
    by (simp add: read_head_def)
  then show ?thesis
    unfolding chain_verify_session_locked_def Let_def sigs prod.case by (simp add: sig h(1) ve range split: option.split prod.split)
qed

text \<open>An append whose request is well formed and whose statements run is accepted.\<close>

lemma length_dec_word: "length (dec (unat (x :: u64))) \<le> 20" "length (dec (unat (y :: u32))) \<le> 20"
proof -
  have "unat x < 2 ^ LENGTH(64)" "unat y < 2 ^ LENGTH(32)"
    by (rule unsigned_less)+
  then have "unat x < 10 ^ 20" "unat y < 10 ^ 20"
    by simp_all
  then show "length (dec (unat x)) \<le> 20" "length (dec (unat y)) \<le> 20"
    unfolding dec_def by (auto intro!: num_digits_length)
qed

lemma canonical_short:
  assumes "\<bar>n\<bar> < 2 ^ 63"
  shows "length (build_canonical_json (new_entry ev st s n p t i h)) < 2048"
proof -
  have "min (length s) 63 \<le> 63" "min (length p) 64 \<le> 64" "min (length t) 15 \<le> 15" "min (length i) 127 \<le> 127"
      "min (length h) 64 \<le> 64" "min (length (cs_org_id st)) 63 \<le> 63"
    by simp_all
  moreover note length_dec_int [OF assms] length_dec_word(1) [of "ev_mono ev"] length_dec_word(1) [of "ev_wall ev 0"]
    length_dec_word(2) [of "cs_node_id st"]
  ultimately show ?thesis
    unfolding build_canonical_json_def new_entry_def qfield_def nfield_def by simp
qed

lemma next_link_good:
  assumes good: "session_good C key db s" and len: "length s \<le> 63" and sql: "ev_sql ev ''get_last''"
  shows "next_link C ev db s = (int (length (session_rows db s)), end_hash (genesis_of C s) (session_rows db s))"
proof -
  obtain n p where np: "next_link C ev db s = (n, p)"
    by fastforce
  have l: "linked C (hmac_by C key) (genesis_of C s) 0 (session_rows db s)"
    using good by (simp add: session_good_def)
  have n: "n = int (length (session_rows db s))"
  proof (cases "session_rows db s = []")
    case False
    have "int (length (session_rows db s) - 1) + 1 = int (length (session_rows db s))"
      using False by (cases "session_rows db s") simp_all
    then show ?thesis
      using np sql linked_last_row [OF l False] linked_nth [OF l, of "length (session_rows db s) - 1"] False
      by (simp add: next_link_def last_conv_nth)
  qed (use np sql in \<open>simp add: next_link_def\<close>)
  have "\<not> list_ex (\<lambda>f. ce_session_id f = s \<and> ce_sequence f = n) (db_entries db)"
  proof
    assume "list_ex (\<lambda>f. ce_session_id f = s \<and> ce_sequence f = n) (db_entries db)"
    then obtain f where "f \<in> set (session_rows db s)" "ce_sequence f = n"
      by (auto simp: list_ex_iff session_rows_def)
    then show False
      using linked_nth [OF l] n by (auto simp: in_set_conv_nth)
  qed
  then show ?thesis
    using next_link_continues [OF good len np] np by simp
qed

text \<open>A request as the API documents it, on a handle without native epoch and signatures.\<close>

definition good_request :: "virp_chain_state_t \<Rightarrow> chain_db \<Rightarrow> string \<Rightarrow> string \<Rightarrow> string \<Rightarrow> string \<Rightarrow> bool" where
  "good_request st db s t i h \<longleftrightarrow> \<not> cs_read_only st \<and> \<not> cs_sign_enabled st \<and> cs_native_epoch st = [] \<and>
     cs_db st = Some db \<and> \<not> db_in_txn db \<and> canonical_chars s \<and> canonical_chars t \<and> canonical_chars i \<and>
     virp_chain_artifact_hash_ok (Some h) \<and> length s \<le> 63 \<and> length (session_rows db s) < 2 ^ 62 \<and>
     (virp_chain_type_is_federation (Some t) \<longrightarrow> \<not> artifact_id_conflicts db i h)"

definition macs_computed :: "crypto_lib \<Rightarrow> virp_chain_state_t \<Rightarrow> bool" where
  "macs_computed C st \<longleftrightarrow> (\<forall>d. \<exists>m. hmac_sha256_hex C (sk_key (cs_chain_key st)) d = Inr m)"

lemma seal_accepts:
  assumes "macs_computed C st" "\<not> cs_sign_enabled st" "length (build_canonical_json e) < 2048"
  obtains f where "seal_entry C st e = Inr f"
proof -
  obtain m where "hmac_sha256_hex C (sk_key (cs_chain_key st)) (string_bytes (build_canonical_json e)) = Inr m"
    using assms(1) unfolding macs_computed_def by blast
  then show thesis
    using assms that by (simp add: seal_entry_def Let_def)
qed

lemma head_upsert_accepts:
  assumes "macs_computed C st" "\<not> cs_sign_enabled st" "ev_sql ev ''head''"
  shows "\<exists>db'. head_upsert_locked C ev st s n x db = Inr db'"
proof -
  obtain m where "head_hmac_hex C (ev_stack ev) st s n x = Inr m"
    using assms(1) unfolding macs_computed_def head_hmac_hex_def by blast
  then show ?thesis
    using assms by (simp add: head_upsert_locked_def Let_def)
qed

lemma append_accepts:
  assumes req: "good_request st db s t i h" and good: "db_good C (sk_key (cs_chain_key st)) db"
    and org: "quote_free (cs_org_id st)" and sha: "sha_len C" and mac: "macs_computed C st" and sql: "\<forall>q. ev_sql ev q"
  defines "e0 \<equiv> new_entry ev st s (int (length (session_rows db s))) (end_hash (genesis_of C s) (session_rows db s)) t i h"
  shows "(\<exists>e st'. chain_append_locked C ev st (Some s) (Some t) (Some i) (Some h) content = (Inr e, st')) \<or>
    (\<exists>f \<in> set (db_entries db). sha_collision C (string_bytes (build_canonical_json f)) (string_bytes (build_canonical_json e0)))"
proof -
  have sg: "session_good C (sk_key (cs_chain_key st)) db s'" for s'
    using good by (simp add: db_good_def)
  have len: "length s \<le> 63" and n: "\<bar>int (length (session_rows db s))\<bar> < 2 ^ 63"
    using req by (simp_all add: good_request_def)
  have link: "next_link C ev db s = (int (length (session_rows db s)), end_hash (genesis_of C s) (session_rows db s))"
    using next_link_good [OF sg len] sql by simp
  obtain e where seal: "seal_entry C st e0 = Inr e"
    using seal_accepts [OF mac _ canonical_short [OF n]] req unfolding e0_def good_request_def by metis
  note sealed = seal_entry_OK [OF seal]
  have canon: "build_canonical_json e = build_canonical_json e0"
    using canonical_core sealed by blast
  have core: "ce_session_id e = s" "ce_sequence e = int (length (session_rows db s))"
    using entry_core_fields [of e e0] sealed len by (simp_all add: e0_def)
  have row: "\<exists>k < length (session_rows db (ce_session_id f)). f = session_rows db (ce_session_id f) ! k"
    if "f \<in> set (db_entries db)" for f
  proof -
    have "f \<in> set (session_rows db (ce_session_id f))"
      using that by (simp add: session_rows_def)
    then show ?thesis
      by (metis in_set_conv_nth)
  qed
  have l: "linked C (hmac_by C (sk_key (cs_chain_key st))) (genesis_of C s') 0 (session_rows db s')" for s'
    using sg by (simp add: session_good_def)
  have f: "ce_chain_entry_hash f = sha256_hex C (string_bytes (build_canonical_json f))"
      "(ce_session_id f, ce_sequence f) \<noteq> (ce_session_id e, ce_sequence e)" "entry_clean f"
    if f: "f \<in> set (db_entries db)" for f
  proof -
    obtain k where k: "k < length (session_rows db (ce_session_id f))" "f = session_rows db (ce_session_id f) ! k"
      using row [OF f] by blast
    show "(ce_session_id f, ce_sequence f) \<noteq> (ce_session_id e, ce_sequence e)"
      using linked_nth [OF l k(1)] k core by auto
    show "entry_clean f"
      using sg [of "ce_session_id f"] k by (metis nth_mem session_good_def)
    show "ce_chain_entry_hash f = sha256_hex C (string_bytes (build_canonical_json f))"
      using linked_hash [OF l k(1)] k(2) by metis
  qed
  show ?thesis
  proof (cases "\<exists>f \<in> set (db_entries db). ce_chain_entry_hash f = ce_chain_entry_hash e")
    case True
    then obtain g where g: "g \<in> set (db_entries db)" "ce_chain_entry_hash g = ce_chain_entry_hash e"
      by blast
    have "build_canonical_json g \<noteq> build_canonical_json e"
      using canonical_json_inject_clean [of g e] f [OF g(1)] entry_core_fields [of e g] unfolding entry_clean_def by metis
    then have "sha_collision C (string_bytes (build_canonical_json g)) (string_bytes (build_canonical_json e0))"
      using g f(1) [OF g(1)] sealed canon by (simp add: sha_collision_def sha256_hex_def bytes_hex_inject)
    then show ?thesis
      using g(1) by blast
  next
    case False
    define db1 where "db1 = db\<lparr>db_entries := db_entries db @ [e]\<rparr>"
    have ins: "insert_entry ev e db = Inr db1"
      using False f(2) sql unfolding insert_entry_def db1_def list_ex_iff by metis
    obtain db2 where up: "head_upsert_locked C ev st s (int (length (session_rows db s))) (ce_chain_entry_hash e) db1 = Inr db2"
      using head_upsert_accepts [OF mac, of ev s "int (length (session_rows db s))" "ce_chain_entry_hash e" db1] req sql
      by (auto simp: good_request_def)
    have "\<exists>db3. store_body ev st i t content h s db2 = Inr db3"
      using req sql by (cases content) (auto simp: store_body_def chain_artifact_store_locked_def good_request_def)
    then obtain db3 where body: "store_body ev st i t content h s db2 = Inr db3"
      by blast
    have "append_txn C ev st False s t i h content db = Inr (e, db3)"
      using req sql link seal ins up body
      by (simp add: append_txn_def epoch_gate_def federation_gate_def e0_def good_request_def)
    then show ?thesis
      using req sql by (auto simp: chain_append_locked_def append_session_def use_epoch_def good_request_def
          virp_chain_canonical_string_ok_def)
  qed
qed

section \<open>Federation ids and intent quotas\<close>

lemma federation_append:
  assumes app: "chain_append_locked C ev st session (Some t) (Some i) (Some h) content = (Inr e, st')"
    and fed: "virp_chain_type_is_federation (Some t)" and len: "length i \<le> 127"
  shows "\<exists>db'. cs_db st' = Some db' \<and> e \<in> set (db_entries db') \<and> ce_artifact_id e = i \<and>
    (\<forall>f \<in> set (db_entries db'). ce_artifact_id f = i \<longrightarrow> ce_artifact_hash f = h)"
proof -
  obtain s0 s db db' where ok: "virp_chain_artifact_hash_ok (Some h)" and db: "cs_db st = Some db"
      and txn: "append_txn C ev st (use_epoch st s0) s t i h content db = Inr (e, db')"
      and st': "st' = st\<lparr>cs_db := Some (append_milestone C ev st s e db')\<rparr>"
    by (rule append_OK [OF app]) (metis option.inject)
  obtain n p db1 db2 where gate: "federation_gate ev db t i h = Inr ()"
      and seal: "seal_entry C st (new_entry ev st s n p t i h) = Inr e" and ins: "insert_entry ev e db = Inr db1"
      and up: "head_upsert_locked C ev st s n (ce_chain_entry_hash e) db1 = Inr db2"
      and body: "store_body ev st i t content h s db2 = Inr db'"
    using append_txn_OK [OF txn] by metis
  have "db_entries db' = db_entries db @ [e]"
    using entry_tables(2) [OF body] up ins
    by (auto simp: head_upsert_locked_def insert_entry_def Let_def split: sum.splits if_splits)
  moreover have "ce_artifact_id e = i" "ce_artifact_hash e = h"
    using entry_core_fields [of e "new_entry ev st s n p t i h"] seal_entry_OK [OF seal] len hash_ok_clean [OF ok] by simp_all
  moreover have "\<not> artifact_id_conflicts db i h"
    using gate fed by (auto simp: federation_gate_def split: if_splits)
  ultimately show ?thesis
    using st' entry_tables(3) [of C ev st s e db'] by (auto simp: artifact_id_conflicts_def list_ex_iff)
qed

text \<open>The gate compares the id before truncation with ids after it.\<close>

lemma federation_gate_long_id:
  assumes "\<forall>f \<in> set (db_entries db). length (ce_artifact_id f) \<le> 127" and "127 < length i" and "ev_sql ev ''gate5''"
  shows "federation_gate ev db t i h = Inr ()"
  using assms by (auto simp: federation_gate_def artifact_id_conflicts_def list_ex_iff)

text \<open>The number of executions of an intent that are granted, over any sequence of calls.\<close>

fun grants :: "chain_env list \<Rightarrow> virp_chain_state_t \<Rightarrow> string \<Rightarrow> nat" where
  "grants [] st i = 0"
| "grants (ev # evs) st i =
     (case chain_intent_execute_locked ev st (Some i) of
        (Inl x, st') \<Rightarrow> grants evs st' i
      | (Inr r, st') \<Rightarrow> Suc (grants evs st' i))"

definition intent_budget :: "virp_chain_state_t \<Rightarrow> string \<Rightarrow> nat" where
  "intent_budget st i =
     (case cs_db st of
        None \<Rightarrow> 0
      | Some db \<Rightarrow> (case db_intents db i of None \<Rightarrow> 0 | Some r \<Rightarrow> nat (ie_max_commands r - ie_commands_executed r)))"

lemma execute_budget:
  assumes "chain_intent_execute_locked ev st (Some i) = (r, st')"
  shows "(case r of Inl x \<Rightarrow> 0 | Inr y \<Rightarrow> 1) + intent_budget st' i \<le> intent_budget st i"
proof (cases "cs_db st")
  case None
  then show ?thesis
    using assms by (auto simp: chain_intent_execute_locked_def intent_budget_def)
next
  case (Some db)
  show ?thesis
  proof (cases "intent_bump i db")
    case None
    then have "st' = st" "\<exists>x. r = Inl x"
      using assms Some by (auto simp: chain_intent_execute_locked_def split: if_splits sum.splits)
    then show ?thesis
      by auto
  next
    case bump: (Some db')
    then obtain y where y: "db_intents db i = Some y" "ie_commands_executed y < ie_max_commands y"
        "db' = db\<lparr>db_intents := (db_intents db)(i \<mapsto> y\<lparr>ie_commands_executed := ie_commands_executed y + 1\<rparr>)\<rparr>"
      by (auto simp: intent_bump_def split: option.splits if_splits)
    have "st' = st \<and> (\<exists>x. r = Inl x) \<or> st' = st\<lparr>cs_db := Some db'\<rparr>"
      using assms Some bump by (auto simp: chain_intent_execute_locked_def Let_def split: if_splits)
    then show ?thesis
      using y Some by (auto simp: intent_budget_def split: sum.splits)
  qed
qed

lemma grants_bounded: "grants evs st i \<le> intent_budget st i"
proof (induction evs arbitrary: st)
  case (Cons ev evs)
  obtain r st' where r: "chain_intent_execute_locked ev st (Some i) = (r, st')"
    by fastforce
  show ?case
    using execute_budget [OF r] Cons [of st'] r by (cases r) auto
qed simp

end
