(* ===== verification/Spec2Isabelle.thy ===== *)
theory Spec2Isabelle
  imports Virp_Message Virp_Observation Virp_Validator Virp_Body_Filter Virp_Policy Virp_Chain_Store
begin

text \<open>
  Verification of the C core of VIRP, the verified infrastructure response protocol.

  \<^bold>\<open>The program.\<close> An O-Node collects what network devices report and hands it on as signed
  observations. A client opens a session by a three-message handshake, from which both sides
  derive a session key bound to the transcript (\<open>src/virp_session.c\<close>, \<open>src/virp_handshake.c\<close>,
  \<open>src/virp_transcript.c\<close>). Observations are signed under that key, or under a node's Ed25519 key
  (\<open>src/virp_crypto.c\<close>, \<open>src/virp_obskey.c\<close>), and the verifier keeps a store of sequence numbers
  against replay (\<open>src/virp_seqstore.c\<close>). The older v1 messages are \<open>src/virp_message.c\<close>. Before a
  command reaches a device it is brought into canonical form and checked for separators, and
  an operation policy with a journal may have to admit it (\<open>src/virp_policy.c\<close>); the response body
  is cut down to an allowlist (\<open>src/virp_body_filter.c\<close>). What was done is committed to a hash
  chain in SQLite (\<open>src/virp_chain.c\<close>, signed by \<open>src/virp_chainsign.c\<close>), to which also the
  validator of a model's claims commits its decisions (\<open>src/virp_validator.c\<close>).

  \<^bold>\<open>How it is modelled.\<close> An operation is a function with the C function's name; its out-parameters
  are the value of a sum whose left side is the error code, and an object it changes is taken
  and returned. A pointer is an option, a C string a \<^typ>\<open>string\<close> without NUL, an octet buffer a
  list of 8-bit words, integers have the width they have in C wherever they can wrap. The
  libraries are arguments: OpenSSL and libsodium are a record of functions (\<open>crypto_lib\<close>, with
  the laws on output lengths and on signatures named where they are used), the cJSON parser
  and printer are functions, so are clocks, random octets, the file system, \<open>write\<close> results,
  and the success of each SQL statement, named by its purpose. SQLite tables are lists of rows
  or maps with the uniqueness constraints of the schema written out. Log output is left out, and
  a mutex is the atomicity of the call it guards.

  \<^bold>\<open>The theories.\<close>
  \<^item> \<open>Virp_Prelude\<close>, \<open>Virp_Text\<close>, \<open>Virp_Json\<close>: octets, big-endian integers, buffers, error sums;
    C strings, numbers as text, \<open>sscanf\<close>; JSON documents as cJSON presents them.
  \<^item> \<open>Virp_Types\<close>, \<open>Virp_Wire\<close>, \<open>Virp_Payload\<close>, \<open>Virp_Message\<close>: \<open>include/virp.h\<close> and
    \<open>src/virp_message.c\<close>. Every fixed-size format is an interpretation of the locales \<open>wire_codec\<close>
    or \<open>canonical_codec\<close>, which carry the round trips and their inverses.
  \<^item> \<open>Virp_Crypto\<close>, \<open>Virp_Keys\<close>: key files, custody, HMAC and channel binding of
    \<open>src/virp_crypto.c\<close>, the durable write, and the key pairs of \<open>src/virp_obskey.c\<close>,
    \<open>src/virp_chainsign.c\<close>, \<open>src/virp_federation.c\<close>. The locales \<open>key_role\<close> and \<open>key_files\<close> state
    what a loader and a saver promise.
  \<^item> \<open>Virp_Command\<close>: canonical commands, separators and command hashes.
  \<^item> \<open>Virp_Session\<close>, \<open>Virp_Transcript\<close>, \<open>Virp_Handshake\<close>: the session record, the transcript
    (locale \<open>transcript_frame\<close>: frames are self-delimiting), the handlers, and the session as an
    inductive step relation with its reachability invariant.
  \<^item> \<open>Virp_Seqstore\<close>: the replay store and its text file; the locale \<open>replay_store\<close> is what the
    verifier of an observation relies on.
  \<^item> \<open>Virp_Observation\<close>: builders and verifiers of the v2 and v3 observations.
  \<^item> \<open>Virp_Validator\<close>, \<open>Virp_Body_Filter\<close>, \<open>Virp_Policy\<close>: the three gates named above. The policy's
    journal is an inductive run of reservations and completions under arbitrary SQL faults.
  \<^item> \<open>Virp_Artifact\<close>, \<open>Virp_Chain\<close>, \<open>Virp_Chain_Verify\<close>, \<open>Virp_Chain_Store\<close>: \<open>src/virp_chain.c\<close>.
    Artifact types and bodies; entries, canonical texts, the append transaction, queries and
    intents; the verification of ranges and sessions with its lookup maps; opening,
    migration, signing, read-only handles and the listing. Sequences of appends are the
    inductive \<open>chain_run\<close>, and \<open>db_good\<close> is the invariant they keep.

  \<^bold>\<open>What is shown.\<close> For the sessions: key and transcript are bound to each other in every reachable
  state, a carried-through handshake succeeds, and only the protocol's transitions occur. For
  the observations: what each verifier accepts, exactly; that builder and verifier agree; that no
  sequence of messages is accepted twice. For the store: refinement of a map of marks, and
  survival of a restart. For the v1 messages: round trips, channel and key separation, tamper
  evidence up to MAC collisions. For files and keys: atomicity and termination of the durable
  write, custody of what is loaded. For the gates: closed grammar, soundness of grants, journal
  invariants under faults and crashes, what may leave the body filter, what a validated turn
  and its committed decision mean. For the chain: well-formed appends are accepted and leave
  sessions that verify, a valid session holds the entries that were appended up to SHA-256
  collisions, a failed append changes nothing but for one case, lookups by binary search are
  exact, quotas and the federation rule hold. Some theorems state where the code falls short
  of its documentation; the manifest lists them as findings.

  \<^bold>\<open>Bounds.\<close> Recursion is structural or has a termination proof; no definition takes fuel. The
  write loop of the durable write recurses on the list of results the operating system gives, and
  is shown to finish once enough of them are positive. Where \<open>snprintf\<close> is used with its result
  unchecked, \<open>printed\<close> reads on into given stack contents as the C code would; the theorems on
  chains assume session names of at most 63 characters, which is what an entry holds, and fewer
  than \<open>2 ^ 62\<close> entries in a session, so that sequence numbers stay in 64 bits.

  \<^bold>\<open>Not modelled.\<close> The daemon (\<open>src/virp_onode.c\<close>, \<open>src/virp_onode_prod.c\<close>, \<open>src/virp_onode_main.c\<close>) is
  sockets, threads and dispatch of JSON requests to the operations above. The drivers
  (\<open>src/drivers\<close>, \<open>src/driver_panos.c\<close>) and the SSH transport are exchanges with devices over
  libssh2 and HTTP; their command gates, the scrubbing of their output (\<open>src/virp_scrub.c\<close>)
  and the approvals (\<open>src/virp_approval.c\<close>,
  \<open>src/virp_approver_registry.c\<close>) are not covered. The command-line tool parses arguments around
  the library. cJSON and SQLite are third-party code. The services in Python and the second
  implementation in Go are separate programs.
\<close>


section \<open>Concrete libraries and keys for the examples\<close>

text \<open>A total crypto library with outputs of the documented sizes, and keys, at which the
  hypotheses of the properties hold.\<close>

definition demo_lib :: crypto_lib where
  "demo_lib = \<lparr>HMAC = (\<lambda>k d. Some (take 32 (d @ replicate 32 0))),
     SHA256 = (\<lambda>d. take 32 (d @ replicate 32 0)),
     EVP_SHA256 = (\<lambda>d. Some (take 32 (d @ replicate 32 0))),
     crypto_sign_detached = (\<lambda>sk d. Some (take 64 (d @ replicate 64 0))),
     crypto_sign_verify_detached = (\<lambda>pk d s. s = take 64 (d @ replicate 64 0)),
     crypto_sign_seed_keypair = (\<lambda>seed. None)\<rparr>"

definition demo_key :: "virp_key_type_t \<Rightarrow> virp_signing_key_t" where
  "demo_key t = \<lparr>sk_key = replicate 32 7, sk_loaded = True, sk_type = t,
     sk_fingerprint = replicate 32 9, sk_locked = True\<rparr>"

lemma demo_lib_laws:
  "hmac_len demo_lib" "sha_len demo_lib" "ed_len demo_lib" "ed_correct demo_lib pk sk"
  by (auto simp: demo_lib_def hmac_len_def sha_len_def ed_len_def ed_correct_def min_def)

lemma demo_hmac: "\<exists>t. HMAC demo_lib k d = Some t \<and> length t = 32"
  by (simp add: demo_lib_def min_def)

section \<open>v1 messages\<close>

lemma observation_payload_bytes:
  "length d < 65536 \<Longrightarrow> [t, sc] @ be16 (of_nat (length d)) @ d = observation_payload t sc d"
  by (simp add: observation_payload_def)

text \<open>C20: building a v1 observation with a loaded observation key
  succeeds whenever it fits, the receiver's validation accepts exactly the built octets
  with the given type, channel, tier, node, sequence number and time, parsing returns the
  given observation data, and the buffer beyond the message is untouched.\<close>

theorem v1_observation_roundtrip:
  assumes "length d \<le> VIRP_OBS_V1_MAX_DATA" and "60 + length d \<le> length buf"
    and "tier \<le> VIRP_TIER_RED" and "sk_loaded k" and "sk_type k = VIRP_KEY_TYPE_OKEY"
    and "\<And>x. \<exists>t. HMAC C (sk_key k) x = Some t \<and> length t = 32"
  shows "\<exists>buf' n tag.
    virp_build_observation_tiered C now (Some buf) nid sq otype oscope tier (Some d)
      (of_nat (length d)) (Some k) = Inr (buf', n) \<and>
    n = 60 + length d \<and> drop n buf' = drop n buf \<and>
    virp_validate_message C (Some (take n buf')) (Some k) =
      Inr (built_header now VIRP_MSG_OBSERVATION VIRP_CHANNEL_OC tier nid sq n tag) \<and>
    virp_parse_observation (Some (drop 56 (take n buf'))) =
      Inr (\<lparr>obs_type = otype, obs_scope = oscope, obs_length = of_nat (length d)\<rparr>, d)"
proof -
  let ?p = "observation_payload otype oscope d"
  have d: "length d < 65536" "56 + length ?p \<le> 65535" "length ?p = 4 + length d"
    using assms(1) by (simp_all add: observation_payload_def)
  have u: "unat (of_nat (length d) :: u16) = length d"
    using d(1) by (rule unat_of_nat_u16)
  have tier: "tier \<noteq> VIRP_TIER_BLACK"
    using assms(3) by auto
  have b: "virp_build_observation_tiered C now (Some buf) nid sq otype oscope tier (Some d)
      (of_nat (length d)) (Some k) =
    build_and_sign C now buf VIRP_MSG_OBSERVATION VIRP_CHANNEL_OC tier nid sq ?p k"
    using assms(1) u observation_payload_bytes [OF d(1), of otype oscope]
    by (simp add: virp_build_observation_tiered_def Let_def)
  have fits: "56 + length ?p \<le> length buf"
    using assms(2) d(3) by simp
  have ck: "check_channel_key_binding VIRP_CHANNEL_OC (sk_type k) = VIRP_OK"
    using assms(5) by (simp add: check_channel_key_binding_ok_iff)
  obtain buf' n where r: "build_and_sign C now buf VIRP_MSG_OBSERVATION VIRP_CHANNEL_OC tier nid sq ?p k =
      Inr (buf', n)"
    using build_and_sign_succeeds [OF d(2) fits tier assms(4) ck assms(6)] by blast
  have ct: "virp_check_channel_type VIRP_CHANNEL_OC VIRP_MSG_OBSERVATION = VIRP_OK"
    by (simp add: virp_check_channel_type_def)
  note v = build_and_sign_validates [OF r ct _ assms(3)]
  show ?thesis
    using b r v parse_observation_payload [OF d(1), of otype oscope "[]"] d(3) by auto
qed

theorem v1_observation_roundtrip_witness:
  "\<exists>buf' n tag.
    virp_build_observation_tiered demo_lib 5 (Some (replicate 80 0)) 1 2 3 4 VIRP_TIER_GREEN (Some [1, 2, 3])
      (of_nat (length [1 :: byte, 2, 3])) (Some (demo_key VIRP_KEY_TYPE_OKEY)) = Inr (buf', n) \<and>
    n = 60 + length [1 :: byte, 2, 3] \<and> drop n buf' = drop n (replicate 80 0) \<and>
    virp_validate_message demo_lib (Some (take n buf')) (Some (demo_key VIRP_KEY_TYPE_OKEY)) =
      Inr (built_header 5 VIRP_MSG_OBSERVATION VIRP_CHANNEL_OC VIRP_TIER_GREEN 1 2 n tag) \<and>
    virp_parse_observation (Some (drop 56 (take n buf'))) =
      Inr (\<lparr>obs_type = 3, obs_scope = 4, obs_length = of_nat (length [1 :: byte, 2, 3])\<rparr>, [1, 2, 3])"
  by (rule v1_observation_roundtrip) (simp_all add: demo_key_def demo_hmac del: VIRP_KEY_TYPE_OKEY_def)

text \<open>C8: a message that validates under a key was sent on the
  channel of that key: observation-channel message types only under an observation key,
  intent-channel types only under a reasoning key, nothing under any other key; and it
  never carries the BLACK tier.\<close>

theorem v1_channel_key_separation:
  assumes "virp_validate_message C (Some m) (Some k) = Inr h"
  shows "(sk_type k = VIRP_KEY_TYPE_OKEY \<and> hdr_channel h = VIRP_CHANNEL_OC \<and>
          hdr_type h \<in> {VIRP_MSG_OBSERVATION, VIRP_MSG_HELLO, VIRP_MSG_HEARTBEAT, VIRP_MSG_TEARDOWN} \<or>
          sk_type k = VIRP_KEY_TYPE_RKEY \<and> hdr_channel h = VIRP_CHANNEL_IC \<and>
          hdr_type h \<in> {VIRP_MSG_PROPOSAL, VIRP_MSG_APPROVAL, VIRP_MSG_INTENT_ADV, VIRP_MSG_INTENT_WD,
                        VIRP_MSG_TEARDOWN}) \<and>
         hdr_tier h \<le> VIRP_TIER_RED \<and> unat (hdr_length h) = length m"
proof -
  have d: "virp_header_deserialize (Some m) = Inr h" "virp_header_validate (Some h) = VIRP_OK"
    "virp_check_channel_type (hdr_channel h) (hdr_type h) = VIRP_OK"
    "unat (hdr_length h) = length m" "virp_verify C (Some m) (Some k) = VIRP_OK"
    using assms unfolding virp_validate_message_Inr_iff by blast+
  have "m ! 8 = hdr_channel h"
    using d(1) by (auto simp: virp_header_deserialize_def split: if_splits)
  then have "check_channel_key_binding (hdr_channel h) (sk_type k) = VIRP_OK"
    using d(5) by (simp add: virp_verify_ok_iff)
  then show ?thesis
    using d(2-4) unfolding check_channel_key_binding_ok_iff
    by (auto simp: virp_header_validate_def virp_check_channel_type_def split: if_splits)
qed

text \<open>The octets of a heartbeat built with the example key.\<close>

definition demo_heartbeat :: bytes where
  "demo_heartbeat =
     (case virp_build_heartbeat demo_lib 5 (Some (replicate 68 0)) 1 2 3 True True 4 5
             (Some (demo_key VIRP_KEY_TYPE_OKEY)) of Inr (b, n) \<Rightarrow> take n b | Inl _ \<Rightarrow> [])"

lemma demo_heartbeat_valid:
  "\<exists>h. virp_validate_message demo_lib (Some demo_heartbeat) (Some (demo_key VIRP_KEY_TYPE_OKEY)) = Inr h"
  "length demo_heartbeat = 68"
proof -
  let ?k = "demo_key VIRP_KEY_TYPE_OKEY"
  let ?p = "heartbeat_payload \<lparr>hb_uptime_seconds = 3, hb_onode_ok = 1, hb_rnode_ok = 1,
    hb_active_observations = 4, hb_active_proposals = 5\<rparr>"
  have l: "length ?p = 12"
    by (rule heartbeat.enc_length) simp
  have ck: "check_channel_key_binding VIRP_CHANNEL_OC (sk_type ?k) = VIRP_OK" "sk_loaded ?k"
    by (simp_all add: check_channel_key_binding_ok_iff demo_key_def)
  have f: "56 + length ?p \<le> 65535" "56 + length ?p \<le> length (replicate 68 (0 :: byte))"
    "VIRP_TIER_GREEN \<noteq> VIRP_TIER_BLACK"
    by (simp_all add: l)
  obtain b n where r: "build_and_sign demo_lib 5 (replicate 68 0) VIRP_MSG_HEARTBEAT VIRP_CHANNEL_OC
      VIRP_TIER_GREEN 1 2 ?p ?k = Inr (b, n)"
    using build_and_sign_succeeds [OF f ck(2,1) demo_hmac] by blast
  have h: "demo_heartbeat = take n b"
    using r by (simp add: demo_heartbeat_def virp_build_heartbeat_def)
  have ct: "virp_check_channel_type VIRP_CHANNEL_OC VIRP_MSG_HEARTBEAT = VIRP_OK"
    by (simp add: virp_check_channel_type_def)
  note v = build_and_sign_validates [OF r ct]
  show "\<exists>h. virp_validate_message demo_lib (Some demo_heartbeat) (Some ?k) = Inr h"
    using v(1) unfolding h by auto
  have "length (drop 56 (take n b)) = 12"
    using v(2) l by simp
  then show "length demo_heartbeat = 68"
    unfolding h by simp
qed

theorem v1_channel_key_separation_witness:
  "\<exists>h. virp_validate_message demo_lib (Some demo_heartbeat) (Some (demo_key VIRP_KEY_TYPE_OKEY)) = Inr h \<and>
     hdr_channel h = VIRP_CHANNEL_OC \<and> hdr_tier h \<le> VIRP_TIER_RED \<and>
     unat (hdr_length h) = length demo_heartbeat"
proof -
  obtain h where h: "virp_validate_message demo_lib (Some demo_heartbeat)
      (Some (demo_key VIRP_KEY_TYPE_OKEY)) = Inr h"
    using demo_heartbeat_valid(1) by blast
  show ?thesis
    using h v1_channel_key_separation [OF h] by (simp add: demo_key_def)
qed






text \<open>A TLV that was appended parses back at its offset to the same type
  and value, ends where the append said, and nothing before or after it changed.\<close>

theorem tlv_roundtrip:
  assumes "virp_tlv_append buf offset ty val = Some (Inr (buf', nxt))" and "length buf < 2 ^ 64"
  shows "virp_tlv_parse buf' offset = Some (Inr (ty, val, nxt)) \<and> length buf' = length buf \<and>
    take offset buf' = take offset buf \<and> drop nxt buf' = drop nxt buf"
  using virp_tlv_roundtrip_lemma [OF assms] by blast

theorem tlv_roundtrip_witness:
  "virp_tlv_parse [0, 1, 2, 0, 1, 9, 7 :: byte] 1 = Some (Inr (0x0102, [9], 6)) \<and>
   length [0, 1, 2, 0, 1, 9, 7 :: byte] = length (replicate 6 (0 :: byte) @ [7]) \<and>
   take 1 [0, 1, 2, 0, 1, 9, 7 :: byte] = take 1 (replicate 6 0 @ [7]) \<and>
   drop 6 [0, 1, 2, 0, 1, 9, 7 :: byte] = drop 6 (replicate 6 0 @ [7])"
proof (rule tlv_roundtrip)
  have "writes [(1, be16 0x0102), (3, be16 1), (5, [9])] (replicate 6 0 @ [7]) = [0, 1, 2, 0, 1, 9, 7]"
    by code_simp
  then show "virp_tlv_append (replicate 6 0 @ [7]) 1 0x0102 [9] = Some (Inr ([0, 1, 2, 0, 1, 9, 7], 6))"
    by (simp add: virp_tlv_append_def szt_def Let_def del: add_2_eq_Suc add_2_eq_Suc')
qed simp

text \<open>The 88-octet observation header is a canonical wire format:
  serialising a header into a large enough buffer and reading it back gives the header, and
  any octets that read as a header with a zero reserved octet are the ones its serialisation
  writes.\<close>

theorem obs_header_canonical:
  "(wf_obs_header h \<and> 88 \<le> length b \<longrightarrow>
      (\<exists>b'. virp_obs_header_v2_serialize (Some h) (Some b) = Inr b' \<and> length b' = length b \<and>
         drop 88 b' = drop 88 b \<and> virp_obs_header_v2_deserialize (Some b') = Inr h)) \<and>
   (virp_obs_header_v2_deserialize (Some bs) = Inr h' \<and> wf_obs_header h' \<longrightarrow>
      virp_obs_header_v2_serialize (Some h') (Some bs) = Inr bs)"
proof (intro conjI impI)
  assume a: "wf_obs_header h \<and> 88 \<le> length b"
  then show "\<exists>b'. virp_obs_header_v2_serialize (Some h) (Some b) = Inr b' \<and> length b' = length b \<and>
      drop 88 b' = drop 88 b \<and> virp_obs_header_v2_deserialize (Some b') = Inr h"
    using hdr2.dec_enc [of h "drop 88 b"] length_obs_header_bytes [of h]
      virp_obs_header_v2_serialize_layout [of h b] by auto
next
  assume a: "virp_obs_header_v2_deserialize (Some bs) = Inr h' \<and> wf_obs_header h'"
  then have "88 \<le> length bs"
    using hdr2.dec_ok_iff [of bs] by blast
  then show "virp_obs_header_v2_serialize (Some h') (Some bs) = Inr bs"
    using a hdr2.enc_dec [of bs h'] virp_obs_header_v2_serialize_layout [of h' bs]
    by simp
qed

definition demo_obs_header :: virp_obs_header_v2_t where
  "demo_obs_header = \<lparr>oh_version = 2, oh_channel = VIRP_CHANNEL_OC, oh_tier = VIRP_TIER_GREEN,
     oh_reserved = 0, oh_node_id = 1, oh_timestamp_ns = 2, oh_seq_num = 3,
     oh_session_id = replicate 16 4, oh_device_id = 5, oh_command_hash = replicate 32 6,
     oh_payload_len = 0\<rparr>"

theorem obs_header_canonical_witness:
  "\<exists>b'. virp_obs_header_v2_serialize (Some demo_obs_header) (Some (replicate 90 0)) = Inr b' \<and>
     length b' = 90 \<and> drop 88 b' = [0, 0] \<and> virp_obs_header_v2_deserialize (Some b') = Inr demo_obs_header"
  using obs_header_canonical [THEN conjunct1, of demo_obs_header "replicate 90 0"]
  by (simp add: demo_obs_header_def wf_obs_header_def numeral_2_eq_2)

section \<open>Commands\<close>

text \<open>C23: the single-pass canonicaliser agrees with the reference (drop
  leading white space, delete carriage returns, squeeze blanks, drop the trailing space) and
  returns -1 exactly when the squeezed text, before the trailing space is dropped, does not
  fit the output with its terminator.\<close>

theorem canonicalize_reference:
  "virp_canonicalize_command (Some s) n =
     (if length (squeezed s) < n then Some (canon_ref s) else None)"
  by (rule canonicalize_eq_ref)

text \<open>A canonical command is canonical text (no carriage return,
  tab, doubled, leading or trailing space), fits the same buffer, and canonicalising it again
  changes nothing, so a command hash does not depend on how often a command was canonicalised.\<close>

theorem canonicalize_idempotent:
  assumes "virp_canonicalize_command (Some s) n = Some out"
  shows "canonical_cmd out \<and> length out < n \<and> virp_canonicalize_command (Some out) n = Some out"
proof -
  have o: "out = canon_ref s" "length (squeezed s) < n"
    using assms by (auto simp: canonicalize_eq_ref split: if_splits)
  have c: "canonical_cmd out"
    using canonical_canon_ref o(1) by simp
  show ?thesis
    using c o canon_ref_length [of s] canonical_squeezed [OF c] canonical_ref_id [OF c]
    by (simp add: canonicalize_eq_ref)
qed

theorem canonicalize_idempotent_witness:
  "canonical_cmd ''show run'' \<and> length ''show run'' < 64 \<and>
   virp_canonicalize_command (Some ''show run'') 64 = Some ''show run''"
proof (rule canonicalize_idempotent)
  show "virp_canonicalize_command (Some ''  show   run '') 64 = Some ''show run''"
    by code_simp
qed

text \<open>The separator policy accepts a command exactly when no position
  holds a control character, one of the shell separators, or the start of a substitution; a
  rejection names the first offending position and renders it in printable characters only.\<close>

theorem separators_exact:
  "(virp_command_check_separators (Some s) = SepOk \<longleftrightarrow> no_separator s) \<and>
   (\<forall>what n. virp_command_check_separators (Some s) = SepBad what n \<longrightarrow>
      n < length s \<and> sep_here (drop n s) = Some what \<and> (\<forall>i < n. sep_here (drop i s) = None) \<and>
      list_all (\<lambda>c. \<not> is_ctl c) what)"
  using sep_scan_ok [of 0 s] sep_scan_bad [of 0 s] sep_here_printable
  by (auto simp: virp_command_check_separators_def list_all_iff)

theorem separators_exact_witness:
  "virp_command_check_separators (Some ''ls; id'') = SepBad '';'' 2 \<and>
   (2 :: nat) < length ''ls; id'' \<and> list_all (\<lambda>c. \<not> is_ctl c) '';''"
proof -
  have v: "virp_command_check_separators (Some ''ls; id'') = SepBad '';'' 2"
    by code_simp
  then show ?thesis
    using separators_exact [of "''ls; id''"] by blast
qed

text \<open>C24: the typed-operation hash input determines the profile and the
  command octet for octet, so two typed operations hash alike only by a hash collision.\<close>

theorem typed_op_binding:
  assumes "virp_typed_op_hash C (Some p) (Some c) = Inr h" and "virp_typed_op_hash C (Some p') (Some c') = Inr h"
    and "EVP_SHA256 C (typed_op_input p c) = EVP_SHA256 C (typed_op_input p' c') \<Longrightarrow>
      typed_op_input p c = typed_op_input p' c'"
  shows "p = p' \<and> c = c'"
proof -
  have l: "length p \<le> 64" "length p' \<le> 64"
    and h: "EVP_SHA256 C (typed_op_input p c) = Some h" "EVP_SHA256 C (typed_op_input p' c') = Some h"
    using assms(1,2) by (auto simp: virp_typed_op_hash_def split: if_splits option.splits)
  show ?thesis
    using typed_op_input_inject [OF assms(3)] h l by simp
qed

theorem typed_op_binding_witness:
  "\<exists>h. virp_typed_op_hash demo_lib (Some ''pbs'') (Some ''a b'') = Inr h \<and>
     virp_typed_op_hash demo_lib (Some (concat [''p'', ''bs''])) (Some (remdups ''aa b'')) = Inr h \<and>
     ''pbs'' = concat [''p'', ''bs''] \<and> ''a b'' = remdups ''aa b''"
proof -
  let ?h = "take 32 (typed_op_input ''pbs'' ''a b'' @ replicate 32 0)"
  have h: "virp_typed_op_hash demo_lib (Some ''pbs'') (Some ''a b'') = Inr ?h"
    "virp_typed_op_hash demo_lib (Some (concat [''p'', ''bs''])) (Some (remdups ''aa b'')) = Inr ?h"
    by (simp_all add: virp_typed_op_hash_def demo_lib_def min_def)
  show ?thesis
    using typed_op_binding [OF h] h by simp
qed

section \<open>Sessions\<close>

definition demo_hello :: virp_session_hello_t where
  "demo_hello = \<lparr>sh_msg_type = 0x40, sh_client_id = replicate 64 65, sh_versions = [1, 2, 0, 0, 0, 0, 0, 0],
     sh_version_count = 2, sh_algorithms = [1, 0, 0, 0, 0, 0, 0, 0], sh_algorithm_count = 1,
     sh_supported_channels = 3, sh_client_nonce = replicate 8 11, sh_timestamp_ns = 12\<rparr>"

definition demo_hello_event :: "byte \<Rightarrow> session_event" where
  "demo_hello_event x = EvHello demo_hello (Some (replicate 16 x)) (Some (replicate 8 22)) 100 101"

definition demo_negotiated :: virp_session_t where
  "demo_negotiated = session_step demo_lib virp_context_new (demo_hello_event 21)"

definition demo_bound :: virp_session_t where
  "demo_bound = session_step demo_lib demo_negotiated (EvBind (echo_bind demo_negotiated 102))"

definition demo_active :: virp_session_t where
  "demo_active = session_step demo_lib demo_bound (EvDerive (replicate 32 7) 103)"

lemma demo_hello_event_wf: "wf_event (demo_hello_event x)"
  by (simp add: demo_hello_event_def demo_hello_def wf_session_hello_def)

lemma demo_lib_total: "HMAC demo_lib k d \<noteq> None"
  by (simp add: demo_lib_def)

lemma demo_offers:
  "2 \<in> set (take (unat (sh_version_count demo_hello)) (sh_versions demo_hello))"
  "VIRP_ALG_HMAC_SHA256 \<in> set (take (unat (sh_algorithm_count demo_hello)) (sh_algorithms demo_hello))"
  by (simp_all add: demo_hello_def)

lemma new_not_bound: "s_state virp_context_new \<notin> {VIRP_SESSION_ACTIVE, VIRP_SESSION_BOUND}"
  by (simp add: virp_context_new_def zero_session_def)

lemma demo_states:
  "s_state demo_negotiated = VIRP_SESSION_NEGOTIATED" "s_state demo_bound = VIRP_SESSION_BOUND"
  "s_state demo_active = VIRP_SESSION_ACTIVE" "s_session_key_valid demo_active"
  "s_session_id demo_active = replicate 16 21" "wf_event (EvBind (echo_bind demo_negotiated 102))"
  "s_session_id demo_negotiated = replicate 16 21"
  using handshake_runs [OF shape_new new_not_bound demo_lib_laws(2) demo_lib_total
      demo_hello_event_wf [unfolded demo_hello_event_def] disjI2 [OF demo_offers(1)] demo_offers(2)
      demo_negotiated_def [unfolded demo_hello_event_def] demo_bound_def demo_active_def]
  by blast+

lemma demo_reach:
  "session_reach demo_lib demo_negotiated" "session_reach demo_lib demo_bound"
  "session_reach demo_lib demo_active"
proof -
  show n: "session_reach demo_lib demo_negotiated"
    unfolding demo_negotiated_def by (intro session_reach.intros demo_hello_event_wf)
  show b: "session_reach demo_lib demo_bound"
    unfolding demo_bound_def by (intro session_reach.step n demo_states(6))
  show "session_reach demo_lib demo_active"
    unfolding demo_active_def by (intro session_reach.step b) simp
qed

text \<open>C2: in every session the daemon's calls can reach, the session key is
  marked valid exactly when the session is ACTIVE; an ACTIVE session's key is HKDF of a
  32-octet master key, salted with the hash of exactly one HELLO, HELLO_ACK and SESSION_BIND
  frame, whose identifier, nonces, identities and version are the ones the session holds.\<close>

theorem session_key_bound:
  assumes "session_reach C s" and "hmac_len C" and "sha_len C"
  shows "(s_session_key_valid s \<longleftrightarrow> s_state s = VIRP_SESSION_ACTIVE) \<and>
    (s_state s = VIRP_SESSION_ACTIVE \<longrightarrow>
      (\<exists>h a b mk. negotiated s h a \<and> binds s b \<and> length mk = 32 \<and>
        s_transcript_hash s = SHA256 C (hello_frame h @ hello_ack_frame a @ session_bind_frame b) \<and>
        virp_hkdf_sha256 C (Some mk) (Some (s_transcript_hash s)) (Some (be64 (s_generation s))) =
          Inr (s_session_key s)))"
proof (intro conjI impI)
  note i = session_reach_inv [OF assms]
  show "s_session_key_valid s \<longleftrightarrow> s_state s = VIRP_SESSION_ACTIVE"
    using i by (simp add: session_inv_def)
  assume "s_state s = VIRP_SESSION_ACTIVE"
  then have "bound_inv C s" "keyed_inv C s"
    using i by (simp_all add: session_inv_def)
  then obtain h a b mk where o: "negotiated s h a" "binds s b" "length mk = 32"
      "transcript s = hello_frame h @ hello_ack_frame a @ session_bind_frame b"
      "s_transcript_hash s = SHA256 C (transcript s)"
      "virp_hkdf_sha256 C (Some mk) (Some (s_transcript_hash s)) (Some (be64 (s_generation s))) =
         Inr (s_session_key s)"
    unfolding bound_inv_def keyed_inv_def by blast
  have "s_transcript_hash s = SHA256 C (hello_frame h @ hello_ack_frame a @ session_bind_frame b)"
    using o(4,5) by simp
  then show "\<exists>h a b mk. negotiated s h a \<and> binds s b \<and> length mk = 32 \<and>
      s_transcript_hash s = SHA256 C (hello_frame h @ hello_ack_frame a @ session_bind_frame b) \<and>
      virp_hkdf_sha256 C (Some mk) (Some (s_transcript_hash s)) (Some (be64 (s_generation s))) =
        Inr (s_session_key s)"
    using o(1-3,6) by blast
qed

theorem session_key_bound_witness:
  "s_session_key_valid demo_active \<and> (\<exists>h a b mk. negotiated demo_active h a \<and> binds demo_active b \<and>
     length mk = 32 \<and>
     s_transcript_hash demo_active =
       SHA256 demo_lib (hello_frame h @ hello_ack_frame a @ session_bind_frame b) \<and>
     virp_hkdf_sha256 demo_lib (Some mk) (Some (s_transcript_hash demo_active))
       (Some (be64 (s_generation demo_active))) = Inr (s_session_key demo_active))"
  using session_key_bound [OF demo_reach(3) demo_lib_laws(1,2)] demo_states(3) by blast

text \<open>C19: every call takes the session along the protocol's transitions
  only: a hello never disturbs a bound or active session, a bind leads from NEGOTIATED to
  BOUND, only key derivation leads from BOUND to ACTIVE, only timeouts and resets lead back.\<close>

theorem session_transitions: "s_state (session_step C s e) \<in> next_states (s_state s) e"
  by (rule session_step_states)

text \<open>C17: from any well-shaped session that is neither bound nor active, a
  hello offering a supported version and HMAC-SHA256, the bind that repeats what was
  negotiated, and key derivation lead through NEGOTIATED and BOUND to ACTIVE with a usable key.\<close>

theorem handshake_completes:
  fixes ts now :: u64 and mk :: bytes
  assumes "session_shape s" and "s_state s \<notin> {VIRP_SESSION_ACTIVE, VIRP_SESSION_BOUND}"
    and "sha_len C" and "\<And>k d. HMAC C k d \<noteq> None"
    and "wf_event (EvHello h (Some sid) (Some sn) t1 t2)"
    and "1 \<in> set (take (unat (sh_version_count h)) (sh_versions h)) \<or>
         2 \<in> set (take (unat (sh_version_count h)) (sh_versions h))"
    and "VIRP_ALG_HMAC_SHA256 \<in> set (take (unat (sh_algorithm_count h)) (sh_algorithms h))"
  defines "s1 \<equiv> session_step C s (EvHello h (Some sid) (Some sn) t1 t2)"
  defines "s2 \<equiv> session_step C s1 (EvBind (echo_bind s1 ts))"
  defines "s3 \<equiv> session_step C s2 (EvDerive mk now)"
  shows "s_state s1 = VIRP_SESSION_NEGOTIATED \<and> s_state s2 = VIRP_SESSION_BOUND \<and>
    s_state s3 = VIRP_SESSION_ACTIVE \<and> s_session_key_valid s3 \<and> s_session_id s3 = sid"
  using handshake_runs [OF assms(1-7)] s1_def s2_def s3_def by blast

theorem handshake_completes_witness:
  "s_state demo_negotiated = VIRP_SESSION_NEGOTIATED \<and> s_state demo_bound = VIRP_SESSION_BOUND \<and>
   s_state demo_active = VIRP_SESSION_ACTIVE \<and> s_session_key_valid demo_active \<and>
   s_session_id demo_active = replicate 16 21"
  unfolding demo_active_def demo_bound_def demo_negotiated_def demo_hello_event_def
  by (rule handshake_completes)
     (use shape_new new_not_bound demo_lib_laws(2) demo_lib_total demo_offers
        demo_hello_event_wf [of 21, unfolded demo_hello_event_def] in blast)+

text \<open>C6: two reachable sessions that are bound or active and hold the same
  transcript hash agree on the whole handshake, hence on session identifier, nonces, server
  identity, client identity and version, unless SHA-256 collides on their two transcripts.\<close>

theorem transcript_agreement:
  assumes "session_reach C s" and "session_reach C s'" and "hmac_len C" and "sha_len C"
    and "s_state s \<in> {VIRP_SESSION_BOUND, VIRP_SESSION_ACTIVE}"
    and "s_state s' \<in> {VIRP_SESSION_BOUND, VIRP_SESSION_ACTIVE}"
    and "s_transcript_hash s = s_transcript_hash s'"
    and "SHA256 C (transcript s) = SHA256 C (transcript s') \<Longrightarrow> transcript s = transcript s'"
  shows "s_session_id s = s_session_id s' \<and> s_client_nonce s = s_client_nonce s' \<and>
    s_server_nonce s = s_server_nonce s' \<and> s_client_id s = s_client_id s' \<and>
    s_server_id s = s_server_id s' \<and> s_selected_version s = s_selected_version s'"
proof -
  have "bound_inv C s" "bound_inv C s'"
    using session_reach_inv [OF assms(1,3,4)] session_reach_inv [OF assms(2,3,4)] assms(5,6)
    by (auto simp: session_inv_def)
  then obtain h a b h' a' b' where x: "negotiated s h a" "binds s b"
      "transcript s = hello_frame h @ hello_ack_frame a @ session_bind_frame b"
      "s_transcript_hash s = SHA256 C (transcript s)"
    and y: "negotiated s' h' a'" "binds s' b'"
      "transcript s' = hello_frame h' @ hello_ack_frame a' @ session_bind_frame b'"
      "s_transcript_hash s' = SHA256 C (transcript s')"
    unfolding bound_inv_def by blast
  have "transcript s = transcript s'"
    using assms(7,8) x(4) y(4) by simp
  then have "h = h' \<and> a = a' \<and> b = b'"
    using transcript_inject [of h h' a a' b b'] x y by (simp add: negotiated_def binds_def)
  then show ?thesis
    using x(1) y(1) by (auto simp: negotiated_def)
qed

theorem transcript_agreement_witness:
  "s_session_id demo_bound = s_session_id demo_active \<and> s_client_nonce demo_bound = s_client_nonce demo_active \<and>
   s_server_nonce demo_bound = s_server_nonce demo_active \<and> s_client_id demo_bound = s_client_id demo_active \<and>
   s_server_id demo_bound = s_server_id demo_active \<and>
   s_selected_version demo_bound = s_selected_version demo_active"
proof (rule transcript_agreement [OF demo_reach(2,3) demo_lib_laws(1,2)])
  have d: "s_transcript_hash demo_active = s_transcript_hash demo_bound"
    "transcript demo_active = transcript demo_bound"
    by (simp_all add: demo_active_def virp_session_derive_key_def transcript_def split: sum.splits)
  then show "s_transcript_hash demo_bound = s_transcript_hash demo_active" "transcript demo_bound = transcript demo_active"
    by simp_all
qed (simp_all add: demo_states)

text \<open>A bind whose session identifier is not the one of the current
  negotiation is refused and leaves the session exactly as it was, so a bind recorded in an
  earlier handshake cannot bind a later one.\<close>

theorem stale_bind_refused:
  assumes "session_shape s" and "wf_session_bind b" and "sb_session_id b \<noteq> s_session_id s"
  shows "fst (virp_handle_session_bind C s (Some b)) \<noteq> VIRP_OK \<and>
    snd (virp_handle_session_bind C s (Some b)) = s"
  using stale_bind [OF assms] by blast

theorem stale_bind_refused_witness:
  "snd (virp_handle_session_bind demo_lib virp_context_new (Some (echo_bind demo_negotiated 102))) = virp_context_new"
proof -
  have "s_session_id demo_negotiated \<noteq> s_session_id virp_context_new"
    using demo_states(7) by (simp add: virp_context_new_def zero_session_def)
  then show ?thesis
    using stale_bind_refused [OF shape_new, of "echo_bind demo_negotiated 102"] demo_states(6)
    by (simp add: echo_bind_def)
qed

text \<open>As long as no observation has been signed in it, a
  session never times out once it is active, whatever the clock says, although an active
  session is documented to be reset after five minutes without activity.\<close>

theorem handshake_only_session_never_idles:
  assumes "session_reach C s" and "s_state s = VIRP_SESSION_ACTIVE"
  shows "virp_session_check_timeouts now s = (VIRP_OK, s)"
  using reach_activity [OF assms(1)] assms(2) by (simp add: virp_session_check_timeouts_def)

theorem handshake_only_session_never_idles_witness:
  "virp_session_check_timeouts 86400000000000000 demo_active = (VIRP_OK, demo_active)"
  by (rule handshake_only_session_never_idles [OF demo_reach(3) demo_states(3)])

section \<open>The replay store\<close>

text \<open>C9: the table implements a map of high-water marks. An accepted
  number exceeds the old mark of its session and node and becomes the new mark; every other
  mark of the same session is kept; a mark of another session is kept or, for eviction, gone.\<close>

theorem accept_refines_marks:
  assumes "store_inv st" and "length sid = 16" and "0 < budget st"
    and "virp_seqstore_accept io st (Some sid) nid seq = (VIRP_OK, st')"
  shows "store_inv st' \<and> (\<forall>m. marks st (sid, nid) = Some m \<longrightarrow> m < seq) \<and>
    marks st' (sid, nid) = Some seq \<and>
    (\<forall>n. n \<noteq> nid \<longrightarrow> marks st' (sid, n) = marks st (sid, n)) \<and>
    (\<forall>k. fst k \<noteq> sid \<longrightarrow> marks st' k \<in> {marks st k, None})"
proof -
  have other: "marks st' k \<in> {marks st k, None}" if "fst k \<noteq> sid" for k
  proof (rule accept_outcome [OF assms])
    fix i e n
    assume e: "st' = put_entry i e n st" "entry_key e = (sid, nid)"
      and i: "store_inv (put_entry i e n st)" "(i < ss_count st \<and> n = ss_count st) \<or>
        (i = ss_count st \<and> n = Suc i \<and> n \<le> VIRP_SEQSTORE_MAX_ENTRIES)"
    have "k \<noteq> entry_key e"
      using that e by auto
    from put_entry_marks(2) [OF assms(1) i this] show ?thesis
      by (simp add: e)
  qed simp_all
  show ?thesis
    using seqstore.accept_inv [OF assms] seqstore.accept_ok [OF assms]
      seqstore.accept_session [OF assms] other by blast
qed

lemma demo_sid_length: "length (replicate 16 x) = 16"
  by simp

theorem accept_refines_marks_witness:
  "\<exists>st'. virp_seqstore_accept (\<lambda>_. True) empty_store (Some (replicate 16 1)) 2 3 = (VIRP_OK, st') \<and>
     store_inv st' \<and> marks st' (replicate 16 1, 2) = Some 3"
proof -
  obtain st' where a: "virp_seqstore_accept (\<lambda>_. True) empty_store (Some (replicate 16 1)) 2 3 = (VIRP_OK, st')"
    using accept_empty by blast
  show ?thesis
    using a accept_refines_marks [OF empty_store_inv(1) demo_sid_length empty_store_inv(3) a] by blast
qed

text \<open>A full table never gives up a mark of the session being
  served: the evicted entry belongs to another session and has the oldest tick among those,
  and when every slot belongs to this session the call fails and changes nothing.\<close>

theorem eviction_spares_session:
  "(lru_victim st sid = Some i \<longrightarrow> se_session_id (ss_entries st ! i) \<noteq> sid \<and>
      (\<forall>j < VIRP_SEQSTORE_MAX_ENTRIES. se_session_id (ss_entries st ! j) \<noteq> sid \<longrightarrow>
         se_touched (ss_entries st ! i) \<le> se_touched (ss_entries st ! j))) \<and>
   (marks st (sid, nid) = None \<and> ss_count st = VIRP_SEQSTORE_MAX_ENTRIES \<and>
    (\<forall>j < VIRP_SEQSTORE_MAX_ENTRIES. se_session_id (ss_entries st ! j) = sid) \<longrightarrow>
      virp_seqstore_accept io st (Some sid) nid seq = (VIRP_ERR_MESSAGE_TOO_LARGE, st))"
  using lru_victim_Some [of st sid i] lru_victim_None [of st sid] accept_full [of st sid nid io seq]
  by (auto simp: marks_def)

definition demo_full_store :: virp_seqstore_t where
  "demo_full_store = empty_store\<lparr>ss_entries := replicate VIRP_SEQSTORE_MAX_ENTRIES
     (zero_entry\<lparr>se_session_id := replicate 16 1, se_node_id := 7, se_touched := 1\<rparr>),
     ss_count := VIRP_SEQSTORE_MAX_ENTRIES\<rparr>"

theorem eviction_spares_session_witness:
  "virp_seqstore_accept (\<lambda>_. True) demo_full_store (Some (replicate 16 1)) 2 3 =
     (VIRP_ERR_MESSAGE_TOO_LARGE, demo_full_store)"
proof -
  have "marks demo_full_store (replicate 16 1, 2) = None"
    by (simp add: marks_None_iff demo_full_store_def entry_key_def)
  then show ?thesis
    using eviction_spares_session [THEN conjunct2, of demo_full_store "replicate 16 1" 2]
    by (simp add: demo_full_store_def)
qed

text \<open>A call that does not return VIRP_OK (replay, exhausted
  table, failed write to disk) leaves every entry and the count exactly as they were, so a
  disk error cannot turn a later retry into a replay.\<close>

theorem failed_accept_changes_nothing:
  assumes "store_inv st" and "length sid = 16" and "0 < budget st"
    and "virp_seqstore_accept io st (Some sid) nid seq = (err, st')" and "err \<noteq> VIRP_OK"
  shows "ss_entries st' = ss_entries st \<and> ss_count st' = ss_count st \<and> marks st' = marks st"
  using accept_failed [OF assms] seqstore.accept_refuse [OF assms] by blast

theorem failed_accept_changes_nothing_witness:
  "\<exists>st'. virp_seqstore_accept (\<lambda>_. False) (empty_store\<lparr>ss_path := ''p''\<rparr>) (Some (replicate 16 1)) 2 3 =
     (VIRP_ERR_CHAIN_DB, st') \<and> ss_entries st' = ss_entries empty_store \<and> ss_tick st' = 1"
proof -
  let ?s = "empty_store\<lparr>ss_path := ''p''\<rparr>"
  have i: "store_inv ?s" "0 < budget ?s"
    using empty_store_inv by (simp_all add: store_inv_def budget_def)
  have f: "find_mark ?s (replicate 16 1) 2 = None" "ss_count ?s < VIRP_SEQSTORE_MAX_ENTRIES"
    by (simp_all add: find_mark_def empty_store_def VIRP_SEQSTORE_MAX_ENTRIES_def)
  have a: "virp_seqstore_accept (\<lambda>_. False) ?s (Some (replicate 16 1)) 2 3 =
      (VIRP_ERR_CHAIN_DB, ?s\<lparr>ss_tick := ss_tick ?s + 1\<rparr>)"
    using accept_append [OF f i(1), of "\<lambda>_. False" 3] by (simp add: seqstore_save_def put_entry_def)
  show ?thesis
    using a failed_accept_changes_nothing [OF i(1) demo_sid_length i(2) a] by (simp add: empty_store_def)
qed

text \<open>C22: initialising a store from the file a previous run wrote
  succeeds and restores every high-water mark.\<close>

theorem store_survives_restart:
  assumes "store_inv st" and "path \<noteq> []" and "length path < VIRP_SEQSTORE_PATH_MAX"
  shows "\<exists>st'. virp_seqstore_init (FText (store_text st)) (Some path) = (VIRP_OK, st') \<and>
    marks st' = marks st \<and> ss_count st' = ss_count st"
  using load_store_text [OF assms(1), of path] assms(2,3)
  by (simp add: virp_seqstore_init_def seqstore_load_def)

definition demo_store :: virp_seqstore_t where
  "demo_store = snd (virp_seqstore_accept (\<lambda>_. True) empty_store (Some (replicate 16 1)) 2 3)"

lemma demo_store_props:
  "store_inv demo_store" "marks demo_store (replicate 16 1, 2) = Some 3" "0 < budget demo_store"
  unfolding demo_store_def
  using seqstore.accept_inv [OF empty_store_inv(1) demo_sid_length empty_store_inv(3) accept_empty]
    seqstore.accept_ok [OF empty_store_inv(1) demo_sid_length empty_store_inv(3) accept_empty]
  by (simp_all add: accept_empty budget_def put_entry_tick) (simp add: empty_store_def)

theorem store_survives_restart_witness:
  "\<exists>st'. virp_seqstore_init (FText (store_text demo_store)) (Some ''/var/seq'') = (VIRP_OK, st') \<and>
     marks st' (replicate 16 1, 2) = Some 3"
  using store_survives_restart [OF demo_store_props(1), of "''/var/seq''"] demo_store_props(2) by auto

section \<open>Session observations\<close>

definition demo_hash :: bytes where
  "demo_hash = take 32 (string_bytes ''show clock'' @ replicate 32 0)"

lemma demo_command_hash: "command_hash demo_lib ''show clock'' None = Inr demo_hash"
proof -
  have "virp_canonicalize_command (Some ''show clock'') 512 = Some ''show clock''"
    by code_simp
  then show ?thesis
    by (simp add: command_hash_def demo_lib_def demo_hash_def)
qed

lemma demo_active_shape: "session_shape demo_active" "length (s_session_id demo_active) = 16"
  using session_reach_inv [OF demo_reach(3) demo_lib_laws(1,2)] demo_states(5)
  by (simp_all add: session_inv_def)

lemma demo_room: "has_room empty_store sid nid"
  by (simp add: has_room_def empty_store_def VIRP_SEQSTORE_MAX_ENTRIES_def)

text \<open>C16: in an active session, building a v2 observation that fits
  succeeds, and a verifier in the same session accepts the built octets for the same device
  and command within the freshness window, returns the payload and the header fields the
  builder was given, and raises its high-water mark to the sequence number.\<close>

theorem v2_observation_roundtrip:
  assumes "session_shape s" and "sha_len C" and "hmac_len C"
    and "s_state s = VIRP_SESSION_ACTIVE" and "s_session_key_valid s"
    and "\<And>k d. HMAC C k d \<noteq> None" and "command_hash C cmd tp = Inr ch"
    and "120 + length p \<le> VIRP_MAX_MESSAGE_SIZE" and "120 + length p \<le> length buf"
    and "tier \<le> VIRP_TIER_RED" and "fresh (if now' = 0 then clock else now') now"
    and "store_inv st" and "0 < budget st" and "\<And>t. io t" and "has_room st (s_session_id s) nid"
    and "\<And>m. marks st (s_session_id s, nid) = Some m \<Longrightarrow> m < sq"
  shows "\<exists>buf' n st'.
    fst (virp_build_observation_v2 C ta now s nid did tier sq (Some cmd) tp p (Some buf)) = Inr (buf', n) \<and>
    virp_verify_observation_v2 C io clock s did (Some cmd) tp (Some (take n buf')) now' st =
      (Inr (obs_header 2 s now nid did tier sq (length p) ch, p), st') \<and>
    marks st' (s_session_id s, nid) = Some sq"
proof -
  let ?h = "obs_header 2 s now nid did tier sq (length p) ch"
  have n: "120 + length p \<le> 65536" and sid: "length (s_session_id s) = 16"
    using assms(1,8) by (simp_all add: session_shape_def)
  obtain sig where sig: "HMAC C (s_session_key s) (obs_header_bytes ?h @ p) = Some sig"
    using assms(6) by blast
  obtain st' where a: "virp_seqstore_accept io st (Some (s_session_id s)) nid sq = (VIRP_OK, st')"
    using accept_succeeds [OF assms(12), of io, OF assms(14) assms(16) assms(15)] by blast
  have wf: "wf_obs_header ?h"
    using wf_obs_header_built sid command_hash_length [OF assms(2,7)] by blast
  have l: "length (obs_v2_message ?h p sig) = 120 + length p"
    using obs_v2_message_parts(1) [OF wf] sig assms(3) by (auto simp: hmac_len_def)
  show ?thesis
    using build_v2_succeeds [OF assms(1-5,7) n assms(9) sig, of ta] l
      verify_built_v2 [OF assms(1-5,7) n assms(10) sig refl assms(11) a]
      seqstore.accept_ok [OF assms(12) sid assms(13) a]
    by simp
qed

theorem v2_observation_roundtrip_witness:
  "\<exists>buf' n st'.
    fst (virp_build_observation_v2 demo_lib 104 105 demo_active 1 2 VIRP_TIER_GREEN 3 (Some ''show clock'') None
      [8, 9] (Some (replicate 200 0))) = Inr (buf', n) \<and>
    virp_verify_observation_v2 demo_lib (\<lambda>_. True) 0 demo_active 2 (Some ''show clock'') None
      (Some (take n buf')) 106 empty_store =
      (Inr (obs_header 2 demo_active 105 1 2 VIRP_TIER_GREEN 3 (length [8 :: byte, 9]) demo_hash, [8, 9]), st') \<and>
    marks st' (s_session_id demo_active, 1) = Some 3"
  by (rule v2_observation_roundtrip [OF demo_active_shape(1) demo_lib_laws(2,1) demo_states(3,4)
        demo_lib_total demo_command_hash])
     (simp_all add: fresh_def empty_store_inv demo_room)

text \<open>C4: a message the v2 verifier accepts has been authenticated by the key
  of this active session over every octet before the tag, names this session, the expected
  device and the expected command, is within five minutes of the clock, carries a tier from
  GREEN to RED and exactly the payload its length field announces, and its sequence number is
  above the node's mark.\<close>

theorem v2_verifier_sound:
  assumes "length (s_session_id s) = 16" and "sha_len C" and "hmac_len C"
    and "store_inv st" and "0 < budget st"
    and "virp_verify_observation_v2 C io clock s did (Some cmd) tp (Some m) now st = (Inr (h, p), st')"
  shows "s_state s = VIRP_SESSION_ACTIVE \<and> s_session_key_valid s \<and>
    (\<exists>sig. m = obs_header_bytes h @ p @ sig \<and> length sig = 32 \<and>
       HMAC C (s_session_key s) (obs_header_bytes h @ p) = Some sig) \<and>
    oh_version h = 2 \<and> oh_channel h = VIRP_CHANNEL_OC \<and> oh_tier h \<le> VIRP_TIER_RED \<and>
    oh_session_id h = s_session_id s \<and> oh_device_id h = did \<and>
    command_hash C cmd tp = Inr (oh_command_hash h) \<and>
    fresh (if now = 0 then clock else now) (oh_timestamp_ns h) \<and>
    unat (oh_payload_len h) = length p \<and>
    (\<forall>q. marks st (s_session_id s, oh_node_id h) = Some q \<longrightarrow> q < oh_seq_num h)"
proof -
  note v = assms(6) [unfolded verify_v2_Inr_iff [OF assms(1-3)] sanity_ok_iff]
  have d: "virp_obs_header_v2_deserialize (Some m) = Inr h" and len: "length m = 88 + unat (oh_payload_len h) + 32"
    and p: "p = bslice 88 (unat (oh_payload_len h)) m"
    and mac: "HMAC C (s_session_key s) (take (length m - 32) m) = Some (drop (length m - 32) m)"
    using v by blast+
  have "oh_reserved h = 0"
    using v by blast
  then have "wf_obs_header h"
    using d by (auto simp: wf_obs_header_def virp_obs_header_v2_deserialize_def split: if_splits)
  then have hb: "take 88 m = obs_header_bytes h"
    using hdr2.enc_dec [OF d] by simp
  have lp: "length p = unat (oh_payload_len h)" and n: "length m - 32 = 88 + unat (oh_payload_len h)"
    using len by (simp_all add: p bslice_def)
  have t: "take (length m - 32) m = obs_header_bytes h @ p"
    unfolding n take_add hb p bslice_def ..
  have "m = obs_header_bytes h @ p @ drop (length m - 32) m"
    using append_take_drop_id [of "length m - 32" m] unfolding t append_assoc by (rule sym)
  moreover have "length (drop (length m - 32) m) = 32"
    using len by simp
  ultimately have sig: "\<exists>sig. m = obs_header_bytes h @ p @ sig \<and> length sig = 32 \<and>
      HMAC C (s_session_key s) (obs_header_bytes h @ p) = Some sig"
    using mac unfolding t by blast
  have acc: "virp_seqstore_accept io st (Some (s_session_id s)) (oh_node_id h) (oh_seq_num h) = (VIRP_OK, st')"
    using v by metis
  show ?thesis
    using v sig lp [symmetric] seqstore.accept_ok [OF assms(4,1,5) acc] by blast
qed

definition demo_v2_header :: virp_obs_header_v2_t where
  "demo_v2_header = obs_header 2 demo_active 105 1 2 VIRP_TIER_GREEN 3 (length [8 :: byte, 9]) demo_hash"

definition demo_observation :: bytes where
  "demo_observation = obs_v2_message demo_v2_header [8, 9]
     (the (HMAC demo_lib (s_session_key demo_active)
       (obs_header_bytes demo_v2_header @ [8, 9])))"

lemma demo_observation_accepted:
  "virp_verify_observation_v2 demo_lib (\<lambda>_. True) 0 demo_active 2 (Some ''show clock'') None
     (Some demo_observation) 106 empty_store =
   (Inr (demo_v2_header, [8, 9]),
    put_entry 0 (fresh_entry empty_store (s_session_id demo_active) 1 3) 1 empty_store)"
  unfolding demo_observation_def
proof (rule verify_built_v2 [OF demo_active_shape(1) demo_lib_laws(2,1) demo_states(3,4)
      demo_command_hash _ _ _ demo_v2_header_def _ accept_empty])
  show "HMAC demo_lib (s_session_key demo_active) (obs_header_bytes demo_v2_header @ [8, 9]) =
      Some (the (HMAC demo_lib (s_session_key demo_active) (obs_header_bytes demo_v2_header @ [8, 9])))"
    using demo_lib_total by simp
qed (simp_all add: fresh_def)

theorem v2_verifier_sound_witness:
  "\<exists>sig. demo_observation = obs_header_bytes demo_v2_header @
     [8, 9] @ sig \<and> length sig = 32 \<and>
     HMAC demo_lib (s_session_key demo_active)
       (obs_header_bytes demo_v2_header @ [8, 9]) = Some sig"
  using v2_verifier_sound [OF demo_active_shape(2) demo_lib_laws(2,1) empty_store_inv(1,3)
      demo_observation_accepted] by blast

text \<open>C1: however many messages a verifier is given in one session, in whatever
  order and with whatever repetitions, the sequence numbers it accepts from one node grow
  strictly; no observation is accepted twice, also after a restart from marks on disk.\<close>

theorem v2_no_replay:
  assumes "length (s_session_id s) = 16" and "store_inv st" and "length rs \<le> budget st"
  shows "sorted_wrt (\<lambda>a b. oh_node_id a = oh_node_id b \<longrightarrow> oh_seq_num a < oh_seq_num b) (verify_run C io s rs st) \<and>
    distinct (verify_run C io s rs st) \<and>
    (\<forall>h \<in> set (verify_run C io s rs st). \<forall>q. marks st (s_session_id s, oh_node_id h) = Some q \<longrightarrow> q < oh_seq_num h)"
proof -
  let ?f = "\<lambda>h. (oh_node_id h, oh_seq_num h)" and ?calls = "List.map_filter (request_call C s) rs"
  have "length ?calls \<le> budget st"
    using assms(3) le_trans [OF length_filter_le] by (simp add: List.map_filter_def)
  from seqstore.run_increasing [OF assms(2,1) this, of io] seqstore.run_distinct [OF assms(2,1) this, of io]
  show ?thesis
    unfolding verify_run_accepts [OF assms(1), symmetric]
    by (auto simp: sorted_wrt_map distinct_map)
qed

definition demo_request :: verify_request where
  "demo_request = \<lparr>vr_clock = 0, vr_device = 2, vr_command = Some ''show clock'', vr_profile = None,
     vr_msg = Some demo_observation, vr_now = 106\<rparr>"

lemma accepted_header:
  assumes "length (s_session_id s) = 16" and "sha_len C" and "hmac_len C"
    and "virp_verify_observation_v2 C io clock s did (Some cmd) tp (Some m) now st = (Inr (h, p), st')"
  shows "virp_obs_header_v2_deserialize (Some m) = Inr h"
  using assms(4) unfolding verify_v2_Inr_iff [OF assms(1-3)] by blast

lemma demo_request_header:
  assumes "verify_request_step demo_lib (\<lambda>_. True) demo_active demo_request st = (Inr (h, p), st')"
  shows "h = demo_v2_header"
proof -
  note l = demo_active_shape(2) demo_lib_laws(2,1)
  have "virp_obs_header_v2_deserialize (Some demo_observation) = Inr h"
    using assms by (intro accepted_header [OF l]) (simp add: verify_request_step_def demo_request_def)
  then show ?thesis
    using accepted_header [OF l demo_observation_accepted] by simp
qed

theorem v2_no_replay_witness:
  "verify_run demo_lib (\<lambda>_. True) demo_active [demo_request, demo_request] empty_store =
     [demo_v2_header]"
proof -
  let ?run = "verify_run demo_lib (\<lambda>_. True) demo_active [demo_request, demo_request] empty_store"
  let ?h = "demo_v2_header"
  have d: "distinct ?run"
    using v2_no_replay [OF demo_active_shape(2) empty_store_inv(1), of "[demo_request, demo_request]"]
    by (simp add: budget_def empty_store_def)
  obtain st1 where s1: "verify_request_step demo_lib (\<lambda>_. True) demo_active demo_request empty_store =
      (Inr (?h, [8, 9]), st1)"
    using demo_observation_accepted by (simp add: verify_request_step_def demo_request_def)
  obtain r st2 where s2: "verify_request_step demo_lib (\<lambda>_. True) demo_active demo_request st1 = (r, st2)"
    by fastforce
  show ?thesis
  proof (cases r)
    case (Inl e)
    then show ?thesis
      using s1 s2 by simp
  next
    case (Inr hp)
    then show ?thesis
      using d s1 s2 demo_request_header [of st1 "fst hp" "snd hp" st2] by (cases hp) simp
  qed
qed

text \<open>A message the verifier rejects, for whatever reason, moves no
  high-water mark: a forged or stale message cannot push the window over the honest node.\<close>

theorem v2_rejection_keeps_marks:
  assumes "length (s_session_id s) = 16" and "store_inv st" and "0 < budget st"
    and "virp_verify_observation_v2 C io clock s did cmd tp msg now st = (Inl e, st')"
  shows "marks st' = marks st"
proof (cases "verify_checks C clock s did cmd tp msg now")
  case (Inl e')
  then show ?thesis
    using assms(4) by (simp add: verify_v2_split)
next
  case (Inr r)
  obtain h p where r: "r = (h, p)"
    by (cases r)
  obtain err st1 where a: "virp_seqstore_accept io st (Some (s_session_id s)) (oh_node_id h) (oh_seq_num h) = (err, st1)"
    by fastforce
  have "err \<noteq> VIRP_OK" "st1 = st'"
    using assms(4) a verify_checks_session [OF assms(1) Inr [unfolded r]]
    by (auto simp: verify_v2_split Inr r split: if_splits)
  then show ?thesis
    using seqstore.accept_refuse [OF assms(2,1,3) a] by simp
qed

theorem v2_rejection_keeps_marks_witness:
  "virp_verify_observation_v2 demo_lib (\<lambda>_. True) 0 demo_active 2 (Some ''show clock'') None
     (Some [1, 2]) 106 demo_store = (Inl VIRP_ERR_BUFFER_TOO_SMALL, demo_store) \<and>
   marks demo_store (replicate 16 1, 2) = Some 3"
proof -
  have r: "virp_verify_observation_v2 demo_lib (\<lambda>_. True) 0 demo_active 2 (Some ''show clock'') None
     (Some [1, 2]) 106 demo_store = (Inl VIRP_ERR_BUFFER_TOO_SMALL, demo_store)"
    by (simp add: virp_verify_observation_v2_def)
  from v2_rejection_keeps_marks [OF demo_active_shape(2) demo_store_props(1,3) r] r demo_store_props(2)
  show ?thesis
    by simp
qed

section \<open>Ed25519 observations\<close>

text \<open>C18: a v3 observation that fits is built in an active session with
  a loaded observation key, and anyone who holds only the public key accepts the built octets
  and gets the payload and the header fields the builder was given.\<close>

theorem v3_observation_roundtrip:
  assumes "session_shape s" and "sha_len C" and "hmac_len C" and "ed_len C"
    and "s_state s = VIRP_SESSION_ACTIVE" and "s_session_key_valid s"
    and "command_hash C cmd tp = Inr ch" and "ok_loaded k"
    and "184 + length p \<le> VIRP_MAX_MESSAGE_SIZE" and "184 + length p \<le> length buf"
    and "tier \<le> VIRP_TIER_RED"
    and "\<And>key d. HMAC C key d \<noteq> None" and "\<And>d. crypto_sign_detached C (ok_secret_key k) d \<noteq> None"
    and "ed_correct C (ok_public_key k) (ok_secret_key k)"
  shows "\<exists>buf' n.
    fst (virp_build_observation_ed25519 C ta now s (Some k) nid did tier sq (Some cmd) tp (Some p) (Some buf)) =
      Inr (buf', n) \<and>
    virp_verify_observation_ed25519 C (Some (ok_public_key k)) (Some (take n buf')) =
      Inr (obs_header 3 s now nid did tier sq (length p) ch, p)"
proof -
  define h where "h = obs_header 3 s now nid did tier sq (length p) ch"
  obtain mac where mac: "HMAC C (s_session_key s) (obs_header_bytes h @ p) = Some mac"
    using assms(12) by blast
  obtain sig where sig: "crypto_sign_detached C (ok_secret_key k) (obs_v2_message h p mac) = Some sig"
    using assms(13) by blast
  have n: "184 + length p \<le> 65536"
    using assms(9) by simp
  have wf: "wf_obs_header h"
    using wf_obs_header_built assms(1) command_hash_length [OF assms(2,7)] unfolding h_def
    by (simp add: session_shape_def)
  have l: "length mac = 32" "length sig = 64"
    using mac sig assms(3,4) by (auto simp: hmac_len_def ed_len_def)
  have f: "oh_version h = 3" "oh_channel h = VIRP_CHANNEL_OC" "oh_tier h \<le> VIRP_TIER_RED"
    "oh_reserved h = 0" "oh_payload_len h = of_nat (length p)"
    using assms(11) by (simp_all add: h_def obs_header_def)
  have v: "crypto_sign_verify_detached C (ok_public_key k) (obs_v2_message h p mac) sig"
    using assms(14) sig by (simp add: ed_correct_def)
  have "take (184 + length p) (obs_v3_message h p mac sig @ drop (184 + length p) buf) = obs_v3_message h p mac sig"
    using obs_v3_message_parts(1) [OF wf l, of p] by simp
  then show ?thesis
    using build_v3_succeeds [OF assms(1-8) n assms(10) h_def mac sig, of ta] verify_built_v3 [OF wf l f n v]
    unfolding h_def [symmetric] by simp
qed

definition demo_obskey :: virp_obskey_t where
  "demo_obskey = \<lparr>ok_public_key = replicate 32 5, ok_secret_key = replicate 64 6,
     ok_key_id = replicate 32 7, ok_loaded = True, ok_locked = True\<rparr>"

theorem v3_observation_roundtrip_witness:
  "\<exists>buf' n.
    fst (virp_build_observation_ed25519 demo_lib 104 105 demo_active (Some demo_obskey) 1 2 VIRP_TIER_YELLOW 3
      (Some ''show clock'') None (Some [8, 9]) (Some (replicate 200 0))) = Inr (buf', n) \<and>
    virp_verify_observation_ed25519 demo_lib (Some (ok_public_key demo_obskey)) (Some (take n buf')) =
      Inr (obs_header 3 demo_active 105 1 2 VIRP_TIER_YELLOW 3 (length [8 :: byte, 9]) demo_hash, [8, 9])"
  by (rule v3_observation_roundtrip [OF demo_active_shape(1) demo_lib_laws(2,1,3) demo_states(3,4)
        demo_command_hash])
     (simp_all add: demo_obskey_def demo_lib_laws demo_lib_total, simp_all add: demo_lib_def)

text \<open>C14: a message the public-key verifier accepts is exactly the canonical
  octets of its header, the payload, a 32-octet tag and a valid signature over all of that,
  with version 3, a tier from GREEN to RED and the announced payload length; and every such
  message is accepted.\<close>

theorem v3_verifier_sound:
  "virp_verify_observation_ed25519 C (Some pk) (Some m) = Inr (h, p) \<longleftrightarrow>
   (\<exists>mac sig. m = obs_v3_message h p mac sig \<and> length mac = 32 \<and> length sig = 64 \<and> length m \<le> VIRP_MAX_MESSAGE_SIZE \<and>
      wf_obs_header h \<and> oh_version h = 3 \<and> oh_channel h = VIRP_CHANNEL_OC \<and> oh_tier h \<le> VIRP_TIER_RED \<and>
      unat (oh_payload_len h) = length p \<and>
      crypto_sign_verify_detached C pk (obs_v2_message h p mac) sig)"
  (is "?acc \<longleftrightarrow> ?spec")
proof
  assume ?acc
  note v = this [unfolded verify_v3_Inr_iff sanity_ok_iff]
  have d: "virp_obs_header_v2_deserialize (Some m) = Inr h" and r: "oh_reserved h = 0"
    and len: "length m = 88 + unat (oh_payload_len h) + 96" and p: "p = bslice 88 (length m - 184) m"
    using v by blast+
  let ?mac = "bslice (length m - 96) 32 m" and ?sig = "drop (length m - 64) m"
  have wf: "wf_obs_header h"
    using d r by (auto simp: wf_obs_header_def virp_obs_header_v2_deserialize_def split: if_splits)
  then have hb: "take 88 m = obs_header_bytes h"
    using hdr2.enc_dec [OF d] by simp
  have n: "length m - 64 = 88 + (unat (oh_payload_len h) + 32)" "length m - 184 = unat (oh_payload_len h)"
    "length m - 96 = 88 + unat (oh_payload_len h)"
    using len by simp_all
  have t: "take (length m - 64) m = obs_v2_message h p ?mac"
    unfolding obs_v2_message_def p n take_add hb bslice_def drop_drop by (simp add: add.commute)
  have "m = obs_v3_message h p ?mac ?sig"
    using append_take_drop_id [of "length m - 64" m] by (simp add: t obs_v3_message_def)
  moreover have "length ?mac = 32" "length ?sig = 64" "unat (oh_payload_len h) = length p"
    using len by (simp_all add: bslice_def p)
  moreover have "length m \<le> VIRP_MAX_MESSAGE_SIZE" "oh_version h = 3" "oh_channel h = VIRP_CHANNEL_OC"
    "oh_tier h \<le> VIRP_TIER_RED" "crypto_sign_verify_detached C pk (obs_v2_message h p ?mac) ?sig"
    using v unfolding t VIRP_MAX_MESSAGE_SIZE_def by blast+
  ultimately show ?spec
    using wf by blast
next
  assume ?spec
  then obtain mac sig where m: "m = obs_v3_message h p mac sig" "length mac = 32" "length sig = 64"
      "length m \<le> VIRP_MAX_MESSAGE_SIZE" "wf_obs_header h" "unat (oh_payload_len h) = length p"
      "crypto_sign_verify_detached C pk (obs_v2_message h p mac) sig"
    and f: "oh_version h = 3" "oh_channel h = VIRP_CHANNEL_OC" "oh_tier h \<le> VIRP_TIER_RED"
    by blast
  have n: "184 + length p \<le> 65536"
    using m(1,4) obs_v3_message_parts(1) [OF m(5,2,3), of p] by simp
  have "oh_reserved h = 0" "oh_payload_len h = of_nat (length p)"
    using m(5) by (simp_all add: wf_obs_header_def m(6) [symmetric])
  then show ?acc
    unfolding m(1) by (rule verify_built_v3 [OF m(5,2,3) f _ _ n m(7)])
qed

text \<open>Octets that start with the header of an accepted v2 observation are
  never accepted as a v3 observation, whatever follows and under whatever public key.\<close>

theorem v2_v3_separated:
  assumes "length (s_session_id s) = 16" and "sha_len C" and "hmac_len C"
    and "virp_verify_observation_v2 C io clock s did (Some cmd) tp (Some m) now st = (Inr (h, p), st')"
    and "take 88 m' = take 88 m"
  shows "\<exists>e. virp_verify_observation_ed25519 C' (Some pk) (Some m') = Inl e"
  using v2_v3_disjoint [OF assms] by (cases "virp_verify_observation_ed25519 C' (Some pk) (Some m')") blast+

theorem v2_v3_separated_witness:
  "\<exists>e. virp_verify_observation_ed25519 demo_lib (Some (ok_public_key demo_obskey))
     (Some (demo_observation @ replicate 64 0)) = Inl e"
proof (rule v2_v3_separated [OF demo_active_shape(2) demo_lib_laws(2,1) demo_observation_accepted])
  have "88 \<le> length demo_observation"
    using accepted_header [OF demo_active_shape(2) demo_lib_laws(2,1) demo_observation_accepted]
    by (auto simp: virp_obs_header_v2_deserialize_def split: if_splits)
  then show "take 88 (demo_observation @ replicate 64 0) = take 88 demo_observation"
    by simp
qed

text \<open>The v2 builder does not look at the tier. It signs a BLACK
  observation, which the protocol forbids to transmit, although every verifier refuses it.\<close>

theorem black_observation_signed:
  assumes "session_shape s" and "sha_len C" and "hmac_len C"
    and "s_state s = VIRP_SESSION_ACTIVE" and "s_session_key_valid s"
    and "\<And>k d. HMAC C k d \<noteq> None" and "command_hash C cmd tp = Inr ch"
    and "120 + length p \<le> VIRP_MAX_MESSAGE_SIZE" and "120 + length p \<le> length buf"
  shows "\<exists>buf' n.
    fst (virp_build_observation_v2 C ta now s nid did VIRP_TIER_BLACK sq (Some cmd) tp p (Some buf)) = Inr (buf', n) \<and>
    fst (virp_verify_observation_v2 C io clock s did (Some cmd) tp (Some (take n buf')) now' st) =
      Inl VIRP_ERR_TIER_VIOLATION"
proof -
  define h where "h = obs_header 2 s now nid did VIRP_TIER_BLACK sq (length p) ch"
  have n: "120 + length p \<le> 65536" and sid: "length (s_session_id s) = 16"
    using assms(1,8) by (simp_all add: session_shape_def)
  obtain sig where sig: "HMAC C (s_session_key s) (obs_header_bytes h @ p) = Some sig"
    using assms(6) by blast
  have wf: "wf_obs_header h"
    using wf_obs_header_built sid command_hash_length [OF assms(2,7)] unfolding h_def by blast
  have l: "length sig = 32"
    using sig assms(3) by (auto simp: hmac_len_def)
  note m = obs_v2_message_parts [OF wf l, of p]
  have tier: "virp_obs_header_sanity (Some h) 2 (length (obs_v2_message h p sig)) 32 = VIRP_ERR_TIER_VIOLATION"
    unfolding m(1) by (simp add: virp_obs_header_sanity_def h_def obs_header_def)
  have "fst (virp_verify_observation_v2 C io clock s did (Some cmd) tp (Some (obs_v2_message h p sig)) now' st) =
      Inl VIRP_ERR_TIER_VIOLATION"
    unfolding virp_verify_observation_v2_def Let_def
    using m n sig assms(4,5) tier l by (simp add: virp_session_require_active_def virp_hmac_sha256_def)
  then show ?thesis
    using build_v2_succeeds [OF assms(1-5,7) n assms(9) sig [unfolded h_def], of ta] m(1)
    unfolding h_def [symmetric] by simp
qed

theorem black_observation_signed_witness:
  "\<exists>buf' n.
    fst (virp_build_observation_v2 demo_lib 104 105 demo_active 1 2 VIRP_TIER_BLACK 3 (Some ''show clock'') None
      [8, 9] (Some (replicate 200 0))) = Inr (buf', n) \<and>
    fst (virp_verify_observation_v2 demo_lib (\<lambda>_. True) 0 demo_active 2 (Some ''show clock'') None
      (Some (take n buf')) 106 empty_store) = Inl VIRP_ERR_TIER_VIOLATION"
  by (rule black_observation_signed [OF demo_active_shape(1) demo_lib_laws(2,1) demo_states(3,4)
        demo_lib_total demo_command_hash]) simp_all

section \<open>Key files\<close>


definition demo_os :: os_answers where
  "demo_os = \<lparr>oa_unlink = True, oa_open = True, oa_umask = 0x12, oa_fchmod = True,
     oa_writes = [Wrote 20, WEintr, Wrote 50], oa_fsync = True, oa_rename = True, oa_cleanup = True\<rparr>"

lemma demo_write_loop: "write_loop 32 0 [Wrote 20, WEintr, Wrote 50] = Some (True, [20, 32])"
  by (simp add: write_loop.simps)

lemma demo_save:
  "\<exists>tr. virp_key_save_file demo_os 7 Map.empty (Some (demo_key t)) (Some ''/k'') = Some (VIRP_OK, tr) \<and>
     virp_write_file_durable demo_os 7 Map.empty (Some ''/k'') 0x180 (Some (replicate 32 7)) = Some (VIRP_OK, tr)"
  by (simp add: virp_key_save_file_def virp_write_file_durable_def demo_os_def demo_key_def tmp_name_def
      demo_write_loop Let_def)


text \<open>A signing key that was saved loads again under the same user with the same
  secret, type and fingerprint.\<close>

theorem key_save_load:
  assumes "virp_key_save_file os euid fs (Some k) (Some p) = Some (VIRP_OK, tr)"
    and "length (sk_key k) = VIRP_KEY_SIZE"
  shows "\<exists>k'. virp_key_load_file C (last tr) euid ml (sk_type k) (Some p) = Inr k' \<and>
    sk_key k' = sk_key k \<and> sk_type k' = sk_type k \<and> sk_loaded k' \<and>
    sk_fingerprint k' = compute_fingerprint C (sk_key k)"
proof -
  obtain e where w: "virp_write_file_durable os euid fs (Some p) 0x180 (Some (sk_key k)) = Some (e, tr)" "e = VIRP_OK"
    using assms(1) by (auto simp: virp_key_save_file_def split: if_splits)
  then have f: "last tr p = Some (plain_file euid 0x180 (sk_key k))"
    using durable_atomic(3) [OF w(1)] by simp
  have "virp_keyfile_read (last tr) euid p True VIRP_KEY_SIZE = Inr (sk_key k)"
    using keyfile_plain [of "last tr" p, OF f, of True] assms(2) by simp
  then show ?thesis
    by (simp add: virp_key_load_file_def virp_key_init_def)
qed

theorem key_save_load_witness:
  "\<exists>tr k'. virp_key_save_file demo_os 7 Map.empty (Some (demo_key 1)) (Some ''/k'') = Some (VIRP_OK, tr) \<and>
     virp_key_load_file demo_lib (last tr) 7 True 1 (Some ''/k'') = Inr k' \<and> sk_key k' = replicate 32 7"
proof -
  obtain tr where t: "virp_key_save_file demo_os 7 Map.empty (Some (demo_key 1)) (Some ''/k'') = Some (VIRP_OK, tr)"
    using demo_save by blast
  have "length (sk_key (demo_key 1)) = VIRP_KEY_SIZE"
    by (simp add: demo_key_def)
  from key_save_load [OF t this, of demo_lib True] t show ?thesis
    by (auto simp: demo_key_def)
qed

text \<open>C27: an observation, chain-signing or federation key loads only from
  a regular file that is no symbolic link, has no group or world permission bits, belongs to
  the user (or the user is root) and has exactly 64 octets; its public half is the one its
  seed derives and its identifier is the hash of that half.\<close>

theorem signing_keys_in_custody:
  assumes "(\<exists>k. virp_obskey_load C True ml fs euid (Some p) = Inr k \<and> sk = ok_secret_key k \<and> pk = ok_public_key k \<and> kid = ok_key_id k) \<or>
    (\<exists>k. virp_chainsign_load C True ml fs euid (Some p) = Inr k \<and> sk = ck_secret_key k \<and> pk = ck_public_key k \<and> kid = ck_key_id k) \<or>
    (\<exists>k. virp_fed_load C ml fs euid (Some pp) (Some p) v = Inr k \<and> sk = fk_secret_key k \<and> pk = fk_public_key k \<and> kid = fk_key_id k)"
  shows "(\<exists>f. fs p = Some f \<and> \<not> kf_symlink f \<and> kf_regular f \<and> kf_mode f AND 0x3F = 0 \<and>
      (kf_uid f = euid \<or> euid = 0) \<and> kf_size f = 64) \<and>
    sk = take 32 sk @ pk \<and> (\<exists>x. crypto_sign_seed_keypair C (take 32 sk) = Some (pk, x)) \<and>
    kid = take 16 (SHA256 C pk)"
proof -
  have c: "(\<exists>f. fs p = Some f \<and> in_custody euid 64 f) \<and> derived_pk C sk = Some pk \<and> kid = take 16 (SHA256 C pk)"
    using assms obskey.load_in_custody(1) [of C ml fs euid p] obskey.load_pair [of C ml fs euid p]
      chainsign.load_in_custody(1) [of C ml fs euid p] chainsign.load_pair [of C ml fs euid p]
      fed.load_in_custody(1) [of C ml fs euid pp p v] fed.load_pair [of C ml fs euid pp p v]
    by blast
  then show ?thesis
    using derived_pk_SomeD [of C sk pk] by (auto simp: in_custody_def virp_key_owner_ok_def)
qed

definition demo_ed_lib :: crypto_lib where
  "demo_ed_lib = demo_lib\<lparr>crypto_sign_seed_keypair := \<lambda>s. Some (rev s, s @ rev s)\<rparr>"

definition demo_secret :: bytes where
  "demo_secret = replicate 31 1 @ [2, 2] @ replicate 31 1"

theorem signing_keys_in_custody_witness:
  "\<exists>k. virp_obskey_load demo_ed_lib True True [''/s'' \<mapsto> plain_file 7 0x180 demo_secret] 7 (Some ''/s'') = Inr k \<and>
     ok_secret_key k = take 32 (ok_secret_key k) @ ok_public_key k"
proof -
  have l: "length demo_secret = 64"
    by (simp add: demo_secret_def)
  have "virp_keyfile_read [''/s'' \<mapsto> plain_file 7 0x180 demo_secret] 7 ''/s'' True 64 = Inr demo_secret"
    using keyfile_plain [where secret = True and d = demo_secret] l by simp
  moreover have "derived_pk demo_ed_lib demo_secret = Some (2 # replicate 31 1)"
    by (simp add: derived_pk_def demo_ed_lib_def demo_secret_def)
  ultimately obtain k where k: "virp_obskey_load demo_ed_lib True True
      [''/s'' \<mapsto> plain_file 7 0x180 demo_secret] 7 (Some ''/s'') = Inr k"
    using obskey.load_succeeds by blast
  have "ok_secret_key k = take 32 (ok_secret_key k) @ ok_public_key k"
    using k by (intro signing_keys_in_custody [THEN conjunct2, THEN conjunct1]) blast
  then show ?thesis
    using k by blast
qed

text \<open>The octets signed for a chain entry and for a chain head are
  never the same, and within a domain they determine the message; so a signature of one kind
  is a signature of the other kind, or of another message, only by a forgery.\<close>

theorem chain_signature_domains:
  assumes "chainsign_input VIRP_CHAINSIGN_TAG_ENTRY m = Some x"
  shows "chainsign_input VIRP_CHAINSIGN_TAG_HEAD m' \<noteq> Some x \<and>
    (chainsign_input VIRP_CHAINSIGN_TAG_ENTRY m'' = Some x \<longrightarrow> m'' = m)"
  using assms chainsign_input_inject [of VIRP_CHAINSIGN_TAG_ENTRY m x VIRP_CHAINSIGN_TAG_HEAD m']
    chainsign_input_inject [of VIRP_CHAINSIGN_TAG_ENTRY m x VIRP_CHAINSIGN_TAG_ENTRY m'']
  by (auto simp: VIRP_CHAINSIGN_TAG_ENTRY_def VIRP_CHAINSIGN_TAG_HEAD_def)

theorem chain_signature_domains_witness:
  "chainsign_input VIRP_CHAINSIGN_TAG_HEAD [1] \<noteq> Some (string_bytes VIRP_CHAINSIGN_TAG_ENTRY @ [0, 1])"
proof -
  have "chainsign_input VIRP_CHAINSIGN_TAG_ENTRY [1] = Some (string_bytes VIRP_CHAINSIGN_TAG_ENTRY @ [0, 1])"
    by (simp add: chainsign_input_def VIRP_CHAINSIGN_TAG_ENTRY_def)
  from chain_signature_domains [OF this] show ?thesis
    by blast
qed



section \<open>Claims of a turn\<close>

text \<open>C31: a manifest the parser accepts is well formed: its session and
  device names are short tokens of characters that need no escaping in JSON, its hashes are
  64 lower-case hex digits, evidence is present exactly when the claim has it, and the numbers
  of references and assertions fit the arrays.\<close>

theorem manifest_well_formed:
  assumes "validator_parse_manifest parse json = Inr m"
  shows "wf_manifest m"
  using assms by (rule parse_manifest_wf)

definition demo_hex :: string where
  "demo_hex = bytes_hex (replicate 32 0)"

definition demo_claim :: json where
  "demo_claim = JObject [(''device'', JString ''r1''), (''claim_type'', JString ''state_read''),
     (''evidence_ref'', JString demo_hex)]"

definition demo_manifest_json :: "nat \<Rightarrow> json" where
  "demo_manifest_json n = JObject [(''session_id'', JString ''s1''), (''prose_hash'', JString demo_hex),
     (''tool_call_refs'', JArray [JString demo_hex]), (''assertions'', JArray (replicate n demo_claim))]"

definition demo_assertion :: validator_assertion_t where
  "demo_assertion = \<lparr>va_device = ''r1'', va_claim_type = VALIDATOR_CLAIM_STATE_READ, va_has_evidence = True,
     va_evidence_ref = demo_hex\<rparr>"

definition demo_manifest :: "nat \<Rightarrow> validator_manifest_t" where
  "demo_manifest n = \<lparr>vm_session_id = ''s1'', vm_prose_hash = demo_hex, vm_tool_call_refs = [demo_hex],
     vm_assertions = replicate n demo_assertion\<rparr>"

lemma demo_hex_ok: "is_hex64 (Some demo_hex)"
  using bytes_hex_hex64 [of "replicate 32 0"] by (simp add: demo_hex_def lower_hex64_def)

lemma demo_claim_parsed: "parse_one_assertion demo_claim = Inr demo_assertion"
  by (simp add: parse_one_assertion_def demo_claim_def demo_assertion_def demo_hex_ok is_safe_token_def
      VALIDATOR_DEVICE_MAX_def token_loop_iff token_char_def is_lower_def is_dec_def parse_claim_type_def)

lemma demo_claims_parsed:
  "k + n \<le> VALIDATOR_MAX_ASSERTIONS \<Longrightarrow>
   asserts_loop (replicate n demo_claim) k acc = Inr (acc @ replicate n demo_assertion)"
  by (induction n arbitrary: k acc) (simp_all add: demo_claim_parsed)

lemma demo_manifest_parsed:
  assumes "n \<le> VALIDATOR_MAX_ASSERTIONS"
  shows "validator_parse_manifest (\<lambda>_. Some (demo_manifest_json n)) (Some ''x'') = Inr (demo_manifest n)"
  using assms
  by (simp add: validator_parse_manifest_def demo_manifest_json_def demo_manifest_def demo_hex_ok is_safe_token_def
      VALIDATOR_SESSION_ID_MAX_def VALIDATOR_MAX_TOOL_CALL_REFS_def token_loop_iff token_char_def is_lower_def
      is_dec_def parse_tool_call_refs_def demo_claims_parsed)

theorem manifest_well_formed_witness:
  "validator_parse_manifest (\<lambda>_. Some (demo_manifest_json 2)) (Some ''x'') = Inr (demo_manifest 2) \<and>
   wf_manifest (demo_manifest 2)"
  using manifest_well_formed [OF demo_manifest_parsed [of 2]] demo_manifest_parsed [of 2]
  by (simp add: VALIDATOR_MAX_ASSERTIONS_def)

text \<open>C10: a turn that is not blocked has a manifest that parsed, whose prose
  hash is the hash of the prose, and whose every assertion cites evidence of this turn that
  the chain holds for this session, or is a bare reading of state, which lowers the decision
  to a warning. When the call succeeds, the chain entry it reports is the one appended for
  this session with the hash of the decision's canonical text. No fault of the database, of
  the parser or of the buffer yields anything weaker than a block or an error.\<close>

theorem validator_turn_sound:
  assumes "validator_run_turn C parse chain_query chain_append json prose (Some fb) = (err, r)"
    and "vr_decision r \<noteq> VALIDATOR_DECISION_BLOCK"
    and "\<And>s t i x. chain_append s t i x \<noteq> Inl VIRP_OK"
  shows "\<exists>m. validator_parse_manifest parse json = Inr m \<and> Virp_Validator.sha256_hex C prose = vm_prose_hash m \<and>
    (\<forall>a \<in> set (vm_assertions m). backed chain_query m a \<or>
       (bare_read a \<and> vr_decision r = VALIDATOR_DECISION_WARN)) \<and>
    (err = VIRP_OK \<longrightarrow> (\<exists>h. h = Virp_Validator.sha256_hex C (string_bytes (canonical_text m r)) \<and>
       chain_append (vm_session_id m) ''validation'' (''val-'' @ take 16 h) h =
         Inr (vr_chain_entry_hash r, vr_chain_sequence r)))"
proof (cases "validator_parse_manifest parse json")
  case (Inl e)
  obtain reason code where e: "e = (reason, code)"
    by (cases e)
  show ?thesis
    using assms(1,2) commit_outcome(1) [OF _ _ assms(3)]
    by (fastforce simp: validator_run_turn_def Inl e zero_result_def)
next
  case (Inr m)
  let ?r0 = "validator_evaluate C chain_query m prose"
  have c: "validator_commit_decision C chain_append m ?r0 = (err, r)"
    using assms(1) by (simp add: validator_run_turn_def Inr)
  note o = commit_outcome [OF c evaluate_length [symmetric] assms(3)]
  have "vr_decision ?r0 \<noteq> VALIDATOR_DECISION_BLOCK"
    using assms(2) o(1) by simp
  then have s: "Virp_Validator.sha256_hex C prose = vm_prose_hash m"
    "\<forall>a \<in> set (vm_assertions m). backed chain_query m a \<or> bare_read a"
    unfolding validator_evaluate_iff by blast+
  have "vr_decision r = VALIDATOR_DECISION_WARN" if "a \<in> set (vm_assertions m)" "\<not> backed chain_query m a" for a
  proof -
    have "vr_decision ?r0 \<noteq> VALIDATOR_DECISION_PASS"
      using that unfolding validator_evaluate_iff by blast
    then show ?thesis
      using assms(2) o(1) by (cases "vr_decision r") simp_all
  qed
  then show ?thesis
    using s o(4,5) Inr by auto
qed

definition demo_append :: "string \<Rightarrow> string \<Rightarrow> string \<Rightarrow> string \<Rightarrow> virp_error_t + string \<times> int" where
  "demo_append s t i h = Inr (h, 1)"

lemma demo_prose: "Virp_Validator.sha256_hex demo_lib [] = demo_hex"
  by (simp add: Virp_Validator.sha256_hex_def demo_lib_def demo_hex_def)

lemma demo_turn_decision:
  "vr_decision (validator_evaluate demo_lib (\<lambda>s h. Some True) (demo_manifest n) []) = VALIDATOR_DECISION_PASS"
  unfolding validator_evaluate_iff demo_prose
  by (simp add: demo_manifest_def backed_def demo_assertion_def)

theorem validator_turn_sound_witness:
  "\<exists>err r m. validator_run_turn demo_lib (\<lambda>_. Some (demo_manifest_json 2)) (\<lambda>s h. Some True) demo_append
       (Some ''x'') [] (Some ''fb'') = (err, r) \<and>
     validator_parse_manifest (\<lambda>_. Some (demo_manifest_json 2)) (Some ''x'') = Inr m \<and>
     Virp_Validator.sha256_hex demo_lib [] = vm_prose_hash m"
proof -
  let ?turn = "validator_run_turn demo_lib (\<lambda>_. Some (demo_manifest_json 2)) (\<lambda>s h. Some True) demo_append
       (Some ''x'') [] (Some ''fb'')"
  obtain err r where t: "?turn = (err, r)"
    by fastforce
  have a: "\<And>s t i x. demo_append s t i x \<noteq> Inl VIRP_OK"
    by (simp add: demo_append_def)
  have p: "validator_parse_manifest (\<lambda>_. Some (demo_manifest_json 2)) (Some ''x'') = Inr (demo_manifest 2)"
    by (rule demo_manifest_parsed) (simp add: VALIDATOR_MAX_ASSERTIONS_def)
  have "validator_commit_decision demo_lib demo_append (demo_manifest 2)
      (validator_evaluate demo_lib (\<lambda>s h. Some True) (demo_manifest 2) []) = (err, r)"
    using t by (simp add: validator_run_turn_def p)
  from commit_outcome(1) [OF this evaluate_length [symmetric] a]
  have "vr_decision r \<noteq> VALIDATOR_DECISION_BLOCK"
    by (simp add: demo_turn_decision)
  from validator_turn_sound [OF t this a] show ?thesis
    using t by blast
qed

text \<open>C29: two decisions on parsed manifests that were committed under
  one artifact hash say the same: the same session, prose hash, verdict and turn violation,
  and assertion by assertion the same device, claim type, decision and violation; or SHA-256
  collides on their two canonical texts.\<close>

theorem validator_decision_binding:
  assumes "validator_parse_manifest parse json = Inr m" and "validator_parse_manifest parse' json' = Inr m'"
    and "validator_commit_decision C chain_append m (validator_evaluate C q m prose) = (VIRP_OK, r)"
    and "validator_commit_decision C chain_append m' (validator_evaluate C q' m' prose') = (VIRP_OK, r')"
    and "\<And>s t i x. chain_append s t i x \<noteq> Inl VIRP_OK"
    and "vr_artifact_hash r = vr_artifact_hash r'"
  shows "(vm_session_id m = vm_session_id m' \<and> vm_prose_hash m = vm_prose_hash m' \<and>
      vr_decision r = vr_decision r' \<and> vr_turn_violation r = vr_turn_violation r' \<and>
      map (\<lambda>(a, ar). (va_device a, va_claim_type a, ar)) (zip (vm_assertions m) (vr_per_assertion r)) =
      map (\<lambda>(a, ar). (va_device a, va_claim_type a, ar)) (zip (vm_assertions m') (vr_per_assertion r'))) \<or>
    (string_bytes (canonical_text m r) \<noteq> string_bytes (canonical_text m' r') \<and>
     SHA256 C (string_bytes (canonical_text m r)) = SHA256 C (string_bytes (canonical_text m' r')))"
proof -
  note o = commit_outcome [OF assms(3) evaluate_length [symmetric] assms(5)]
  note o' = commit_outcome [OF assms(4) evaluate_length [symmetric] assms(5)]
  have h: "SHA256 C (string_bytes (canonical_text m r)) = SHA256 C (string_bytes (canonical_text m' r'))"
    using o(5) [OF refl] o'(5) [OF refl] assms(6)
    unfolding o(4) o'(4) by (simp add: Virp_Validator.sha256_hex_def bytes_hex_inject)
  have q: "quote_free (vm_session_id n)" "quote_free (vm_prose_hash n)" "\<forall>a \<in> set (vm_assertions n). quote_free (va_device a)"
    if "wf_manifest n" for n
    using that token_quote_free lower_hex64_quote_free by (auto simp: wf_manifest_def wf_assertion_def list_all_iff)
  note w = parse_manifest_wf [OF assms(1)] parse_manifest_wf [OF assms(2)]
  show ?thesis
  proof (cases "canonical_text m r = canonical_text m' r'")
    case True
    show ?thesis
      by (rule disjI1, rule canonical_text_inject [OF True q(1) [OF w(1)] q(1) [OF w(2)] q(2) [OF w(1)] q(2) [OF w(2)]
            q(3) [OF w(1)] q(3) [OF w(2)]])
  next
    case False
    then show ?thesis
      using h by (simp add: string_bytes_inject)
  qed
qed

lemma demo_empty_committed:
  "\<exists>r. validator_commit_decision demo_lib demo_append (demo_manifest 0)
     (validator_evaluate demo_lib q (demo_manifest 0) []) = (VIRP_OK, r) \<and>
     vr_artifact_hash r = Virp_Validator.sha256_hex demo_lib (string_bytes (canonical_text (demo_manifest 0)
       (validator_evaluate demo_lib q (demo_manifest 0) [])))"
proof -
  let ?r = "validator_evaluate demo_lib q (demo_manifest 0) []"
  have l: "length (vm_assertions (demo_manifest 0)) = length (vr_per_assertion ?r)"
    by (rule evaluate_length [symmetric])
  have "length (validator_decision_str (vr_decision ?r)) \<le> 5" "length (dec (violation_code (vr_turn_violation ?r))) = 1"
    by (cases "vr_decision ?r"; simp)
       (cases "vr_turn_violation ?r"; simp add: dec_def num_digits.simps)
  then have "length (canonical_text (demo_manifest 0) ?r) < 8192"
    by (simp add: canonical_text_def decision_head_def Q_def demo_manifest_def demo_hex_def)
  then show ?thesis
    unfolding validator_commit_decision_def build_canonical_iff [OF l] by (simp add: Let_def demo_append_def)
qed

theorem validator_decision_binding_witness:
  "\<exists>r r'. validator_commit_decision demo_lib demo_append (demo_manifest 0)
       (validator_evaluate demo_lib (\<lambda>s h. Some True) (demo_manifest 0) []) = (VIRP_OK, r) \<and>
     validator_commit_decision demo_lib demo_append (demo_manifest 0)
       (validator_evaluate demo_lib (\<lambda>s h. None) (demo_manifest 0) []) = (VIRP_OK, r') \<and>
     (vr_decision r = vr_decision r' \<or>
      string_bytes (canonical_text (demo_manifest 0) r) \<noteq> string_bytes (canonical_text (demo_manifest 0) r'))"
proof -
  obtain r r' where c: "validator_commit_decision demo_lib demo_append (demo_manifest 0)
       (validator_evaluate demo_lib (\<lambda>s h. Some True) (demo_manifest 0) []) = (VIRP_OK, r)"
     "validator_commit_decision demo_lib demo_append (demo_manifest 0)
       (validator_evaluate demo_lib (\<lambda>s h. None) (demo_manifest 0) []) = (VIRP_OK, r')"
     "vr_artifact_hash r = vr_artifact_hash r'"
    using demo_empty_committed [of "\<lambda>s h. Some True"] demo_empty_committed [of "\<lambda>s h. None"]
    by (fastforce simp: validator_evaluate_def demo_manifest_def)
  have a: "\<And>s t i x. demo_append s t i x \<noteq> Inl VIRP_OK"
    by (simp add: demo_append_def)
  have p: "validator_parse_manifest (\<lambda>_. Some (demo_manifest_json 0)) (Some ''x'') = Inr (demo_manifest 0)"
    by (rule demo_manifest_parsed) simp
  show ?thesis
    using validator_decision_binding [OF p p c(1,2) a c(3)] c(1,2) by blast
qed

text \<open>A turn whose manifest has 122 or more assertions is never
  committed, although the parser admits 1024: its canonical text exceeds the 8192-octet buffer
  whatever the chain answers, and the caller gets an error instead of a decision.\<close>

theorem validator_buffer_bound:
  assumes "validator_parse_manifest parse json = Inr m" and "122 \<le> length (vm_assertions m)"
  shows "fst (validator_run_turn C parse chain_query chain_append json prose (Some fb)) = VIRP_ERR_BUFFER_TOO_SMALL"
proof -
  let ?r = "validator_evaluate C chain_query m prose"
  have "8192 \<le> length (canonical_text m ?r)"
    using canonical_text_length [OF parse_manifest_wf [OF assms(1)] evaluate_length [symmetric], of C chain_query prose] assms(2)
    by simp
  from commit_too_large [OF evaluate_length [symmetric] this] show ?thesis
    by (simp add: validator_run_turn_def assms(1))
qed

theorem validator_buffer_bound_witness:
  "fst (validator_run_turn demo_lib (\<lambda>_. Some (demo_manifest_json 200)) (\<lambda>s h. Some True) demo_append
     (Some ''x'') [] (Some ''fb'')) = VIRP_ERR_BUFFER_TOO_SMALL"
  by (rule validator_buffer_bound [OF demo_manifest_parsed])
     (simp_all add: demo_manifest_def VALIDATOR_MAX_ASSERTIONS_def)

section \<open>Response bodies\<close>

text \<open>C13: what a matched response looks like afterwards. Untouched means
  that the buffer is as it was and either holds no payload or holds an object that is already
  within the rule. Filtered means that the buffer shows the unchanged first line and the print
  of a tree within the rule with its annotation. Withheld means that it shows at most the first
  line and a stub made of the length and the hash of the payload. In both cases every octet of
  the old output beyond the new end is zero.\<close>

theorem body_filter_allowlist:
  assumes "virp_body_filter_apply C parse print rules (Some drv) (Some cmd) r = (outcome, r')"
    and "match_rule rules (Some drv) (Some cmd) = Some rule"
    and "length (er_output r) = VIRP_OUTPUT_MAX" and "er_output_len r \<le> length (er_output r)"
  defines "pl \<equiv> prefix_length r"
  shows "case outcome of
      VIRP_BF_UNTOUCHED \<Rightarrow> r' = r \<and> (er_output_len r \<in> {0, pl} \<or>
        (\<exists>ms. parse (body_of r pl) = Some (JObject ms) \<and> within_rule rule ms))
    | VIRP_BF_FILTERED \<Rightarrow> (\<exists>ms ms' removed text. parse (body_of r pl) = Some (JObject ms) \<and>
        filter_root rule ms = (ms', removed) \<and> within_rule rule ms' \<and> removed \<noteq> [] \<and>
        print (annotated (rule_label rule) ms' removed) = Some text \<and>
        exposes r r' (take pl (er_output r) @ text))
    | VIRP_BF_WITHHELD \<Rightarrow> (\<exists>n \<in> {0, pl}. \<exists>reason.
        exposes r r' (take n (er_output r) @ withhold_stub C (body_of r pl) (rule_label rule) reason))"
proof -
  note w = withhold_exposes [OF assms(3,4), of pl C "rule_label rule"]
  consider "er_output_len r \<in> {0, pl}"
    | "er_output_len r \<notin> {0, pl}" "\<forall>ms. parse (body_of r pl) \<noteq> Some (JObject ms)"
    | ms where "er_output_len r \<notin> {0, pl}" "parse (body_of r pl) = Some (JObject ms)"
    by blast
  then show ?thesis
  proof cases
    case 1
    then show ?thesis
      using assms(1,2) by (auto simp: virp_body_filter_apply_def pl_def Let_def split: if_splits)
  next
    case 2
    then have "outcome = VIRP_BF_WITHHELD \<and> r' = withhold C r pl (rule_label rule)
        ''payload did not parse as a JSON object; withheld unfiltered''"
      using assms(1,2) by (auto simp: virp_body_filter_apply_def pl_def Let_def split: option.splits json.splits)
    then show ?thesis
      using w by auto
  next
    case 3
    obtain ms' removed where f: "filter_root rule ms = (ms', removed)"
      by fastforce
    note apply_f = assms(1) [unfolded virp_body_filter_apply_def assms(2), folded pl_def]
    show ?thesis
    proof (cases "removed = []")
      case True
      then show ?thesis
        using apply_f 3 filter_root_untouched(1) [OF f] by (simp add: Let_def f)
    next
      case False
      show ?thesis
      proof (cases "\<exists>text. print (annotated (rule_label rule) ms' removed) = Some text \<and> pl + length text < VIRP_OUTPUT_MAX")
        case True
        then obtain txt0 where t: "print (annotated (rule_label rule) ms' removed) = Some txt0"
          "pl + length txt0 < VIRP_OUTPUT_MAX"
          by blast
        then have "exposes r (replace_payload r pl txt0) (take pl (er_output r) @ txt0)"
          using assms(3,4) by (intro replace_payload_exposes) simp_all
        then show ?thesis
          using apply_f 3 t False f filter_root_within [OF f] by (auto simp: Let_def)
      next
        case unstorable: False
        then have "outcome = VIRP_BF_WITHHELD \<and> r' = withhold C r pl (rule_label rule)
            ''filtered payload could not be stored; withheld''"
          using apply_f 3 False by (auto simp: Let_def f split: option.splits if_splits)
        then show ?thesis
          using w by auto
      qed
    qed
  qed
qed

definition demo_output :: "string \<Rightarrow> virp_exec_result_t" where
  "demo_output s = \<lparr>er_output = s @ replicate (VIRP_OUTPUT_MAX - length s) NUL, er_output_len = length s\<rparr>"

definition demo_path :: string where
  "demo_path = ''GET /api/v0/devices?type=all''"

lemma demo_match:
  "\<exists>rule. match_rule (Some builtin_rules) (Some ''librenms'') (Some demo_path) = Some rule \<and>
     array_key rule = Some ''devices''"
  by (simp add: match_rule_def command_path_def demo_path_def builtin_rules_def rule_matches_def)

theorem body_filter_allowlist_witness:
  "\<exists>r' text. virp_body_filter_apply demo_lib (\<lambda>_. None) (\<lambda>_. None) (Some builtin_rules) (Some ''librenms'')
       (Some demo_path) (demo_output ''secret'') = (VIRP_BF_WITHHELD, r') \<and> exposes (demo_output ''secret'') r' text"
proof -
  obtain rule where m: "match_rule (Some builtin_rules) (Some ''librenms'') (Some demo_path) = Some rule"
    using demo_match by blast
  obtain r' where a: "virp_body_filter_apply demo_lib (\<lambda>_. None) (\<lambda>_. None) (Some builtin_rules) (Some ''librenms'')
       (Some demo_path) (demo_output ''secret'') = (VIRP_BF_WITHHELD, r')"
    using m by (simp add: virp_body_filter_apply_def demo_output_def prefix_length_def)
  have "length (er_output (demo_output ''secret'')) = VIRP_OUTPUT_MAX"
    "er_output_len (demo_output ''secret'') \<le> length (er_output (demo_output ''secret''))"
    by (simp_all add: demo_output_def VIRP_OUTPUT_MAX_def)
  from body_filter_allowlist [OF a m this] a show ?thesis
    by auto
qed

text \<open>A matched response whose value under the rule's array key is not
  an array passes with every octet of that value, whatever fields it has: the rule names the
  key, and only arrays below it are looked into.\<close>

theorem body_filter_array_gap:
  assumes "parse (body_of r (prefix_length r)) = Some (JObject [(''devices'', v)])"
    and "\<not> cJSON_IsArray (Some v)"
  shows "virp_body_filter_apply C parse print (Some builtin_rules) (Some ''librenms'') (Some demo_path) r =
    (VIRP_BF_UNTOUCHED, r)"
proof -
  obtain rule where m: "match_rule (Some builtin_rules) (Some ''librenms'') (Some demo_path) = Some rule"
    "array_key rule = Some ''devices''"
    using demo_match by blast
  have "within_rule rule [(''devices'', v)]"
    using m(2) assms(2) by (auto simp: within_rule_def)
  then have "snd (filter_root rule [(''devices'', v)]) = []"
    using filter_root_untouched(1) by (metis prod.collapse)
  then show ?thesis
    using assms(1) by (auto simp: virp_body_filter_apply_def m(1) Let_def split: prod.splits)
qed

theorem body_filter_array_gap_witness:
  "virp_body_filter_apply demo_lib
     (\<lambda>_. Some (JObject [(''devices'', JObject [(''community'', JString ''secret'')])])) (\<lambda>_. None)
     (Some builtin_rules) (Some ''librenms'') (Some demo_path) (demo_output ''x'') = (VIRP_BF_UNTOUCHED, demo_output ''x'')"
  by (rule body_filter_array_gap [where v = "JObject [(''community'', JString ''secret'')]"]) simp_all

text \<open>Whatever the configuration file holds, lazy or explicit loading
  leaves a rule set in force: the file's when it is an object with an array of rules, the
  built-in one otherwise.\<close>

theorem body_filter_always_on:
  assumes "parse (takeWhile (\<lambda>c. c \<noteq> NUL) builtin) = Some builtin_rules"
  shows "\<exists>r. vbf_rules parse builtin files env None = Some r \<and>
    (r = builtin_rules \<or> (\<exists>p text. files p = Some text \<and> parse_rules parse text = Some r)) \<and>
    fst (virp_body_filter_init parse builtin files env path) = VIRP_OK"
  using load_falls_back [of parse, OF assms, of files env None] load_falls_back [of parse, OF assms, of files env path]
  by (auto simp: vbf_rules_def virp_body_filter_init_def Let_def)

theorem body_filter_always_on_witness:
  "\<exists>r. vbf_rules (\<lambda>t. if t = ''builtin'' then Some builtin_rules else None) ''builtin'' (\<lambda>_. Some ''broken'') None None = Some r"
  using body_filter_always_on [of "\<lambda>t. if t = ''builtin'' then Some builtin_rules else None" "''builtin''"
      "\<lambda>_. Some ''broken''" None] by auto

section \<open>Operation policy\<close>

text \<open>C12: a check grants an action only if the device is enabled, the command is
  in the grammar, no protected entry covers a changing action, and an unexpired principal
  with the caller's uid has a rule for exactly this device, address, port, vendor, operation
  and resource, with the VLAN in its range; an observing principal only reads, and the ceiling
  is the one of its profile.\<close>

theorem policy_check_sound:
  assumes "virp_policy_check now (Some p) uid (Some d) command = Inr b"
  shows "dv_enabled d \<and> pa_uid b = uid \<and> pa_device_id b = dv_device_id d \<and>
    (\<exists>a. virp_policy_classify (dv_vendor d) command = Some a \<and>
       pa_command b = pa_command a \<and> pa_operation b = pa_operation a \<and> pa_resource b = pa_resource a \<and>
       pa_effect b = pa_effect a \<and> pa_vlan b = pa_vlan a) \<and>
    (pa_effect b \<noteq> 0 \<longrightarrow> (\<forall>x \<in> set (json_children (get (Some (po_root p)) ''protected'')).
       \<not> is_protected (hex_padded 16 (unat (dv_device_id d))) b x)) \<and>
    (\<exists>x \<in> set (json_children (get (Some (po_root p)) ''principals'')).
       \<exists>r \<in> set (json_children (get (Some x) ''rules'')).
       num (Some x) ''uid'' = int uid \<and> now < num (Some x) ''expires'' \<and>
       (str (Some x) ''profile'' = Some ''observe'' \<longrightarrow> pa_effect b = 0) \<and>
       pa_ceiling b = profile_ceiling (str (Some x) ''profile'') \<and>
       rule_covers (hex_padded 16 (unat (dv_device_id d))) d b r \<and>
       (pa_vlan b \<noteq> 0 \<longrightarrow> num (Some r) ''vlan_min'' \<le> int (pa_vlan b) \<and>
          int (pa_vlan b) \<le> num (Some r) ''vlan_max''))"
  using assms by (rule policy_check_Inr)

definition demo_rule :: json where
  "demo_rule = JObject [(''device_id'', JString ''0000000000000002''), (''host'', JString ''10.0.0.1''),
     (''port'', JNumber 22), (''vendor'', JNumber 3), (''operation'', JString ''host.reboot''),
     (''resource'', JString ''host'')]"

definition demo_policy_json :: json where
  "demo_policy_json = JObject [(''version'', JNumber 1), (''max_calls'', JNumber 10), (''max_disruptive'', JNumber 2),
     (''max_inflight'', JNumber 4), (''protected'', JArray []), (''principals'', JArray [JObject [(''uid'', JNumber 1000),
     (''profile'', JString ''autonomous''), (''expires'', JNumber 500), (''rules'', JArray [demo_rule])]]),
     (''trusted_appenders'', JArray [JObject [(''uid'', JNumber 7), (''types'', JArray [JString ''evidence_item''])]])]"

definition demo_policy :: virp_policy where
  "demo_policy = \<lparr>po_root = demo_policy_json, po_start_wall = 100, po_start_mono = 0, po_digest = ''d''\<rparr>"

definition demo_device :: virp_device_t where
  "demo_device = \<lparr>dv_enabled = True, dv_vendor = 3, dv_device_id = 2, dv_host = ''10.0.0.1'', dv_port = 22\<rparr>"

definition demo_action :: virp_policy_action_t where
  "demo_action = \<lparr>pa_command = ''reboot'', pa_operation = ''host.reboot'', pa_resource = ''host'', pa_effect = 2,
     pa_vlan = 0, pa_ceiling = VIRP_TIER_RED, pa_uid = 1000, pa_device_id = 2\<rparr>"

lemma demo_classified:
  "virp_policy_classify 3 (Some ''  reboot '') =
     Some (demo_action\<lparr>pa_ceiling := 0, pa_uid := 0, pa_device_id := 0\<rparr>)"
  by (simp add: virp_policy_classify_def normalize_def bad_char_def fold_keywords_def vendor_cli_def vendor_cisco_def
      is_read_def is_reboot_def vendor_host_def op_def zero_action_def demo_action_def Let_def)

lemma demo_device_hex: "hex_padded 16 2 = ''0000000000000002''"
proof -
  have "num_digits 16 2 = ''2''"
    by (simp add: num_digits.simps hex_digit_def char_of_def bit_0)
  moreover have "replicate 15 (CHR ''0'') = ''000000000000000''"
    by (simp add: eval_nat_numeral)
  ultimately show ?thesis
    by (simp add: hex_padded_def)
qed

lemma demo_granted:
  "virp_policy_check 200 (Some demo_policy) 1000 (Some demo_device) (Some ''  reboot '') = Inr demo_action"
  by (simp add: virp_policy_check_def demo_device_def demo_classified demo_policy_def demo_policy_json_def demo_rule_def
      get_def str_def num_def demo_action_def rule_covers_def demo_device_hex profile_ceiling_def strcaseeq_def Let_def)

theorem policy_check_sound_witness:
  "virp_policy_check 200 (Some demo_policy) 1000 (Some demo_device) (Some ''  reboot '') = Inr demo_action \<and>
   dv_enabled demo_device \<and> pa_uid demo_action = 1000"
  using policy_check_sound [OF demo_granted] demo_granted by blast



text \<open>A user who may append evidence under a loaded policy is refused every
  command, and so is the daemon's own user; the policy came from a path whose every component
  is no link, belongs to root and is writable by nobody else, ending in a regular file with
  one name.\<close>

theorem policy_roles_disjoint:
  assumes "virp_policy_load C parse tree euid jok sok uok wall mclock (Some path) content journal j = Some (p, j')"
    and "virp_policy_can_append (Some p) uid type \<or> uid = euid"
  shows "(\<exists>why. virp_policy_check now (Some p) uid d command = Inl why) \<and>
    (\<forall>k < length (path_parts (drop 1 path)).
       \<exists>n. tree (take (Suc k) (path_parts (drop 1 path))) = Some n \<and> in_uid n = 0 \<and> in_mode n AND 0x12 = 0 \<and>
         (Suc k = length (path_parts (drop 1 path)) \<longrightarrow> in_regular n \<and> in_nlink n = 1))"
proof -
  note f = policy_load_facts [OF assms(1)]
  have *: "\<forall>x \<in> set (json_children (get (Some (po_root p)) ''principals'')). num (Some x) ''uid'' \<noteq> int uid"
    using assms(2) roles_disjoint [OF f(3)] f(4) by blast
  have "virp_policy_check now (Some p) uid d command \<noteq> Inr b" for b
  proof (cases d)
    case None
    then show ?thesis by (simp add: virp_policy_check_def)
  next
    case (Some dev)
    then show ?thesis using * policy_check_Inr [of now p uid dev command b] by blast
  qed
  then have "\<exists>why. virp_policy_check now (Some p) uid d command = Inl why"
    by (cases "virp_policy_check now (Some p) uid d command") auto
  then show ?thesis
    using f(1) by (auto simp: secure_open_def secure_walk_iff custody_ok_def)
qed

definition demo_tree :: "string list \<Rightarrow> inode option" where
  "demo_tree p = Some \<lparr>in_dir = length p < 2, in_regular = (length p = 2), in_uid = 0, in_mode = 0x1A4, in_nlink = 1\<rparr>"

lemma demo_policy_valid: "valid_policy demo_policy_json"
  by (simp add: valid_policy_def demo_policy_json_def get_def str_def num_def integer_def demo_rule_def starts_with_def
      valid_principal_def valid_rule_def valid_appender_def same_uid_after_def ident_def device_id_def lower_hex_char_def
      valid_op_def operations_def is_alnum_def is_dec_def is_lower_def is_upper_def)

lemma demo_load:
  "\<exists>p. virp_policy_load demo_lib (\<lambda>_. Some demo_policy_json) demo_tree 5 True True True 100 0 (Some ''/etc/p'')
     (Some ''{}'') (Some ''/etc/j'') j = Some (p, recover_journal j) \<and> po_root p = demo_policy_json"
proof -
  have "secure_open demo_tree 5 b (Some ''/etc/p'')" "secure_open demo_tree 5 b (Some ''/etc/j'')" for b
    by (simp_all add: secure_open_def path_parts_def demo_tree_def custody_ok_def)
  moreover have "strstr ''{}'' [CHR 0x5C, CHR ''u'', CHR ''0'', CHR ''0'', CHR ''0'', CHR ''0''] = None"
    by (simp add: starts_with_def)
  ultimately show ?thesis
    by (simp add: virp_policy_load_def virp_policy_parse_def demo_policy_valid demo_lib_def)
       (simp add: demo_policy_json_def get_def num_def)
qed

theorem policy_roles_disjoint_witness:
  "\<exists>p. virp_policy_can_append (Some p) 7 (Some ''evidence_item'') \<and>
     (\<exists>why. virp_policy_check 200 (Some p) 7 (Some demo_device) (Some ''reboot'') = Inl why)"
proof -
  obtain p where l: "virp_policy_load demo_lib (\<lambda>_. Some demo_policy_json) demo_tree 5 True True True 100 0
      (Some ''/etc/p'') (Some ''{}'') (Some ''/etc/j'') j = Some (p, recover_journal j)" "po_root p = demo_policy_json" for j
    using demo_load by (fastforce simp: virp_policy_load_def split: if_splits option.splits)
  have a: "virp_policy_can_append (Some p) 7 (Some ''evidence_item'')"
    by (simp add: virp_policy_can_append_def l(2) demo_policy_json_def get_def num_def)
  from policy_roles_disjoint [OF l(1) disjI1 [OF a], of 200 "Some demo_device" "Some ''reboot''"] a show ?thesis
    by blast
qed

text \<open>C7: however many reservations and completions are made, in whatever
  order and with whatever database faults, the calls, the disruptive calls and the attempts in
  flight never exceed the policy's limits, a changing action is never admitted while another
  attempt on its resource (or on the host) is pending, and attempt numbers stay unique.\<close>

theorem policy_journal_invariants:
  assumes "within_quota p j" and "exclusive j" and "ids_ok j" and "list_all honest es"
  shows "within_quota p (foldl (journal_apply p) j es) \<and> exclusive (foldl (journal_apply p) j es) \<and>
    ids_ok (foldl (journal_apply p) j es)"
  using assms
proof (induction es arbitrary: j)
  case (Cons e es)
  then show ?case
    using quota_step [OF Cons.prems(1), of e] exclusive_step [OF Cons.prems(2), of e p] ids_step [OF Cons.prems(3), of p e]
    by simp
qed simp

definition demo_journal :: "attempt list \<Rightarrow> journal" where
  "demo_journal ts = \<lparr>jr_stopped = False, jr_calls = int (length ts), jr_disruptive = 0, jr_last_time = 0,
     jr_attempts = ts, jr_next_id = 1 + int (length ts)\<rparr>"

definition demo_event :: journal_event where
  "demo_event = EvReserve (\<lambda>_. True) 200 (Some 50) demo_action"

lemma demo_limits: "max_of demo_policy ''max_calls'' = 10" "max_of demo_policy ''max_disruptive'' = 2"
    "max_of demo_policy ''max_inflight'' = 4"
  by (simp_all add: max_of_def demo_policy_def demo_policy_json_def num_def get_def)

theorem policy_journal_invariants_witness:
  "within_quota demo_policy (foldl (journal_apply demo_policy) (demo_journal []) [demo_event, EvFinish True 1 True, demo_event]) \<and>
   fst (virp_policy_reserve (\<lambda>_. True) 200 (Some 50) (Some demo_policy) (Some demo_action) (demo_journal [])) = Inr 1"
proof -
  have j: "within_quota demo_policy (demo_journal [])" "exclusive (demo_journal [])" "ids_ok (demo_journal [])"
    by (simp_all add: within_quota_def exclusive_def ids_ok_def demo_journal_def demo_limits pending_count_def)
  have "list_all honest [demo_event, EvFinish True 1 True, demo_event]"
    by (simp add: demo_event_def demo_action_def op_effect_def)
  from policy_journal_invariants [OF j this] show ?thesis
    by (simp add: virp_policy_reserve_def demo_policy_def demo_policy_json_def demo_journal_def demo_action_def
        principal_live_def pending_count_def get_def num_def Let_def)
qed

text \<open>C28: if a process stopped with a changing action pending, then after
  the next load no changing action is admitted on any device, whatever happens in between,
  until the journal is reconciled from outside.\<close>

theorem policy_crash_stops_mutation:
  assumes "virp_policy_load C parse tree euid jok sok uok wall mclock path content journal j = Some (p, j')"
    and "t \<in> set (jr_attempts j)" and "at_state t = Pending" and "op_effect (at_operation t) \<noteq> 0"
    and "pa_effect a \<noteq> 0"
  shows "\<exists>why. virp_policy_reserve sql now mc (Some p) (Some a) (foldl (journal_apply p) j' es) =
    (Inl why, foldl (journal_apply p) j' es)"
proof -
  have "t\<lparr>at_state := Unknown\<rparr> \<in> set (jr_attempts j')"
    using assms(2,3) policy_load_facts(6) [OF assms(1)] by (force simp: recover_journal_def)
  then have "stuck j'"
    using assms(4) by (intro stuckI [of "t\<lparr>at_state := Unknown\<rparr>"]) simp_all
  then have "stuck (foldl (journal_apply p) j' es)"
    by (induction es arbitrary: j') (simp_all add: stuck_step)
  from stuck_refuses [OF this assms(5)] show ?thesis .
qed

definition demo_attempt :: attempt where
  "demo_attempt = \<lparr>at_id = 1, at_uid = 1000, at_device = 2, at_operation = ''vm.reboot'', at_resource = ''vm:100'',
     at_command = ''qm reboot 100'', at_policy_hash = ''d'', at_state = Pending, at_created = 150\<rparr>"

theorem policy_crash_stops_mutation_witness:
  "\<exists>p why. po_root p = demo_policy_json \<and>
     fst (virp_policy_reserve (\<lambda>_. True) 200 (Some 50) (Some p) (Some demo_action)
       (foldl (journal_apply p) (recover_journal (demo_journal [demo_attempt])) [])) = Inl why"
proof -
  obtain p where l: "virp_policy_load demo_lib (\<lambda>_. Some demo_policy_json) demo_tree 5 True True True 100 0
      (Some ''/etc/p'') (Some ''{}'') (Some ''/etc/j'') (demo_journal [demo_attempt]) =
      Some (p, recover_journal (demo_journal [demo_attempt]))" "po_root p = demo_policy_json"
    using demo_load by blast
  have "demo_attempt \<in> set (jr_attempts (demo_journal [demo_attempt]))" "at_state demo_attempt = Pending"
    "op_effect (at_operation demo_attempt) \<noteq> 0" "pa_effect demo_action \<noteq> 0"
    by (simp_all add: demo_journal_def demo_attempt_def op_effect_def demo_action_def)
  from policy_crash_stops_mutation [OF l(1) this, of "\<lambda>_. True" 200 "Some 50" "[]"] l(2) show ?thesis
    by (metis fst_conv)
qed

section \<open>The trust chain\<close>

definition demo_chain :: virp_chain_state_t where
  "demo_chain = (fresh_state 42 None)\<lparr>cs_db := Some empty_db, cs_have_chain_key := True\<rparr>"

definition demo_env :: chain_env where
  "demo_env = \<lparr>ev_wall = (\<lambda>_. 5), ev_mono = 7, ev_stack = (\<lambda>n. replicate n 0), ev_sql = (\<lambda>_. True), ev_commit_open = False\<rparr>"

definition demo_verify :: verify_env where
  "demo_verify = \<lparr>ve_sql = (\<lambda>_ _. True), ve_rows = None, ve_stack = (\<lambda>n. replicate n 0), ve_malloc = True, ve_sodium = True\<rparr>"

definition demo_ahash :: string where "demo_ahash = replicate 64 (CHR ''a'')"

definition demo_entry :: "(virp_error_t + virp_chain_entry_t) \<times> virp_chain_state_t" where
  "demo_entry = chain_append_locked demo_lib demo_env demo_chain (Some ''s2'') (Some ''observation'') (Some ''o2'')
     (Some demo_ahash) None"

lemma demo_ahash_ok: "virp_chain_artifact_hash_ok (Some demo_ahash)"
  by (simp add: virp_chain_artifact_hash_ok_def demo_ahash_def list_all_iff less_eq_char_def)

lemma demo_chain_facts:
  "cs_db demo_chain = Some empty_db" "quote_free (cs_org_id demo_chain)" "\<not> cs_verify_sig_enabled demo_chain"
  "\<not> cs_legacy_no_heads demo_chain" "cs_reads_sig demo_chain = False" "macs_computed demo_lib st" "\<forall>q. ev_sql demo_env q"
  "store_answers demo_verify" "session_rows empty_db s = []"
  by (simp_all add: demo_chain_def fresh_state_def quote_free_def macs_computed_def hmac_sha256_hex_def virp_hmac_sha256_def
      demo_lib_def min_def demo_env_def store_answers_def demo_verify_def session_rows_def empty_db_def)

lemma demo_request_good: "good_request demo_chain empty_db ''s2'' ''observation'' ''o2'' demo_ahash"
  using demo_ahash_ok
  by (simp add: good_request_def demo_chain_def fresh_state_def empty_db_def session_rows_def
      virp_chain_type_is_federation_def type_in_def FEDERATION_def)

lemma demo_appended:
  obtains e db where "demo_entry = (Inr e, demo_chain\<lparr>cs_db := Some db\<rparr>)"
    "chain_run demo_lib demo_chain (demo_chain\<lparr>cs_db := Some db\<rparr>)" "session_rows db ''s2'' = [e]"
    "ce_artifact_type e = ''observation''"
proof -
  obtain e st' where app: "demo_entry = (Inr e, st')"
    using append_accepts [OF demo_request_good empty_db_good demo_chain_facts(2) demo_lib_laws(2) demo_chain_facts(6,7), of None]
    by (auto simp: demo_entry_def empty_db_def)
  have fits: "fits_session demo_chain empty_db (Some ''s2'')"
    by (simp add: fits_session_def append_session_def use_epoch_def demo_chain_def fresh_state_def session_rows_def empty_db_def)
  have run: "chain_run demo_lib demo_chain st'"
    by (rule chain_run_append [OF chain_run_refl demo_chain_facts(1) fits _ app [unfolded demo_entry_def]])
      (simp add: demo_env_def)
  then obtain db where st': "st' = demo_chain\<lparr>cs_db := Some db\<rparr>"
    using chain_run_good [OF _ demo_chain_facts(1) empty_db_good demo_chain_facts(2) demo_lib_laws(2)] by blast
  obtain s db' where s: "append_session demo_chain ''s2'' = Inr s" "canonical_chars s"
      and txn: "append_txn demo_lib demo_env demo_chain (use_epoch demo_chain ''s2'') s ''observation'' ''o2'' demo_ahash None empty_db = Inr (e, db')"
      and db': "st' = demo_chain\<lparr>cs_db := Some (append_milestone demo_lib demo_env demo_chain s e db')\<rparr>"
    by (rule append_OK [OF app [unfolded demo_entry_def]]) (metis demo_chain_facts(1) option.inject)
  have "s = ''s2''"
    using s(1) by (simp add: append_session_def use_epoch_def demo_chain_def fresh_state_def)
  then have "session_rows db' ''s2'' = [e]"
    using append_txn_extends [OF txn s(2) _ _ demo_ahash_ok _ demo_chain_facts(2) demo_lib_laws(2)] empty_db_good demo_chain_facts(9)
    by (simp add: db_good_def)
  moreover have "db = append_milestone demo_lib demo_env demo_chain s e db'"
    using arg_cong [OF trans [OF st' [symmetric] db'], of cs_db] by simp
  then have "session_rows db ''s2'' = session_rows db' ''s2''"
    using entry_tables(3) [of demo_lib demo_env demo_chain s e db'] by (simp add: session_rows_def)
  moreover obtain n p where seal: "seal_entry demo_lib demo_chain (new_entry demo_env demo_chain s n p ''observation'' ''o2'' demo_ahash) = Inr e"
    using append_txn_OK [OF txn] by metis
  have "ce_artifact_type e = ''observation''"
    using entry_core_fields [of e] seal_entry_OK [OF seal] by simp
  ultimately show thesis
    using that app run st' by simp
qed

text \<open>C15: on a handle whose chains are intact, an append with a canonical session,
  type and id and a lower-case hex hash, whose session name fits the field, and whose
  statements run is accepted, unless the canonical text of the new entry has the SHA-256
  digest of a different entry's text.\<close>

theorem chain_append_accepts:
  assumes "good_request st db s t i h" and "db_good C (sk_key (cs_chain_key st)) db"
    and "quote_free (cs_org_id st)" and "sha_len C" and "macs_computed C st" and "\<forall>q. ev_sql ev q"
  shows "(\<exists>e st'. virp_chain_append_with_artifact C ev (Some st) (Some s) (Some t) (Some i) (Some h) content = (Inr e, Some st')) \<or>
    (\<exists>f \<in> set (db_entries db). sha_collision C (string_bytes (build_canonical_json f))
       (string_bytes (build_canonical_json
         (new_entry ev st s (int (length (session_rows db s))) (end_hash (genesis_of C s) (session_rows db s)) t i h))))"
  using append_accepts [OF assms, of content] unfolding virp_chain_append_with_artifact_def by auto

theorem chain_append_accepts_witness:
  "\<exists>e st'. virp_chain_append_with_artifact demo_lib demo_env (Some demo_chain) (Some ''s2'') (Some ''observation'') (Some ''o2'')
     (Some demo_ahash) None = (Inr e, Some st')"
  using chain_append_accepts [OF demo_request_good empty_db_good demo_chain_facts(2) demo_lib_laws(2) demo_chain_facts(6,7), of None]
  by (auto simp: empty_db_def)

text \<open>C5: after any sequence of appends to an empty chain, accepted or refused, whose
  session names fit their field, the verification of every session that has entries succeeds,
  or it stops on the evidence the entries cite (a body that does not hash to its commitment,
  an approval spent twice, two closers of one intent, a closer that disagrees with or does not
  find its intent). No append breaks the numbering, the links, the hashes, the MACs or the head.\<close>

theorem chain_append_verifies:
  assumes "chain_run C st0 st" and "cs_db st0 = Some empty_db" and "quote_free (cs_org_id st0)" and "sha_len C"
    and "\<not> cs_verify_sig_enabled st0" and "\<not> cs_legacy_no_heads st0" and "store_answers ve"
    and "cs_db st = Some db" and "length s \<le> 63" and "session_rows db s \<noteq> []" and "length (session_rows db s) < 2 ^ 62"
  shows "\<exists>r. virp_chain_verify_session C parse ve st db (Some s) = (VIRP_OK, r) \<and>
    (vr_valid r \<or> evidence_detail (vr_error_detail r))"
proof -
  obtain db' where st: "st = st0\<lparr>cs_db := Some db'\<rparr>" and good: "db_good C (sk_key (cs_chain_key st0)) db'"
    using chain_run_good [OF assms(1,2) empty_db_good assms(3,4)] by blast
  then have "session_good C (sk_key (cs_chain_key st)) db s"
    using assms(8) by (simp add: db_good_def)
  then show ?thesis
    using verify_session_complete [of C st db s ve parse] assms(5-11) st by (simp add: virp_chain_verify_session_def)
qed

theorem chain_append_verifies_witness:
  "\<exists>db r. cs_db (snd demo_entry) = Some db \<and> session_rows db ''s2'' \<noteq> [] \<and>
     virp_chain_verify_session demo_lib (\<lambda>_. None) demo_verify (snd demo_entry) db (Some ''s2'') = (VIRP_OK, r) \<and>
     (vr_valid r \<or> evidence_detail (vr_error_detail r))"
proof -
  obtain e db where app: "demo_entry = (Inr e, demo_chain\<lparr>cs_db := Some db\<rparr>)"
      and run: "chain_run demo_lib demo_chain (demo_chain\<lparr>cs_db := Some db\<rparr>)" and rows: "session_rows db ''s2'' = [e]"
    by (rule demo_appended)
  show ?thesis
    using rows chain_append_verifies [OF run demo_chain_facts(1,2) demo_lib_laws(2) demo_chain_facts(3,4,8), of db "''s2''" "\<lambda>_. None"]
    unfolding app by (intro exI [of _ db]) simp
qed

text \<open>C3: a database that verifies against the head of a chain the appends wrote holds
  that chain. Whatever was done to its tables, if the session is valid and the head row names
  the last sequence and the entry hash of the honest chain, every canonical field of every
  entry is the honest one, or two of the canonical texts exhibit a SHA-256 collision. No clean
  field is assumed of the database under test.\<close>

theorem chain_tamper_evident:
  assumes "chain_run C st0 st" and "cs_db st0 = Some empty_db" and "quote_free (cs_org_id st0)" and "sha_len C"
    and "cs_db st = Some db" and "db_heads db s = Some h" and "length s \<le> 63"
    and "virp_chain_verify_session C parse ve st' db' (Some s) = (VIRP_OK, r)" and "vr_valid r"
    and "db_heads db' s = Some h'" and "ch_last_sequence h' = ch_last_sequence h"
    and "take 64 (ch_last_entry_hash h') = ch_last_entry_hash h"
  defines "es \<equiv> map (read_entry_from_stmt (cs_reads_sig st')) (range_rows db' s 0 (ch_last_sequence h'))"
  shows "map entry_core es = map entry_core (session_rows db s) \<or>
    (\<exists>e \<in> set (session_rows db s). \<exists>f \<in> set es. sha_collision C (string_bytes (build_canonical_json e)) (string_bytes (build_canonical_json f)))"
proof -
  have good: "session_good C (sk_key (cs_chain_key st0)) db s"
    using chain_run_good [OF assms(1,2) empty_db_good assms(3,4)] assms(5) by (auto simp: db_good_def)
  then have honest: "linked C (hmac_by C (sk_key (cs_chain_key st0))) (genesis_of C s) 0 (session_rows db s)"
      "\<forall>e \<in> set (session_rows db s). list_all quote_free (entry_strings e)"
    by (auto simp: session_good_def entry_clean_def)
  have rows: "session_rows db s \<noteq> []" "ch_last_sequence h = int (length (session_rows db s)) - 1"
      "ch_last_entry_hash h = ce_chain_entry_hash (last (session_rows db s))"
    using good assms(6) by (auto simp: session_good_def head_good_def)
  have v: "int (length es) = ch_last_sequence h' + 1" "linked C (mac_ok C st') (genesis_of C s) 0 es"
      "end_hash (genesis_of C s) es = take 64 (ch_last_entry_hash h')"
    using verify_session_OK [OF assms(8) [unfolded virp_chain_verify_session_def option.case] assms(9)] assms(10)
    unfolding genesis_short [OF assms(7)] es_def by (metis option.inject)+
  have "length (session_rows db s) = length es" "end_hash (genesis_of C s) (session_rows db s) = end_hash (genesis_of C s) es"
    using v rows assms(11,12) by (simp_all add: end_hash_def)
  then show ?thesis
    using linked_determined [OF honest(1) v(2) _ _ honest(2)] by blast
qed


definition demo_db :: chain_db where "demo_db = the (cs_db (snd demo_entry))"

lemma demo_db_valid:
  "vr_valid (snd (virp_chain_verify_session demo_lib (\<lambda>_. None) demo_verify (snd demo_entry) demo_db (Some ''s2'')))"
  unfolding demo_db_def by code_simp

lemma demo_db_facts:
  obtains e h r where "snd demo_entry = demo_chain\<lparr>cs_db := Some demo_db\<rparr>"
    "chain_run demo_lib demo_chain (snd demo_entry)" "session_rows demo_db ''s2'' = [e]"
    "session_good demo_lib (sk_key (cs_chain_key demo_chain)) demo_db ''s2''"
    "db_heads demo_db ''s2'' = Some h" "ch_last_sequence h = 0" "take 64 (ch_last_entry_hash h) = ch_last_entry_hash h"
    "virp_chain_verify_session demo_lib (\<lambda>_. None) demo_verify (snd demo_entry) demo_db (Some ''s2'') = (VIRP_OK, r)" "vr_valid r"
    "ce_artifact_type e = ''observation''"
proof -
  obtain e db where a: "demo_entry = (Inr e, demo_chain\<lparr>cs_db := Some db\<rparr>)" "session_rows db ''s2'' = [e]"
      "chain_run demo_lib demo_chain (demo_chain\<lparr>cs_db := Some db\<rparr>)" "ce_artifact_type e = ''observation''"
    by (rule demo_appended)
  have app: "snd demo_entry = demo_chain\<lparr>cs_db := Some demo_db\<rparr>" and rows: "session_rows demo_db ''s2'' = [e]"
      and run: "chain_run demo_lib demo_chain (snd demo_entry)"
    unfolding demo_db_def a(1) using a(2,3) by simp_all
  have good: "session_good demo_lib (sk_key (cs_chain_key demo_chain)) demo_db ''s2''"
    using chain_run_good [OF run demo_chain_facts(1) empty_db_good demo_chain_facts(2) demo_lib_laws(2)]
    by (auto simp: db_good_def demo_db_def)
  then obtain h where h: "db_heads demo_db ''s2'' = Some h" "ch_last_sequence h = 0" "ch_last_entry_hash h = ce_chain_entry_hash e"
    using rows by (auto simp: session_good_def head_good_def split: option.splits)
  have "linked demo_lib (hmac_by demo_lib (sk_key (cs_chain_key demo_chain))) (genesis_of demo_lib ''s2'') 0 [e]"
    using good rows by (simp add: session_good_def)
  then have "take 64 (ch_last_entry_hash h) = ch_last_entry_hash h"
    using length_sha256_hex [OF demo_lib_laws(2)] h(3) by simp
  moreover obtain r where r: "virp_chain_verify_session demo_lib (\<lambda>_. None) demo_verify (snd demo_entry) demo_db (Some ''s2'') = (VIRP_OK, r)"
    using verify_session_complete [of demo_lib "snd demo_entry" demo_db "''s2''" demo_verify "\<lambda>_. None"]
      good rows demo_chain_facts(3,4,8) unfolding virp_chain_verify_session_def app by fastforce
  moreover have "vr_valid r"
    using demo_db_valid unfolding r by simp
  ultimately show thesis
    using that [OF app run rows good h(1,2)] a(4) by blast
qed

theorem chain_tamper_evident_witness:
  "map entry_core (map (read_entry_from_stmt False) (range_rows demo_db ''s2'' 0 0)) = map entry_core (session_rows demo_db ''s2'') \<or>
   (\<exists>e \<in> set (session_rows demo_db ''s2''). \<exists>f \<in> set (map (read_entry_from_stmt False) (range_rows demo_db ''s2'' 0 0)).
      sha_collision demo_lib (string_bytes (build_canonical_json e)) (string_bytes (build_canonical_json f)))"
proof -
  obtain h r where f: "snd demo_entry = demo_chain\<lparr>cs_db := Some demo_db\<rparr>"
      "chain_run demo_lib demo_chain (snd demo_entry)" "db_heads demo_db ''s2'' = Some h" "ch_last_sequence h = 0"
      "take 64 (ch_last_entry_hash h) = ch_last_entry_hash h"
      "virp_chain_verify_session demo_lib (\<lambda>_. None) demo_verify (snd demo_entry) demo_db (Some ''s2'') = (VIRP_OK, r)" "vr_valid r"
    using demo_db_facts by metis
  show ?thesis
    using chain_tamper_evident [OF f(2) demo_chain_facts(1,2) demo_lib_laws(2) _ f(3) _ f(6,7,3) refl f(5)] f(1,4) demo_chain_facts(5)
    by simp
qed

text \<open>C33: an append that reports an error leaves the handle and its database as they were,
  with one exception: when COMMIT fails and SQLite keeps the transaction open, no ROLLBACK is
  issued, and every later append on the handle, whatever its arguments, is refused.\<close>

theorem chain_append_atomic:
  assumes "chain_append_locked C ev st session atype aid ahash content = (Inl x, st')"
  shows "st' = st \<or>
    (\<not> ev_sql ev ''commit'' \<and> ev_commit_open ev \<and> x = VIRP_ERR_CHAIN_DB \<and>
     (\<forall>ev' se ty ai ah co. \<exists>y. chain_append_locked C ev' st' se ty ai ah co = (Inl y, st')))"
  using append_fails [OF assms] open_txn_blocks by blast

definition demo_full_disk :: chain_env where
  "demo_full_disk = demo_env\<lparr>ev_sql := (\<lambda>q. q \<noteq> ''commit''), ev_commit_open := True\<rparr>"

lemma commit_fails:
  "\<not> ev_sql ev ''commit'' \<Longrightarrow> \<exists>x st'. chain_append_locked C ev st session atype aid ahash content = (Inl x, st')"
  by (auto simp: chain_append_locked_def split: option.split sum.split prod.split)

theorem chain_append_atomic_witness:
  "\<exists>x st'. chain_append_locked demo_lib demo_full_disk demo_chain (Some ''s2'') (Some ''observation'') (Some ''o2'')
       (Some demo_ahash) None = (Inl x, st') \<and>
     (st' = demo_chain \<or> (\<forall>se. \<exists>y. chain_append_locked demo_lib demo_env st' se (Some ''observation'') (Some ''o3'') (Some demo_ahash) None = (Inl y, st')))"
proof -
  obtain x st' where app: "chain_append_locked demo_lib demo_full_disk demo_chain (Some ''s2'') (Some ''observation'') (Some ''o2'')
       (Some demo_ahash) None = (Inl x, st')"
    using commit_fails [of demo_full_disk] by (simp add: demo_full_disk_def) blast
  show ?thesis
    using app chain_append_atomic [OF app] by blast
qed

text \<open>C38: the number of intents that spend an approval, found by a binary search in the
  sorted map and a scan to both ends of the run, is the number of intents in the database whose
  body cites that entry hash.\<close>

theorem chain_lookup_exact:
  assumes "cs_db st = Some db" and "length aeh \<le> 64" and "aeh \<noteq> []" and "ve_sql ve 0 ''intent_map''" and "ve_malloc ve"
  shows "virp_chain_count_intents_for_approval parse ve (Some st) (Some aeh) = Inr (count_list (intent_refs parse db) aeh)"
  using count_intents_reference [OF assms(2-5), of parse db] assms(1) by (simp add: virp_chain_count_intents_for_approval_def)

theorem chain_lookup_exact_witness:
  "virp_chain_count_intents_for_approval (\<lambda>_. None) demo_verify (Some demo_chain) (Some demo_ahash) =
     Inr (count_list (intent_refs (\<lambda>_. None) empty_db) demo_ahash)"
  using chain_lookup_exact [OF demo_chain_facts(1), of demo_ahash demo_verify "\<lambda>_. None"]
  by (simp add: demo_ahash_def demo_verify_def)

text \<open>C37: after an accepted append of a federation type with an id that fits its field, every entry
  with that id in the database commits to the hash of the request.\<close>

theorem chain_federation_one_hash:
  assumes "virp_chain_append_with_artifact C ev (Some st) session (Some t) (Some i) (Some h) content = (Inr e, Some st')"
    and "virp_chain_type_is_federation (Some t)" and "length i \<le> 127"
  shows "\<exists>db. cs_db st' = Some db \<and> e \<in> set (db_entries db) \<and> ce_artifact_id e = i \<and>
    (\<forall>f \<in> set (db_entries db). ce_artifact_id f = i \<longrightarrow> ce_artifact_hash f = h)"
  by (rule federation_append [OF _ assms(2,3)])
    (use assms(1) in \<open>auto simp: virp_chain_append_with_artifact_def apsnd_def map_prod_def split: prod.splits\<close>)

definition demo_fed_append :: "(virp_error_t + virp_chain_entry_t) \<times> virp_chain_state_t ptr" where
  "demo_fed_append = virp_chain_append_with_artifact demo_lib demo_env (Some demo_chain) (Some ''s2'') (Some (hd FEDERATION)) (Some ''o2'')
     (Some demo_ahash) None"

theorem chain_federation_one_hash_witness:
  "\<exists>e st' db. demo_fed_append = (Inr e, Some st') \<and> cs_db st' = Some db \<and> e \<in> set (db_entries db) \<and>
     (\<forall>f \<in> set (db_entries db). ce_artifact_id f = ''o2'' \<longrightarrow> ce_artifact_hash f = demo_ahash)"
proof -
  have "good_request demo_chain empty_db ''s2'' (hd FEDERATION) ''o2'' demo_ahash"
    using demo_request_good by (simp add: good_request_def FEDERATION_def empty_db_def artifact_id_conflicts_def)
  then obtain e st' where app: "demo_fed_append = (Inr e, Some st')"
    using append_accepts [OF _ empty_db_good demo_chain_facts(2) demo_lib_laws(2) demo_chain_facts(6,7), of "''s2''" "hd FEDERATION" "''o2''" demo_ahash None]
    by (auto simp: demo_fed_append_def empty_db_def virp_chain_append_with_artifact_def)
  have "virp_chain_type_is_federation (Some (hd FEDERATION))"
    by (simp add: virp_chain_type_is_federation_def type_in_def FEDERATION_def)
  then show ?thesis
    using app chain_federation_one_hash [OF app [unfolded demo_fed_append_def]] by auto
qed

text \<open>A handle the verifier opens holds no signing key, and every operation that would write
  refuses it and leaves it as it is.\<close>

theorem chain_verifier_inert:
  assumes "virp_chain_open_verifier_ex C i fs euid m sql open_db dp kp pp node org = Inr st"
  shows "\<not> cs_sign_enabled st \<and> cs_verify_sig_enabled st = (pp \<noteq> None) \<and>
    (\<exists>x. chain_append_locked C ev st session atype aid ahash content = (Inl x, st)) \<and>
    (\<exists>x. chain_intent_store_locked C ev st entry = (Inl x, st)) \<and>
    (\<exists>x. chain_intent_execute_locked ev st iid = (Inl x, st)) \<and>
    (\<exists>x. virp_chain_artifact_store ev (Some st) aid atype content ahash session = Inl x) \<and>
    (\<exists>x. virp_chain_enable_signing C i m fs euid sql alter st sk = (x, st) \<and> x \<noteq> VIRP_OK)"
proof -
  obtain "cs_read_only st" "\<not> cs_sign_enabled st" "cs_verify_sig_enabled st = (pp \<noteq> None)"
    by (rule open_verifier_OK [OF assms]) blast
  then show ?thesis
    by (simp add: readonly_refuses)
qed

definition demo_reader :: "virp_error_t + virp_chain_state_t" where
  "demo_reader = virp_chain_open_verifier_ex demo_lib True (\<lambda>_. None) 0 True (\<lambda>_. True) (\<lambda>_. Some empty_db) (Some ''c.db'') None None 42 None"

theorem chain_verifier_inert_witness:
  "\<exists>st. demo_reader = Inr st \<and> \<not> cs_sign_enabled st \<and>
     (\<exists>x. chain_append_locked demo_lib demo_env st (Some ''s2'') (Some ''observation'') (Some ''o2'') (Some demo_ahash) None = (Inl x, st))"
proof -
  obtain st where st: "demo_reader = Inr st"
    by (auto simp: demo_reader_def virp_chain_open_verifier_ex_def org_refused_def load_hmac_key_def load_public_key_def
        attach_verifier_def table_exists_def empty_db_def Let_def)
  show ?thesis
    using st chain_verifier_inert [OF st [unfolded demo_reader_def]] by blast
qed

text \<open>C39: however often and in whatever environment an intent is executed, the executions granted
  are at most what its quota leaves.\<close>

theorem chain_intent_quota: "grants evs st i \<le> intent_budget st i"
  by (rule grants_bounded)

text \<open>C40: the octets an artifact body stands for are the octets its digest is taken of, and the
  base64 of any octets that fit is read back as those octets.\<close>

theorem artifact_one_decoder:
  assumes "length raw \<le> n"
  shows "virp_chain_artifact_bytes n (Some (B64_PREFIX @ b64_encode raw)) = Inr raw \<and>
    virp_chain_artifact_digest C True (Some (B64_PREFIX @ b64_encode raw)) = Inr (sha256_hex C raw) \<and>
    (\<forall>content other. virp_chain_artifact_bytes n content = Inr other \<longrightarrow>
       virp_chain_artifact_digest C True content = Inr (sha256_hex C other))"
proof -
  have "starts_with B64_PREFIX (B64_PREFIX @ b64_encode raw)"
    by (simp add: starts_with_def)
  then have "virp_chain_artifact_bytes n (Some (B64_PREFIX @ b64_encode raw)) = Inr raw"
    using b64_roundtrip [OF assms] by (simp add: virp_chain_artifact_bytes_def)
  then show ?thesis
    using artifact_bytes_digest by blast
qed

theorem artifact_one_decoder_witness:
  "virp_chain_artifact_bytes 4 (Some (B64_PREFIX @ b64_encode [1, 2, 3, 255])) = Inr [1, 2, 3, 255]"
  using artifact_one_decoder [of "[1, 2, 3, 255]" 4 demo_lib] by simp












end
